theory Spec2Isabelle
  imports Complex_Main "HOL-Library.Char_ord" "HOL-Library.List_Lexorder" "HOL-Library.Log_Nat"
    "HOL-Library.Monad_Syntax" "HOL-Library.Product_Lexorder"
begin

section \<open>Numbers and small helpers\<close>

text \<open>
  JavaScript numbers are IEEE doubles. Here a number holding a grid coordinate or a
  lattice index is an \<open>int\<close>, every other number is a \<open>real\<close>; rounding error of the
  floating-point operations on reals is outside the model, and "bit-identical" is equality.
  The reals are the code as long as no operation overflows; the noise class is given a second
  time on numbers with infinities and \<open>NaN\<close>, in a section of its own.

  A double holds every integer up to \<open>2 ^ 53\<close> in magnitude, and beyond that only the
  integers with a 53-bit significand. In the neighbour table the sum or difference of two
  integer-valued doubles is the double nearest to the exact result, the one with the even
  significand when two are equally near: \<open>roundToDouble\<close>. The grid coordinates are
  finite, and a finite double plus or minus one never overflows, so no infinity arises there.
\<close>

type_synonym vec3 = "real \<times> real \<times> real"

definition js_mod :: "int \<Rightarrow> int \<Rightarrow> int" where
  \<comment> \<open>the \<open>%\<close> operator: the remainder carries the sign of the dividend\<close>
  "js_mod a b = sgn a * (\<bar>a\<bar> mod \<bar>b\<bar>)"

definition js_round :: "real \<Rightarrow> int" where
  \<comment> \<open>\<open>Math.round\<close>: halves go up\<close>
  "js_round x = \<lfloor>x + 1 / 2\<rfloor>"

definition roundToDouble :: "int \<Rightarrow> int" where
  \<comment> \<open>the nearest double of an integer, ties to the even significand\<close>
  "roundToDouble z =
     (if \<bar>z\<bar> \<le> 2 ^ 53 then z
      else let e = nat (bitlen \<bar>z\<bar> - 53);
               q = \<bar>z\<bar> div 2 ^ e;
               r = \<bar>z\<bar> mod 2 ^ e;
               h = 2 ^ (e - 1);
               m = (if h < r \<or> (r = h \<and> odd q) then q + 1 else q)
           in sgn z * (m * 2 ^ e))"

definition js_plus :: "int \<Rightarrow> int \<Rightarrow> int" where
  \<comment> \<open>\<open>a + b\<close> on integer-valued doubles\<close>
  "js_plus a b = roundToDouble (a + b)"

definition js_minus :: "int \<Rightarrow> int \<Rightarrow> int" where
  \<comment> \<open>\<open>a - b\<close> on integer-valued doubles\<close>
  "js_minus a b = roundToDouble (a - b)"

section \<open>Direction tables (HexUtils.getDirectionMaps)\<close>

definition directions :: "string list" where
  "directions = [''N'', ''NE'', ''SE'', ''S'', ''SW'', ''NW'']"

definition edgeVertexMap :: "string \<Rightarrow> (nat \<times> nat) option" where
  "edgeVertexMap d =
     (if d = ''N'' then Some (4, 5)
      else if d = ''NE'' then Some (5, 0)
      else if d = ''SE'' then Some (0, 1)
      else if d = ''S'' then Some (1, 2)
      else if d = ''SW'' then Some (2, 3)
      else if d = ''NW'' then Some (3, 4)
      else None)"

definition oppositeDirection :: "string \<Rightarrow> string option" where
  "oppositeDirection d =
     (if d = ''N'' then Some ''S''
      else if d = ''NE'' then Some ''SW''
      else if d = ''SE'' then Some ''NW''
      else if d = ''S'' then Some ''N''
      else if d = ''SW'' then Some ''NE''
      else if d = ''NW'' then Some ''SE''
      else None)"

definition clockwiseDirection :: "string \<Rightarrow> string option" where
  "clockwiseDirection d =
     (if d = ''N'' then Some ''NE''
      else if d = ''NE'' then Some ''SE''
      else if d = ''SE'' then Some ''S''
      else if d = ''S'' then Some ''SW''
      else if d = ''SW'' then Some ''NW''
      else if d = ''NW'' then Some ''N''
      else None)"

definition skirtDirections :: "string list" where
  "skirtDirections = [''SE'', ''S'', ''SW'']"

section \<open>Neighbour coordinates\<close>

text \<open>
  The \<open>switch\<close> of \<open>getNeighborCoords\<close>, shared by both classes: the offset table of a
  flat-topped grid, \<open>None\<close> for the \<open>default\<close> branch.
\<close>

definition directionTable :: "int \<times> int \<Rightarrow> string \<Rightarrow> (int \<times> int) option" where
  "directionTable coords direction =
     (let col = fst coords; row = snd coords;
          isOddColumn = (js_mod col 2 = 1)
      in if direction = ''N'' then Some (col, js_minus row 1)
         else if direction = ''NE'' then
           Some (js_plus col 1, if isOddColumn then row else js_minus row 1)
         else if direction = ''SE'' then
           Some (js_plus col 1, if isOddColumn then js_plus row 1 else row)
         else if direction = ''S'' then Some (col, js_plus row 1)
         else if direction = ''SW'' then
           Some (js_minus col 1, if isOddColumn then js_plus row 1 else row)
         else if direction = ''NW'' then
           Some (js_minus col 1, if isOddColumn then row else js_minus row 1)
         else None)"

definition HexUtils_getNeighborCoords :: "int \<times> int \<Rightarrow> string \<Rightarrow> (int \<times> int) option" where
  \<comment> \<open>utils/HexUtils.js: the table's result is returned as it is\<close>
  "HexUtils_getNeighborCoords coords direction = directionTable coords direction"

definition HexGenerator_getNeighborCoords ::
  "int \<Rightarrow> int \<times> int \<Rightarrow> string \<Rightarrow> (int \<times> int) option" where
  \<comment> \<open>hex/hexGenerator.js: the table's result, then the bounds check against \<open>gridSize\<close>\<close>
  "HexGenerator_getNeighborCoords gridSize coords direction =
     (case directionTable coords direction of
        None \<Rightarrow> None
      | Some (newCol, newRow) \<Rightarrow>
          if newCol < 0 \<or> newCol \<ge> gridSize \<or> newRow < 0 \<or> newRow \<ge> gridSize
          then None else Some (newCol, newRow))"

definition inBounds :: "int \<Rightarrow> int \<times> int \<Rightarrow> bool" where
  "inBounds gridSize c = (0 \<le> fst c \<and> fst c < gridSize \<and> 0 \<le> snd c \<and> snd c < gridSize)"

section \<open>PerlinNoise (utils/noise.js)\<close>

text \<open>
  The two caches of an instance are maps. A key of \<open>memory\<close> is the string
  \<open>x + "," + y\<close>; a number's decimal string determines the number, so the key is the
  pair \<open>(x, y)\<close> itself. A key of \<open>gradients\<close> is built the same way from the two
  lattice indices. The default seed \<open>Math.random()\<close> is the caller's draw.
\<close>

record PerlinNoise =
  pn_seed :: real
  pn_gradients :: "int \<times> int \<Rightarrow> (real \<times> real) option"
  pn_memory :: "real \<times> real \<Rightarrow> real option"

definition PerlinNoise_new :: "real \<Rightarrow> PerlinNoise" where
  "PerlinNoise_new seed = \<lparr>pn_seed = seed, pn_gradients = Map.empty, pn_memory = Map.empty\<rparr>"

definition PerlinNoise_fract :: "real \<Rightarrow> real" where
  "PerlinNoise_fract n = n - of_int \<lfloor>n\<rfloor>"

definition PerlinNoise_random :: "real \<Rightarrow> real \<Rightarrow> real \<Rightarrow> real" where
  "PerlinNoise_random seed x y =
     (let dot = x * 12.9898 + y * 78.233 + seed
      in PerlinNoise_fract (sin dot * 43758.5453123))"

definition getRandomGradient :: "int \<Rightarrow> int \<Rightarrow> PerlinNoise \<Rightarrow> (real \<times> real) \<times> PerlinNoise" where
  \<comment> \<open>a stored gradient is an object, hence always truthy: the test is one of presence\<close>
  "getRandomGradient ix iy pn =
     (case pn_gradients pn (ix, iy) of
        Some g \<Rightarrow> (g, pn)
      | None \<Rightarrow>
          let angle = 2 * pi * PerlinNoise_random (pn_seed pn) (of_int ix) (of_int iy);
              g = (cos angle, sin angle)
          in (g, pn\<lparr>pn_gradients := (pn_gradients pn)((ix, iy) \<mapsto> g)\<rparr>))"

definition smootherstep :: "real \<Rightarrow> real" where
  "smootherstep t = t * t * t * (t * (t * 6 - 15) + 10)"

definition lerp :: "real \<Rightarrow> real \<Rightarrow> real \<Rightarrow> real" where
  "lerp a b t = a + t * (b - a)"

definition dotGridGradient ::
  "int \<Rightarrow> int \<Rightarrow> real \<Rightarrow> real \<Rightarrow> PerlinNoise \<Rightarrow> real \<times> PerlinNoise" where
  "dotGridGradient ix iy x y pn =
     (let (gradient, pn1) = getRandomGradient ix iy pn;
          dx = x - of_int ix;
          dy = y - of_int iy
      in (dx * fst gradient + dy * snd gradient, pn1))"

definition truthy :: "real option \<Rightarrow> bool" where
  \<comment> \<open>\<open>if (this.memory[key])\<close>: an absent entry and a stored \<open>0\<close> both fail the test\<close>
  "truthy e = (case e of None \<Rightarrow> False | Some v \<Rightarrow> v \<noteq> 0)"

definition PerlinNoise_compute :: "real \<Rightarrow> real \<Rightarrow> PerlinNoise \<Rightarrow> real \<times> PerlinNoise" where
  \<comment> \<open>the body of \<open>get\<close> below the cache test\<close>
  "PerlinNoise_compute x y pn =
     (let x0 = \<lfloor>x\<rfloor>; y0 = \<lfloor>y\<rfloor>;
          x1 = x0 + 1; y1 = y0 + 1;
          sx = smootherstep (x - of_int x0);
          sy = smootherstep (y - of_int y0);
          (n0, pn1) = dotGridGradient x0 y0 x y pn;
          (n1, pn2) = dotGridGradient x1 y0 x y pn1;
          ix0 = lerp n0 n1 sx;
          (n2, pn3) = dotGridGradient x0 y1 x y pn2;
          (n3, pn4) = dotGridGradient x1 y1 x y pn3;
          ix1 = lerp n2 n3 sx;
          result = lerp ix0 ix1 sy * 0.5 + 0.5
      in (result, pn4\<lparr>pn_memory := (pn_memory pn4)((x, y) \<mapsto> result)\<rparr>))"

definition PerlinNoise_get :: "real \<Rightarrow> real \<Rightarrow> PerlinNoise \<Rightarrow> real \<times> PerlinNoise" where
  "PerlinNoise_get x y pn =
     (if truthy (pn_memory pn (x, y)) then (the (pn_memory pn (x, y)), pn)
      else PerlinNoise_compute x y pn)"

subsection \<open>The same computation without the caches\<close>

definition gradient_uncached :: "real \<Rightarrow> int \<Rightarrow> int \<Rightarrow> real \<times> real" where
  "gradient_uncached seed ix iy =
     (let angle = 2 * pi * PerlinNoise_random seed (of_int ix) (of_int iy)
      in (cos angle, sin angle))"

definition dot_uncached :: "real \<Rightarrow> int \<Rightarrow> int \<Rightarrow> real \<Rightarrow> real \<Rightarrow> real" where
  "dot_uncached seed ix iy x y =
     (let gradient = gradient_uncached seed ix iy;
          dx = x - of_int ix;
          dy = y - of_int iy
      in dx * fst gradient + dy * snd gradient)"

definition get_uncached :: "real \<Rightarrow> real \<Rightarrow> real \<Rightarrow> real" where
  "get_uncached seed x y =
     (let x0 = \<lfloor>x\<rfloor>; y0 = \<lfloor>y\<rfloor>;
          x1 = x0 + 1; y1 = y0 + 1;
          sx = smootherstep (x - of_int x0);
          sy = smootherstep (y - of_int y0);
          n0 = dot_uncached seed x0 y0 x y;
          n1 = dot_uncached seed x1 y0 x y;
          ix0 = lerp n0 n1 sx;
          n2 = dot_uncached seed x0 y1 x y;
          n3 = dot_uncached seed x1 y1 x y;
          ix1 = lerp n2 n3 sx
      in lerp ix0 ix1 sy * 0.5 + 0.5)"

text \<open>A call history: the instance after a list of \<open>get\<close> calls, oldest first.\<close>

fun after_calls :: "PerlinNoise \<Rightarrow> (real \<times> real) list \<Rightarrow> PerlinNoise" where
  "after_calls pn [] = pn"
| "after_calls pn (c # cs) = after_calls (snd (PerlinNoise_get (fst c) (snd c) pn)) cs"

definition cache_ok :: "PerlinNoise \<Rightarrow> bool" where
  \<comment> \<open>every cached entry is the value the computation gives\<close>
  "cache_ok pn =
     ((\<forall>k v. pn_memory pn k = Some v \<longrightarrow> v = get_uncached (pn_seed pn) (fst k) (snd k)) \<and>
      (\<forall>k g. pn_gradients pn k = Some g \<longrightarrow> g = gradient_uncached (pn_seed pn) (fst k) (snd k)))"

section \<open>PerlinNoise on numbers that can overflow\<close>

text \<open>
  The definitions above compute on reals, which is the code as long as no operation
  overflows. The definitions of this section are the same class on numbers that keep the
  infinities and \<open>NaN\<close> of the doubles. An operation on finite operands yields an infinity
  when its exact result reaches \<open>overflowBound\<close> in magnitude, the point from which a
  double rounds to infinity; infinities and \<open>NaN\<close> propagate as IEEE 754 prescribes
  (\<open>Infinity - Infinity\<close>, \<open>0 * Infinity\<close> and the sine or cosine of an infinity are
  \<open>NaN\<close>). Rounding of the finite results stays outside the model. The key of a cache is
  built from the decimal strings of two numbers, which determine them.
\<close>

datatype number = Fin real | Infinity bool | NaN
  \<comment> \<open>\<open>Infinity True\<close> is \<open>+Infinity\<close>, \<open>Infinity False\<close> is \<open>-Infinity\<close>\<close>

definition overflowBound :: real where
  \<comment> \<open>\<open>Number.MAX_VALUE = 2 ^ 1024 - 2 ^ 971\<close> plus half the gap to \<open>2 ^ 1024\<close>\<close>
  "overflowBound = 2 ^ 1024 - 2 ^ 970"

definition num_of :: "real \<Rightarrow> number" where
  \<comment> \<open>the result of an operation on finite operands whose exact value is \<open>r\<close>\<close>
  "num_of r = (if \<bar>r\<bar> < overflowBound then Fin r else Infinity (0 < r))"

fun num_neg :: "number \<Rightarrow> number" where
  "num_neg (Fin a) = Fin (- a)"
| "num_neg (Infinity s) = Infinity (\<not> s)"
| "num_neg NaN = NaN"

fun num_add :: "number \<Rightarrow> number \<Rightarrow> number" where
  "num_add (Fin a) (Fin b) = num_of (a + b)"
| "num_add (Fin a) (Infinity t) = Infinity t"
| "num_add (Infinity s) (Fin b) = Infinity s"
| "num_add (Infinity s) (Infinity t) = (if s = t then Infinity s else NaN)"
| "num_add NaN b = NaN"
| "num_add a NaN = NaN"

definition num_sub :: "number \<Rightarrow> number \<Rightarrow> number" where
  "num_sub a b = num_add a (num_neg b)"

fun num_mul :: "number \<Rightarrow> number \<Rightarrow> number" where
  "num_mul (Fin a) (Fin b) = num_of (a * b)"
| "num_mul (Fin a) (Infinity t) = (if a = 0 then NaN else Infinity (t = (0 < a)))"
| "num_mul (Infinity s) (Fin b) = (if b = 0 then NaN else Infinity (s = (0 < b)))"
| "num_mul (Infinity s) (Infinity t) = Infinity (s = t)"
| "num_mul NaN b = NaN"
| "num_mul a NaN = NaN"

fun num_floor :: "number \<Rightarrow> number" where
  "num_floor (Fin a) = Fin (of_int \<lfloor>a\<rfloor>)"
| "num_floor (Infinity s) = Infinity s"
| "num_floor NaN = NaN"

fun num_sin :: "number \<Rightarrow> number" where
  "num_sin (Fin a) = Fin (sin a)"
| "num_sin (Infinity s) = NaN"
| "num_sin NaN = NaN"

fun num_cos :: "number \<Rightarrow> number" where
  "num_cos (Fin a) = Fin (cos a)"
| "num_cos (Infinity s) = NaN"
| "num_cos NaN = NaN"

record PerlinNoise_num =
  pnn_seed :: number
  pnn_gradients :: "number \<times> number \<Rightarrow> (number \<times> number) option"
  pnn_memory :: "number \<times> number \<Rightarrow> number option"

definition PerlinNoise_new_num :: "number \<Rightarrow> PerlinNoise_num" where
  "PerlinNoise_new_num seed =
     \<lparr>pnn_seed = seed, pnn_gradients = Map.empty, pnn_memory = Map.empty\<rparr>"

definition PerlinNoise_fract_num :: "number \<Rightarrow> number" where
  "PerlinNoise_fract_num n = num_sub n (num_floor n)"

definition PerlinNoise_random_num :: "number \<Rightarrow> number \<Rightarrow> number \<Rightarrow> number" where
  "PerlinNoise_random_num seed x y =
     (let dot = num_add (num_add (num_mul x (Fin 12.9898)) (num_mul y (Fin 78.233))) seed
      in PerlinNoise_fract_num (num_mul (num_sin dot) (Fin 43758.5453123)))"

definition getRandomGradient_num ::
  "number \<Rightarrow> number \<Rightarrow> PerlinNoise_num \<Rightarrow> (number \<times> number) \<times> PerlinNoise_num" where
  \<comment> \<open>a stored gradient is an object, truthy also when its fields are \<open>NaN\<close>\<close>
  "getRandomGradient_num ix iy pn =
     (case pnn_gradients pn (ix, iy) of
        Some g \<Rightarrow> (g, pn)
      | None \<Rightarrow>
          let angle = num_mul (num_mul (Fin 2) (Fin pi))
                        (PerlinNoise_random_num (pnn_seed pn) ix iy);
              g = (num_cos angle, num_sin angle)
          in (g, pn\<lparr>pnn_gradients := (pnn_gradients pn)((ix, iy) \<mapsto> g)\<rparr>))"

definition smootherstep_num :: "number \<Rightarrow> number" where
  "smootherstep_num t =
     num_mul (num_mul (num_mul t t) t)
       (num_add (num_mul t (num_sub (num_mul t (Fin 6)) (Fin 15))) (Fin 10))"

definition lerp_num :: "number \<Rightarrow> number \<Rightarrow> number \<Rightarrow> number" where
  "lerp_num a b t = num_add a (num_mul t (num_sub b a))"

definition dotGridGradient_num ::
  "number \<Rightarrow> number \<Rightarrow> number \<Rightarrow> number \<Rightarrow> PerlinNoise_num \<Rightarrow> number \<times> PerlinNoise_num" where
  "dotGridGradient_num ix iy x y pn =
     (let (gradient, pn1) = getRandomGradient_num ix iy pn;
          dx = num_sub x ix;
          dy = num_sub y iy
      in (num_add (num_mul dx (fst gradient)) (num_mul dy (snd gradient)), pn1))"

definition truthy_num :: "number option \<Rightarrow> bool" where
  \<comment> \<open>an absent entry, a stored \<open>0\<close> and a stored \<open>NaN\<close> fail the test\<close>
  "truthy_num e =
     (case e of None \<Rightarrow> False | Some (Fin v) \<Rightarrow> v \<noteq> 0 | Some (Infinity s) \<Rightarrow> True
      | Some NaN \<Rightarrow> False)"

definition PerlinNoise_compute_num ::
  "number \<Rightarrow> number \<Rightarrow> PerlinNoise_num \<Rightarrow> number \<times> PerlinNoise_num" where
  "PerlinNoise_compute_num x y pn =
     (let x0 = num_floor x; y0 = num_floor y;
          x1 = num_add x0 (Fin 1); y1 = num_add y0 (Fin 1);
          sx = smootherstep_num (num_sub x x0);
          sy = smootherstep_num (num_sub y y0);
          (n0, pn1) = dotGridGradient_num x0 y0 x y pn;
          (n1, pn2) = dotGridGradient_num x1 y0 x y pn1;
          ix0 = lerp_num n0 n1 sx;
          (n2, pn3) = dotGridGradient_num x0 y1 x y pn2;
          (n3, pn4) = dotGridGradient_num x1 y1 x y pn3;
          ix1 = lerp_num n2 n3 sx;
          result = num_add (num_mul (lerp_num ix0 ix1 sy) (Fin 0.5)) (Fin 0.5)
      in (result, pn4\<lparr>pnn_memory := (pnn_memory pn4)((x, y) \<mapsto> result)\<rparr>))"

definition PerlinNoise_get_num ::
  "number \<Rightarrow> number \<Rightarrow> PerlinNoise_num \<Rightarrow> number \<times> PerlinNoise_num" where
  "PerlinNoise_get_num x y pn =
     (if truthy_num (pnn_memory pn (x, y)) then (the (pnn_memory pn (x, y)), pn)
      else PerlinNoise_compute_num x y pn)"

definition gradient_num_uncached :: "number \<Rightarrow> number \<Rightarrow> number \<Rightarrow> number \<times> number" where
  "gradient_num_uncached seed ix iy =
     (let angle = num_mul (num_mul (Fin 2) (Fin pi)) (PerlinNoise_random_num seed ix iy)
      in (num_cos angle, num_sin angle))"

definition dot_num_uncached ::
  "number \<Rightarrow> number \<Rightarrow> number \<Rightarrow> number \<Rightarrow> number \<Rightarrow> number" where
  "dot_num_uncached seed ix iy x y =
     (let gradient = gradient_num_uncached seed ix iy;
          dx = num_sub x ix;
          dy = num_sub y iy
      in num_add (num_mul dx (fst gradient)) (num_mul dy (snd gradient)))"

definition get_num_uncached :: "number \<Rightarrow> number \<Rightarrow> number \<Rightarrow> number" where
  "get_num_uncached seed x y =
     (let x0 = num_floor x; y0 = num_floor y;
          x1 = num_add x0 (Fin 1); y1 = num_add y0 (Fin 1);
          sx = smootherstep_num (num_sub x x0);
          sy = smootherstep_num (num_sub y y0);
          n0 = dot_num_uncached seed x0 y0 x y;
          n1 = dot_num_uncached seed x1 y0 x y;
          ix0 = lerp_num n0 n1 sx;
          n2 = dot_num_uncached seed x0 y1 x y;
          n3 = dot_num_uncached seed x1 y1 x y;
          ix1 = lerp_num n2 n3 sx
      in num_add (num_mul (lerp_num ix0 ix1 sy) (Fin 0.5)) (Fin 0.5))"

fun after_calls_num :: "PerlinNoise_num \<Rightarrow> (number \<times> number) list \<Rightarrow> PerlinNoise_num" where
  "after_calls_num pn [] = pn"
| "after_calls_num pn (c # cs) =
     after_calls_num (snd (PerlinNoise_get_num (fst c) (snd c) pn)) cs"

definition cache_ok_num :: "PerlinNoise_num \<Rightarrow> bool" where
  "cache_ok_num pn =
     ((\<forall>k v. pnn_memory pn k = Some v \<longrightarrow> v = get_num_uncached (pnn_seed pn) (fst k) (snd k)) \<and>
      (\<forall>k g. pnn_gradients pn k = Some g \<longrightarrow>
         g = gradient_num_uncached (pnn_seed pn) (fst k) (snd k)))"

section \<open>PerturbationUtils\<close>

record PerturbationUtils =
  pu_noise :: PerlinNoise
  pu_secondaryNoise :: PerlinNoise
  pu_perturbationScale :: real
  pu_noiseScale :: real
  pu_elevationNoiseScale :: real
  pu_elevationScale :: real
  pu_elevationPerturbationScale :: real
  pu_baseHeightCm :: real
  pu_ridgeInfluence :: real
  pu_valleyDepth :: real

definition PerturbationUtils_new ::
  "real option \<Rightarrow> real \<Rightarrow> real \<Rightarrow> real \<Rightarrow> real \<Rightarrow> real \<Rightarrow> real \<Rightarrow> real \<Rightarrow> PerturbationUtils" where
  \<comment> \<open>\<open>rnd1\<close> and \<open>rnd2\<close> are the two draws of \<open>Math.random()\<close>, used when the seed is \<open>null\<close>\<close>
  "PerturbationUtils_new seed perturbationScale noiseScale elevationNoiseScale elevationScale
      elevationPerturbationScale rnd1 rnd2 =
     \<lparr>pu_noise = PerlinNoise_new (case seed of Some s \<Rightarrow> s | None \<Rightarrow> rnd1 * 10000),
      pu_secondaryNoise = PerlinNoise_new (case seed of Some s \<Rightarrow> s + 5432 | None \<Rightarrow> rnd2 * 10000),
      pu_perturbationScale = perturbationScale,
      pu_noiseScale = noiseScale,
      pu_elevationNoiseScale = elevationNoiseScale,
      pu_elevationScale = elevationScale,
      pu_elevationPerturbationScale = elevationPerturbationScale,
      pu_baseHeightCm = 5,
      pu_ridgeInfluence = 0.4,
      pu_valleyDepth = 0.6\<rparr>"

definition PerturbationUtils_default :: "real \<Rightarrow> real \<Rightarrow> PerturbationUtils" where
  \<comment> \<open>\<open>new PerturbationUtils()\<close>: every parameter at its default\<close>
  "PerturbationUtils_default rnd1 rnd2 = PerturbationUtils_new None 0.5 0.1 0.025 12 3.0 rnd1 rnd2"

definition perturbXZ :: "real \<Rightarrow> real \<Rightarrow> PerturbationUtils \<Rightarrow> (real \<times> real) \<times> PerturbationUtils" where
  "perturbXZ x z pu =
     (let s = pu_noiseScale pu;
          (primaryNoiseX, n1) = PerlinNoise_get (x * s) (z * s) (pu_noise pu);
          (primaryNoiseZ, n2) = PerlinNoise_get (x * s + 200) (z * s + 200) n1;
          (secondaryNoiseX, s1) =
             PerlinNoise_get (x * s * 1.7 + 300) (z * s * 1.7) (pu_secondaryNoise pu);
          (secondaryNoiseZ, s2) = PerlinNoise_get (x * s * 1.7) (z * s * 1.7 + 300) s1;
          (dX, n3) = PerlinNoise_get (x * s * 4 + 700) (z * s * 4) n2;
          detailNoiseX = dX * 0.2;
          (dZ, n4) = PerlinNoise_get (x * s * 4) (z * s * 4 + 700) n3;
          detailNoiseZ = dZ * 0.2;
          combinedNoiseX = primaryNoiseX * 0.6 + secondaryNoiseX * 0.3 + detailNoiseX;
          combinedNoiseZ = primaryNoiseZ * 0.6 + secondaryNoiseZ * 0.3 + detailNoiseZ;
          flowX = primaryNoiseZ * 0.15;
          flowZ = primaryNoiseX * 0.15;
          finalNoiseX = combinedNoiseX * 0.85 + flowX;
          finalNoiseZ = combinedNoiseZ * 0.85 + flowZ;
          perturbX = (finalNoiseX * 2 - 1) * pu_perturbationScale pu * (1 + secondaryNoiseX * 0.5);
          perturbZ = (finalNoiseZ * 2 - 1) * pu_perturbationScale pu * (1 + secondaryNoiseZ * 0.5)
      in ((x + perturbX, z + perturbZ), pu\<lparr>pu_noise := n4, pu_secondaryNoise := s2\<rparr>))"

definition perturbY :: "real \<Rightarrow> real \<Rightarrow> real \<Rightarrow> PerturbationUtils \<Rightarrow> real \<times> PerturbationUtils" where
  "perturbY x y z pu =
     (let e = pu_elevationNoiseScale pu;
          (primaryNoise, n1) = PerlinNoise_get (x * e + 300) (z * e + 300) (pu_noise pu);
          (secondaryNoise, s1) =
             PerlinNoise_get (x * e * 1.7 + 500) (z * e * 1.7 + 500) (pu_secondaryNoise pu);
          ridgeNoise = \<bar>primaryNoise * 2 - 1\<bar> * pu_ridgeInfluence pu;
          valleyNoise = (1 - \<bar>secondaryNoise * 2 - 1\<bar>) * pu_valleyDepth pu;
          combinedNoise0 =
             primaryNoise * 0.6 + ridgeNoise * 0.3 - valleyNoise * 0.3 + secondaryNoise * 0.4;
          (detail, n2) = PerlinNoise_get (x * e * 5 + 700) (z * e * 5 + 700) n1;
          combinedNoise = combinedNoise0 + detail * 0.2;
          perturbation = (combinedNoise * 2 - 1) * pu_elevationPerturbationScale pu;
          py = of_int (js_round ((y + perturbation) * 100)) / 100
      in (py, pu\<lparr>pu_noise := n2, pu_secondaryNoise := s1\<rparr>))"

definition getElevation :: "real \<Rightarrow> real \<Rightarrow> PerturbationUtils \<Rightarrow> real \<times> PerturbationUtils" where
  \<comment> \<open>\<open>Math.pow\<close> of a non-negative base is \<open>powr\<close>; the square is written as a square\<close>
  "getElevation x z pu =
     (let e = pu_elevationNoiseScale pu;
          (primaryNoise, n1) = PerlinNoise_get (x * e) (z * e) (pu_noise pu);
          (secondaryNoise, s1) = PerlinNoise_get (x * e * 1.3) (z * e * 1.3) (pu_secondaryNoise pu);
          (o2, n2) = PerlinNoise_get (x * e * 2) (z * e * 2) n1;
          (o4, n3) = PerlinNoise_get (x * e * 4) (z * e * 4) n2;
          (o8, n4) = PerlinNoise_get (x * e * 8) (z * e * 8) n3;
          elevation0 = primaryNoise + 0.5 * o2 + 0.25 * o4 + 0.125 * o8;
          (q2, s2) = PerlinNoise_get (x * e * 2.5) (z * e * 2.5) s1;
          (q5, s3) = PerlinNoise_get (x * e * 5) (z * e * 5) s2;
          secondaryElevation0 = secondaryNoise + 0.4 * q2 + 0.2 * q5;
          ridgeNoise = (\<bar>primaryNoise * 2 - 1\<bar> powr 1.5) * pu_ridgeInfluence pu;
          valleyNoise = ((1 - \<bar>secondaryNoise * 2 - 1\<bar>) ^ 2) * pu_valleyDepth pu;
          elevation = (elevation0 / 1.875) * 0.65;
          secondaryElevation = (secondaryElevation0 / 1.6) * 0.35;
          finalElevation0 = elevation + secondaryElevation + ridgeNoise - valleyNoise;
          finalElevation1 = finalElevation0 * pu_elevationScale pu;
          finalElevation = finalElevation1 + pu_baseHeightCm pu / 25
      in (of_int (js_round (finalElevation * 100)) / 100, pu\<lparr>pu_noise := n4, pu_secondaryNoise := s3\<rparr>))"

definition getBiomeIndex :: "real \<Rightarrow> real \<Rightarrow> int" where
  "getBiomeIndex elevation biomeCount = \<lfloor>elevation * biomeCount\<rfloor>"

section \<open>HexUtils\<close>

record HexCell =
  hc_gridCoords :: "int \<times> int"
  hc_center :: vec3
  hc_vertices :: "vec3 list"
  hc_elevation :: real
  hc_biomeIndex :: int
  hc_featureIndex :: int

record HexUtils =
  hu_perturbUtils :: PerturbationUtils
  hu_gridSize :: int
  hu_hexSize :: real
  hu_hexGap :: real
  hu_effectiveSize :: real
  hu_width :: real
  hu_height :: real
  hu_horizDistance :: real
  hu_vertDistance :: real

definition HexUtils_new :: "int \<Rightarrow> real \<Rightarrow> real \<Rightarrow> real \<Rightarrow> real \<Rightarrow> HexUtils" where
  \<comment> \<open>the constructor's body; \<open>rnd1\<close>, \<open>rnd2\<close> are the draws of \<open>new PerturbationUtils()\<close>\<close>
  "HexUtils_new gridSize hexSize hexGap rnd1 rnd2 =
     (let effectiveSize = hexSize - hexGap;
          width = effectiveSize * 2;
          height = sqrt 3 * effectiveSize
      in \<lparr>hu_perturbUtils = PerturbationUtils_default rnd1 rnd2,
          hu_gridSize = gridSize,
          hu_hexSize = hexSize,
          hu_hexGap = hexGap,
          hu_effectiveSize = effectiveSize,
          hu_width = width,
          hu_height = height,
          hu_horizDistance = width * 3 / 4,
          hu_vertDistance = height\<rparr>)"

definition angles :: "real list" where
  "angles = [0, 60, 120, 180, 240, 300]"

definition getHexVertex :: "real \<Rightarrow> real \<Rightarrow> nat \<Rightarrow> HexUtils \<Rightarrow> vec3 \<times> HexUtils" where
  \<comment> \<open>called with \<open>i\<close> from 0 to 5 only\<close>
  "getHexVertex centerX centerZ i hu =
     (let angle = (pi / 180) * (angles ! i);
          x = centerX + hu_effectiveSize hu * cos angle;
          z = centerZ + hu_effectiveSize hu * sin angle;
          ((px, pz), pu1) = perturbXZ x z (hu_perturbUtils hu);
          (py, pu2) = getElevation centerX centerZ pu1;
          (perturbedElevation, pu3) = perturbY centerX py centerZ pu2
      in ((px, perturbedElevation, pz), hu\<lparr>hu_perturbUtils := pu3\<rparr>))"

fun hexVerticesLoop :: "real \<Rightarrow> real \<Rightarrow> nat list \<Rightarrow> HexUtils \<Rightarrow> vec3 list \<times> HexUtils" where
  "hexVerticesLoop centerX centerZ [] hu = ([], hu)"
| "hexVerticesLoop centerX centerZ (i # rest) hu =
     (let (vertex, hu1) = getHexVertex centerX centerZ i hu;
          (vertices, hu2) = hexVerticesLoop centerX centerZ rest hu1
      in (vertex # vertices, hu2))"

definition generateHexVertices :: "real \<Rightarrow> real \<Rightarrow> HexUtils \<Rightarrow> vec3 list \<times> HexUtils" where
  "generateHexVertices centerX centerZ hu = hexVerticesLoop centerX centerZ [0, 1, 2, 3, 4, 5] hu"

definition HexUtils_getNeighbor :: "HexCell \<Rightarrow> string \<Rightarrow> HexUtils \<Rightarrow> (HexCell \<times> HexUtils) option" where
  \<comment> \<open>\<open>None\<close>: destructuring the \<open>null\<close> of an unknown direction throws a TypeError\<close>
  "HexUtils_getNeighbor hex direction hu =
     (case HexUtils_getNeighborCoords (hc_gridCoords hex) direction of
        None \<Rightarrow> None
      | Some (neighborCol, neighborRow) \<Rightarrow>
          let colSpacing = hu_width hu * 3 / 4 + hu_hexGap hu;
              rowSpacing = hu_height hu + hu_hexGap hu;
              neighborCenterX = of_int neighborCol * colSpacing;
              neighborCenterZ =
                of_int neighborRow * rowSpacing + of_int (js_mod neighborCol 2) * (rowSpacing / 2);
              (elevation, pu1) = getElevation neighborCenterX neighborCenterZ (hu_perturbUtils hu);
              (perturbedElevation, pu2) = perturbY neighborCenterX elevation neighborCenterZ pu1;
              (vertices, hu1) =
                generateHexVertices neighborCenterX neighborCenterZ (hu\<lparr>hu_perturbUtils := pu2\<rparr>)
          in Some (\<lparr>hc_gridCoords = (neighborCol, neighborRow),
                    hc_center = (neighborCenterX, perturbedElevation, neighborCenterZ),
                    hc_vertices = vertices,
                    hc_elevation = perturbedElevation,
                    hc_biomeIndex = \<lfloor>elevation * 4\<rfloor>,
                    hc_featureIndex = 0\<rparr>, hu1))"

section \<open>Meshes\<close>

text \<open>
  The four output arrays, one entry per vertex (the source's flat arrays hold three
  numbers per position and normal, two per uv) and one entry per triangle of \<open>indices\<close>.
  \<open>positions.length / 3\<close> is then the length of \<open>positions\<close>.
\<close>

record Mesh =
  positions :: "vec3 list"
  indices :: "(nat \<times> nat \<times> nat) list"
  normals :: "vec3 list"
  uvs :: "(real \<times> real) list"

definition vertexAt :: "vec3 list \<Rightarrow> nat \<Rightarrow> vec3 option" where
  \<comment> \<open>\<open>None\<close>: the entry is \<open>undefined\<close>, and reading its coordinates throws a TypeError\<close>
  "vertexAt vs i = (if i < length vs then Some (vs ! i) else None)"

definition capTriangle :: "bool \<Rightarrow> nat \<Rightarrow> nat \<Rightarrow> nat \<times> nat \<times> nat" where
  \<comment> \<open>\<open>reversed\<close>: the counter-clockwise winding of the later variants\<close>
  "capTriangle reversed n i =
     (if i < n - 1 then (if reversed then (0, i + 2, i + 1) else (0, i + 1, i + 2))
      else (if reversed then (0, 1, i + 1) else (0, i + 1, 1)))"

fun capLoop :: "bool \<Rightarrow> nat \<Rightarrow> nat \<Rightarrow> vec3 list \<Rightarrow> Mesh \<Rightarrow> Mesh" where
  "capLoop reversed n i [] m = m"
| "capLoop reversed n i (vertex # rest) m =
     capLoop reversed n (i + 1) rest
       (m\<lparr>positions := positions m @ [vertex],
          normals := normals m @ [(0, 1, 0)],
          uvs := uvs m @ [(0.5 + 0.5 * cos ((pi / 3) * real i), 0.5 + 0.5 * sin ((pi / 3) * real i))],
          indices := indices m @ [capTriangle reversed n i]\<rparr>)"

definition capMesh :: "bool \<Rightarrow> vec3 \<Rightarrow> vec3 list \<Rightarrow> Mesh" where
  "capMesh reversed c vertices =
     capLoop reversed (length vertices) 0 vertices
       \<lparr>positions = [c], indices = [], normals = [(0, 1, 0)], uvs = [(0.5, 0.5)]\<rparr>"

definition pushTriangle :: "bool \<Rightarrow> vec3 \<Rightarrow> vec3 \<times> vec3 \<times> vec3 \<Rightarrow> Mesh \<Rightarrow> Mesh" where
  \<comment> \<open>three new vertices with one normal and the central uv, and the triangle on them\<close>
  "pushTriangle reversed normal t m =
     (let base = length (positions m)
      in m\<lparr>positions := positions m @ [fst t, fst (snd t), snd (snd t)],
           indices := indices m @
             [if reversed then (base, base + 2, base + 1) else (base, base + 1, base + 2)],
           normals := normals m @ [normal, normal, normal],
           uvs := uvs m @ [(0.5, 0.5), (0.5, 0.5), (0.5, 0.5)]\<rparr>)"

section \<open>The grid generator with grid lookup (hex/hexGenerator.js)\<close>

record HexGenerator =
  hg_gridSize :: int
  hg_hexSize :: real
  hg_hexGap :: real
  hg_effectiveSize :: real
  hg_width :: real
  hg_height :: real
  hg_horizDistance :: real
  hg_vertDistance :: real
  hg_noise :: PerlinNoise
  hg_perturbationScale :: real
  hg_noiseScale :: real

definition HexGenerator_new :: "int \<Rightarrow> real \<Rightarrow> real \<Rightarrow> real \<Rightarrow> HexGenerator" where
  "HexGenerator_new gridSize hexSize hexGap rnd =
     (let effectiveSize = hexSize - hexGap;
          width = effectiveSize * 2;
          height = sqrt 3 * effectiveSize
      in \<lparr>hg_gridSize = gridSize,
          hg_hexSize = hexSize,
          hg_hexGap = hexGap,
          hg_effectiveSize = effectiveSize,
          hg_width = width,
          hg_height = height,
          hg_horizDistance = width * 3 / 4,
          hg_vertDistance = height,
          hg_noise = PerlinNoise_new (rnd * 10000),
          hg_perturbationScale = 0.25,
          hg_noiseScale = 0.2\<rparr>)"

datatype construction_error = InvalidParameter

text \<open>
  \<open>new HexGenerator(...)\<close> and \<open>new HexUtils(...)\<close> as expressions that can fail: the
  constructors contain no \<open>throw\<close>, so the object is always returned.
\<close>

definition construct_HexGenerator ::
  "int \<Rightarrow> real \<Rightarrow> real \<Rightarrow> real \<Rightarrow> construction_error + HexGenerator" where
  "construct_HexGenerator gridSize hexSize hexGap rnd = Inr (HexGenerator_new gridSize hexSize hexGap rnd)"

definition construct_HexUtils ::
  "int \<Rightarrow> real \<Rightarrow> real \<Rightarrow> real \<Rightarrow> real \<Rightarrow> construction_error + HexUtils" where
  "construct_HexUtils gridSize hexSize hexGap rnd1 rnd2 =
     Inr (HexUtils_new gridSize hexSize hexGap rnd1 rnd2)"

definition HexGenerator_getNeighbor ::
  "int \<Rightarrow> HexCell \<Rightarrow> string \<Rightarrow> HexCell list \<Rightarrow> HexCell option" where
  \<comment> \<open>\<open>None\<close> is the \<open>null\<close> of the bounds check or the \<open>undefined\<close> of \<open>find\<close>: both falsy\<close>
  "HexGenerator_getNeighbor gridSize hex direction hexGrid =
     (case HexGenerator_getNeighborCoords gridSize (hc_gridCoords hex) direction of
        None \<Rightarrow> None
      | Some neighborCoords \<Rightarrow> find (\<lambda>h. hc_gridCoords h = neighborCoords) hexGrid)"

section \<open>The renderer with grid lookup (HexRenderer)\<close>

fun string_of_nat :: "nat \<Rightarrow> string" where
  "string_of_nat n =
     (if n < 10 then [''0123456789'' ! n]
      else string_of_nat (n div 10) @ [''0123456789'' ! (n mod 10)])"

definition string_of_int :: "int \<Rightarrow> string" where
  \<comment> \<open>a whole number inside a template literal\<close>
  "string_of_int k = (if k < 0 then ''-'' @ string_of_nat (nat (- k)) else string_of_nat (nat k))"

definition coordsId :: "int \<times> int \<Rightarrow> string" where
  "coordsId c = string_of_int (fst c) @ '','' @ string_of_int (snd c)"

definition cornerTriangleId :: "int \<times> int \<Rightarrow> int \<times> int \<Rightarrow> int \<times> int \<Rightarrow> string" where
  \<comment> \<open>the three cell ids, sorted as strings and joined by dashes\<close>
  "cornerTriangleId a b c =
     (let cornerHexIds = sort [coordsId a, coordsId b, coordsId c]
      in cornerHexIds ! 0 @ ''-'' @ cornerHexIds ! 1 @ ''-'' @ cornerHexIds ! 2)"

definition rendererCenter :: "vec3 list \<Rightarrow> vec3 option" where
  \<comment> \<open>the average of the vertices in x and z, the first vertex's height; \<open>None\<close>: no first vertex\<close>
  "rendererCenter vertices =
     (case vertices of
        [] \<Rightarrow> None
      | v0 # _ \<Rightarrow>
          Some (sum_list (map fst vertices) / real (length vertices),
                fst (snd v0),
                sum_list (map (\<lambda>v. snd (snd v)) vertices) / real (length vertices)))"

definition HexRenderer_skirt ::
  "bool \<Rightarrow> HexCell \<Rightarrow> HexCell list \<Rightarrow> string \<Rightarrow> Mesh \<times> string set \<Rightarrow> (Mesh \<times> string set) option" where
  \<comment> \<open>one pass of the loop over \<open>skirtDirections\<close>; the throwaway \<open>new HexGenerator()\<close> has
      \<open>gridSize\<close> at its default 16; \<open>None\<close>: a TypeError\<close>
  "HexRenderer_skirt reversed hex hexGrid direction st =
     (case find (\<lambda>h. hc_gridCoords h = hc_gridCoords hex) hexGrid of
        None \<Rightarrow> None
      | Some thisHex \<Rightarrow>
         (case HexGenerator_getNeighbor 16 thisHex direction hexGrid of
            None \<Rightarrow> Some st
          | Some neighbor \<Rightarrow>
              do {
                neighborDirection \<leftarrow> oppositeDirection direction;
                (v1Index, v2Index) \<leftarrow> edgeVertexMap direction;
                v1 \<leftarrow> vertexAt (hc_vertices hex) v1Index;
                v2 \<leftarrow> vertexAt (hc_vertices hex) v2Index;
                (nv1Index, nv2Index) \<leftarrow> edgeVertexMap neighborDirection;
                nv1 \<leftarrow> vertexAt (hc_vertices neighbor) nv1Index;
                nv2 \<leftarrow> vertexAt (hc_vertices neighbor) nv2Index;
                let m1 = pushTriangle False (0, 0, -1) (v1, v2, nv1) (fst st);
                let m2 = pushTriangle False (0, 0, -1) (v1, nv1, nv2) m1;
                cwDirection \<leftarrow> clockwiseDirection direction;
                (case HexGenerator_getNeighbor 16 thisHex cwDirection hexGrid of
                   None \<Rightarrow> Some (m2, snd st)
                 | Some cwNeighbor \<Rightarrow>
                     let cornerId = cornerTriangleId (hc_gridCoords hex) (hc_gridCoords neighbor)
                                      (hc_gridCoords cwNeighbor)
                     in if cornerId \<in> snd st then Some (m2, snd st)
                        else do {
                          cwNeighborDirection \<leftarrow> oppositeDirection cwDirection;
                          (cwv1Index, cwv2Index) \<leftarrow> edgeVertexMap cwNeighborDirection;
                          cwv2 \<leftarrow> vertexAt (hc_vertices cwNeighbor) cwv2Index;
                          Some (pushTriangle reversed (0, 1, 0) (v2, nv1, cwv2) m2,
                                insert cornerId (snd st))
                        })
              }))"

fun HexRenderer_skirtLoop ::
  "bool \<Rightarrow> HexCell \<Rightarrow> HexCell list \<Rightarrow> string list \<Rightarrow> Mesh \<times> string set \<Rightarrow> (Mesh \<times> string set) option" where
  "HexRenderer_skirtLoop reversed hex hexGrid [] st = Some st"
| "HexRenderer_skirtLoop reversed hex hexGrid (direction # rest) st =
     (case HexRenderer_skirt reversed hex hexGrid direction st of
        None \<Rightarrow> None
      | Some st1 \<Rightarrow> HexRenderer_skirtLoop reversed hex hexGrid rest st1)"

definition HexRenderer_geometryState ::
  "bool \<Rightarrow> HexCell \<Rightarrow> HexCell list \<Rightarrow> (Mesh \<times> string set) option" where
  \<comment> \<open>\<open>createHexGeometry\<close> up to its \<open>return\<close>: the arrays and \<open>processedConnections\<close>, which
      starts empty in every call\<close>
  "HexRenderer_geometryState reversed hex hexGrid =
     (case rendererCenter (hc_vertices hex) of
        None \<Rightarrow> None
      | Some c \<Rightarrow>
          HexRenderer_skirtLoop reversed hex hexGrid skirtDirections
            (capMesh reversed c (hc_vertices hex), {}))"

definition HexRenderer_createHexGeometry :: "bool \<Rightarrow> HexCell \<Rightarrow> HexCell list \<Rightarrow> Mesh option" where
  \<comment> \<open>\<open>reversed = False\<close>: the first renderer; \<open>reversed = True\<close>: the renderer with the terrain
      shader, whose constructor switches the texture indices off\<close>
  "HexRenderer_createHexGeometry reversed hex hexGrid =
     map_option fst (HexRenderer_geometryState reversed hex hexGrid)"

definition HexRenderer_renderGrid :: "bool \<Rightarrow> HexCell list \<Rightarrow> Mesh list option" where
  \<comment> \<open>the geometries of \<open>hexGrid.forEach\<close>, in order; one throw ends the whole build\<close>
  "HexRenderer_renderGrid reversed hexGrid =
     those (map (\<lambda>hex. HexRenderer_createHexGeometry reversed hex hexGrid) hexGrid)"

definition cornerTriangleCount :: "Mesh \<Rightarrow> nat" where
  \<comment> \<open>the corner triangles of a geometry: those off the cap centre (vertex 0) whose first
      vertex carries the upward normal; skirt triangles carry \<open>(0, 0, -1)\<close>\<close>
  "cornerTriangleCount m =
     length (filter (\<lambda>t. fst t \<noteq> 0 \<and> normals m ! fst t = (0, 1, 0)) (indices m))"

definition skirtTriangleCount :: "Mesh \<Rightarrow> nat" where
  "skirtTriangleCount m =
     length (filter (\<lambda>t. normals m ! fst t = (0, 0, -1)) (indices m))"

definition cornersOf :: "(int \<times> int) list \<Rightarrow> int \<times> int \<Rightarrow> (int \<times> int) list list" where
  \<comment> \<open>the 3-cell corners at one cell: the cell, its neighbour in a direction and its neighbour
      in the next direction clockwise, all three in the grid; as sorted triples\<close>
  "cornersOf cells c =
     concat (map (\<lambda>d.
        case clockwiseDirection d of
          None \<Rightarrow> []
        | Some d2 \<Rightarrow>
            (case directionTable c d of
               None \<Rightarrow> []
             | Some n1 \<Rightarrow>
                 (case directionTable c d2 of
                    None \<Rightarrow> []
                  | Some n2 \<Rightarrow>
                      if n1 \<in> set cells \<and> n2 \<in> set cells then [sort [c, n1, n2]] else [])))
        directions)"

definition interiorCorners :: "HexCell list \<Rightarrow> (int \<times> int) list list" where
  \<comment> \<open>the distinct 3-cell corners of a grid\<close>
  "interiorCorners hexGrid =
     (let cells = map hc_gridCoords hexGrid in remdups (concat (map (cornersOf cells) cells)))"

section \<open>The generator with closed-form neighbours (HexGenerator on HexUtils)\<close>

text \<open>
  The later \<open>HexGenerator\<close>, which \<open>app.js\<close> runs: it keeps a \<open>HexUtils\<close> and a
  \<open>PerturbationUtils\<close> of its own, each seeded by its own random draws, and takes every
  neighbour from \<open>HexUtils.getNeighbor\<close>. Its names carry the prefix \<open>HexGeneratorU\<close>.
\<close>

record HexGeneratorU =
  gu_hexUtils :: HexUtils
  gu_perturbUtils :: PerturbationUtils
  gu_gridSize :: int
  gu_hexSize :: real
  gu_hexGap :: real
  gu_effectiveSize :: real
  gu_width :: real
  gu_height :: real

definition HexGeneratorU_new ::
  "int \<Rightarrow> real \<Rightarrow> real \<Rightarrow> real \<Rightarrow> real \<Rightarrow> real \<Rightarrow> real \<Rightarrow> HexGeneratorU" where
  "HexGeneratorU_new gridSize hexSize hexGap rnd1 rnd2 rnd3 rnd4 =
     (let hexUtils = HexUtils_new gridSize hexSize hexGap rnd1 rnd2
      in \<lparr>gu_hexUtils = hexUtils,
          gu_perturbUtils = PerturbationUtils_default rnd3 rnd4,
          gu_gridSize = gridSize,
          gu_hexSize = hexSize,
          gu_hexGap = hexGap,
          gu_effectiveSize = hu_effectiveSize hexUtils,
          gu_width = hu_width hexUtils,
          gu_height = hu_height hexUtils\<rparr>)"

definition HexGeneratorU_skirt ::
  "HexCell \<Rightarrow> string \<Rightarrow> Mesh \<times> HexUtils \<Rightarrow> (Mesh \<times> HexUtils) option" where
  \<comment> \<open>one pass of the loop over \<open>skirtDirections\<close>: two skirt triangles and the corner
      triangle, with no test on the neighbour\<close>
  "HexGeneratorU_skirt hex direction st =
     do {
       (neighborHex, hu1) \<leftarrow> HexUtils_getNeighbor hex direction (snd st);
       neighborDirection \<leftarrow> oppositeDirection direction;
       (v1Index, v2Index) \<leftarrow> edgeVertexMap direction;
       v1 \<leftarrow> vertexAt (hc_vertices hex) v1Index;
       v2 \<leftarrow> vertexAt (hc_vertices hex) v2Index;
       (nv1Index, nv2Index) \<leftarrow> edgeVertexMap neighborDirection;
       nv1 \<leftarrow> vertexAt (hc_vertices neighborHex) nv1Index;
       nv2 \<leftarrow> vertexAt (hc_vertices neighborHex) nv2Index;
       let m1 = pushTriangle False (0, 0, -1) (v1, v2, nv1) (fst st);
       let m2 = pushTriangle False (0, 0, -1) (v1, nv1, nv2) m1;
       cwDirection \<leftarrow> clockwiseDirection direction;
       (cwNeighborHex, hu2) \<leftarrow> HexUtils_getNeighbor hex cwDirection hu1;
       cwNeighborDirection \<leftarrow> oppositeDirection cwDirection;
       (cwv1Index, cwv2Index) \<leftarrow> edgeVertexMap cwNeighborDirection;
       cwv2 \<leftarrow> vertexAt (hc_vertices cwNeighborHex) cwv2Index;
       Some (pushTriangle True (0, 1, 0) (v2, nv1, cwv2) m2, hu2)
     }"

fun HexGeneratorU_skirtLoop ::
  "HexCell \<Rightarrow> string list \<Rightarrow> Mesh \<times> HexUtils \<Rightarrow> (Mesh \<times> HexUtils) option" where
  "HexGeneratorU_skirtLoop hex [] st = Some st"
| "HexGeneratorU_skirtLoop hex (direction # rest) st =
     (case HexGeneratorU_skirt hex direction st of
        None \<Rightarrow> None
      | Some st1 \<Rightarrow> HexGeneratorU_skirtLoop hex rest st1)"

definition HexGeneratorU_createHexGeometry :: "HexCell \<Rightarrow> HexUtils \<Rightarrow> (Mesh \<times> HexUtils) option" where
  \<comment> \<open>the cap centre takes the first vertex's height; \<open>None\<close>: no first vertex\<close>
  "HexGeneratorU_createHexGeometry hex hu =
     (case hc_vertices hex of
        [] \<Rightarrow> None
      | v0 # _ \<Rightarrow>
          HexGeneratorU_skirtLoop hex skirtDirections
            (capMesh True (fst (hc_center hex), fst (snd v0), snd (snd (hc_center hex)))
               (hc_vertices hex), hu))"

definition HexGeneratorU_cell ::
  "int \<times> int \<Rightarrow> HexGeneratorU \<Rightarrow> ((HexCell \<times> Mesh) \<times> HexGeneratorU) option" where
  \<comment> \<open>the body of the two loops of \<open>renderGrid\<close> for the cell \<open>(col, row)\<close>: the cell record
      (the mesh's \<open>userData\<close>) and its geometry\<close>
  "HexGeneratorU_cell c gen =
     (let col = fst c; row = snd c;
          hexWidth = 2 * gu_effectiveSize gen;
          hexHeight = sqrt 3 * gu_effectiveSize gen;
          colSpacing = hexWidth * 3 / 4 + gu_hexGap gen;
          rowSpacing = hexHeight + gu_hexGap gen;
          centerX = of_int col * colSpacing;
          centerZ = of_int row * rowSpacing + of_int (js_mod col 2) * (rowSpacing / 2);
          (elevation, pu1) = getElevation centerX centerZ (gu_perturbUtils gen);
          (perturbedElevation, pu2) = perturbY centerX elevation centerZ pu1;
          (vertices, hu1) = generateHexVertices centerX centerZ (gu_hexUtils gen);
          hex = \<lparr>hc_gridCoords = (col, row),
                 hc_center = (centerX, perturbedElevation, centerZ),
                 hc_vertices = vertices,
                 hc_elevation = perturbedElevation,
                 hc_biomeIndex = getBiomeIndex perturbedElevation 4,
                 hc_featureIndex = 0\<rparr>
      in case HexGeneratorU_createHexGeometry hex hu1 of
           None \<Rightarrow> None
         | Some (mesh, hu2) \<Rightarrow>
             Some ((hex, mesh), gen\<lparr>gu_perturbUtils := pu2, gu_hexUtils := hu2\<rparr>))"

fun HexGeneratorU_cells ::
  "(int \<times> int) list \<Rightarrow> HexGeneratorU \<Rightarrow> ((HexCell \<times> Mesh) list \<times> HexGeneratorU) option" where
  "HexGeneratorU_cells [] gen = Some ([], gen)"
| "HexGeneratorU_cells (c # rest) gen =
     (case HexGeneratorU_cell c gen of
        None \<Rightarrow> None
      | Some (r, gen1) \<Rightarrow>
          (case HexGeneratorU_cells rest gen1 of
             None \<Rightarrow> None
           | Some (rs, gen2) \<Rightarrow> Some (r # rs, gen2)))"

definition gridCells :: "int \<Rightarrow> (int \<times> int) list" where
  \<comment> \<open>the order of the two loops: rows outside, columns inside\<close>
  "gridCells gridSize =
     concat (map (\<lambda>row. map (\<lambda>col. (int col, int row)) [0..<nat gridSize]) [0..<nat gridSize])"

definition HexGeneratorU_renderGrid ::
  "HexGeneratorU \<Rightarrow> ((HexCell \<times> Mesh) list \<times> HexGeneratorU) option" where
  "HexGeneratorU_renderGrid gen = HexGeneratorU_cells (gridCells (gu_gridSize gen)) gen"

section \<open>Observations on meshes and a test grid\<close>

text \<open>Well-formed arrays: one normal per position, every triangle on existing vertices.\<close>

definition meshOk :: "Mesh \<Rightarrow> bool" where
  "meshOk m = (positions m \<noteq> [] \<and> length (normals m) = length (positions m) \<and>
     list_all (\<lambda>t. fst t < length (positions m)) (indices m))"

text \<open>The arrays of a cap: every triangle on the centre, every normal pointing up.\<close>

definition capShape :: "Mesh \<Rightarrow> bool" where
  "capShape m = (positions m \<noteq> [] \<and> length (normals m) = length (positions m) \<and>
     list_all (\<lambda>t. fst t = 0) (indices m) \<and> list_all (\<lambda>n. n = (0, 1, 0)) (normals m))"

text \<open>
  What one pass of the renderer's loop looks up: the corner id of a direction, when the
  neighbour in that direction and the neighbour in the next direction clockwise are both
  found, and whether the neighbour in the direction is found at all.
\<close>

definition cornerIdOf :: "HexCell \<Rightarrow> HexCell list \<Rightarrow> string \<Rightarrow> string option" where
  "cornerIdOf hex hexGrid direction =
     (case find (\<lambda>h. hc_gridCoords h = hc_gridCoords hex) hexGrid of
        None \<Rightarrow> None
      | Some thisHex \<Rightarrow>
          (case HexGenerator_getNeighbor 16 thisHex direction hexGrid of
             None \<Rightarrow> None
           | Some neighbor \<Rightarrow>
               (case clockwiseDirection direction of
                  None \<Rightarrow> None
                | Some cwDirection \<Rightarrow>
                    (case HexGenerator_getNeighbor 16 thisHex cwDirection hexGrid of
                       None \<Rightarrow> None
                     | Some cwNeighbor \<Rightarrow>
                         Some (cornerTriangleId (hc_gridCoords hex) (hc_gridCoords neighbor)
                                 (hc_gridCoords cwNeighbor))))))"

definition hasNeighbor :: "HexCell \<Rightarrow> HexCell list \<Rightarrow> string \<Rightarrow> bool" where
  "hasNeighbor hex hexGrid direction =
     (case find (\<lambda>h. hc_gridCoords h = hc_gridCoords hex) hexGrid of
        None \<Rightarrow> False
      | Some thisHex \<Rightarrow> HexGenerator_getNeighbor 16 thisHex direction hexGrid \<noteq> None)"

text \<open>
  A grid to run the renderer on: the cells of \<open>generateGrid\<close> for the default sizes
  (\<open>hexSize = 1\<close>, \<open>hexGap = 0.1\<close>), laid out row by row, at elevation 0 and without
  the noise.
\<close>

definition flatHex :: "int \<times> int \<Rightarrow> HexCell" where
  "flatHex c =
     (let centerX = of_int (fst c) * 1.45;
          rowSpacing = sqrt 3 * 0.9 + 0.1;
          centerZ = of_int (snd c) * rowSpacing + of_int (js_mod (fst c) 2) * (rowSpacing / 2)
      in \<lparr>hc_gridCoords = c,
          hc_center = (centerX, 0, centerZ),
          hc_vertices = map (\<lambda>a. (centerX + 0.9 * cos ((pi / 180) * a), 0, centerZ + 0.9 * sin ((pi / 180) * a))) angles,
          hc_elevation = 0, hc_biomeIndex = 0, hc_featureIndex = 0\<rparr>)"

definition flatGrid :: "int \<Rightarrow> HexCell list" where
  "flatGrid gridSize = map flatHex (gridCells gridSize)"

section \<open>Values and invariants of the pipeline\<close>

text \<open>
  The state of a \<open>PerturbationUtils\<close> is the two caches of its noise instances. \<open>pu_ok\<close>
  says both caches hold computed values only; \<open>pu_fresh\<close> is the same instance with the
  caches emptied, and the three functions below are what an instance returns.
\<close>

definition pu_ok :: "PerturbationUtils \<Rightarrow> bool" where
  "pu_ok pu = (cache_ok (pu_noise pu) \<and> cache_ok (pu_secondaryNoise pu))"

definition pu_fresh :: "PerturbationUtils \<Rightarrow> PerturbationUtils" where
  "pu_fresh pu =
     pu\<lparr>pu_noise := PerlinNoise_new (pn_seed (pu_noise pu)),
        pu_secondaryNoise := PerlinNoise_new (pn_seed (pu_secondaryNoise pu))\<rparr>"

definition elevationOf :: "PerturbationUtils \<Rightarrow> real \<Rightarrow> real \<Rightarrow> real" where
  "elevationOf q x z = fst (getElevation x z q)"

definition perturbYOf :: "PerturbationUtils \<Rightarrow> real \<Rightarrow> real \<Rightarrow> real \<Rightarrow> real" where
  "perturbYOf q x y z = fst (perturbY x y z q)"

definition perturbXZOf :: "PerturbationUtils \<Rightarrow> real \<Rightarrow> real \<Rightarrow> real \<times> real" where
  "perturbXZOf q x z = fst (perturbXZ x z q)"

text \<open>The same for \<open>HexUtils\<close>, whose only state is its \<open>PerturbationUtils\<close>.\<close>

definition hu_ok :: "HexUtils \<Rightarrow> bool" where
  "hu_ok hu = pu_ok (hu_perturbUtils hu)"

definition hu_fresh :: "HexUtils \<Rightarrow> HexUtils" where
  "hu_fresh hu = hu\<lparr>hu_perturbUtils := pu_fresh (hu_perturbUtils hu)\<rparr>"

text \<open>
  The height of a vertex, the perturbed elevation of a centre as \<open>HexUtils.getNeighbor\<close>
  computes it (\<open>perturbY\<close> of \<open>getElevation\<close>, both at the centre), the six vertices an
  instance returns for a centre, and the world position of a cell's centre.
\<close>

definition height :: "vec3 \<Rightarrow> real" where
  "height v = fst (snd v)"

definition centerHeight :: "HexUtils \<Rightarrow> real \<Rightarrow> real \<Rightarrow> real" where
  "centerHeight hu centerX centerZ =
     (let (elevation, pu1) = getElevation centerX centerZ (hu_perturbUtils hu)
      in fst (perturbY centerX elevation centerZ pu1))"

definition verticesOf :: "HexUtils \<Rightarrow> real \<Rightarrow> real \<Rightarrow> vec3 list" where
  "verticesOf q centerX centerZ = fst (generateHexVertices centerX centerZ q)"

definition centerOf :: "HexUtils \<Rightarrow> int \<times> int \<Rightarrow> real \<times> real" where
  "centerOf hu c =
     (let colSpacing = hu_width hu * 3 / 4 + hu_hexGap hu;
          rowSpacing = hu_height hu + hu_hexGap hu
      in (of_int (fst c) * colSpacing,
          of_int (snd c) * rowSpacing + of_int (js_mod (fst c) 2) * (rowSpacing / 2)))"

text \<open>The default parameters of \<open>new PerturbationUtils()\<close> that the elevation reads.\<close>

definition defaultParams :: "PerturbationUtils \<Rightarrow> bool" where
  "defaultParams pu =
     (pu_elevationNoiseScale pu = 0.025 \<and> pu_elevationScale pu = 12 \<and>
      pu_elevationPerturbationScale pu = 3 \<and> pu_baseHeightCm pu = 5 \<and>
      pu_ridgeInfluence pu = 0.4 \<and> pu_valleyDepth pu = 0.6)"

text \<open>
  The rim of the neighbour of a cell in a direction, in closed form, and the 27 positions
  and 9 triangles that the three passes of the skirt loop append to a cap of 7 positions.
\<close>

definition nbrVertices :: "HexUtils \<Rightarrow> int \<times> int \<Rightarrow> string \<Rightarrow> vec3 list" where
  "nbrVertices hu c d =
     (case HexUtils_getNeighborCoords c d of
        None \<Rightarrow> []
      | Some c' \<Rightarrow> verticesOf (hu_fresh hu) (fst (centerOf hu c')) (snd (centerOf hu c')))"

definition skirtPositions :: "HexUtils \<Rightarrow> int \<times> int \<Rightarrow> vec3 list \<Rightarrow> vec3 list" where
  "skirtPositions hu c V =
     (let SE = nbrVertices hu c ''SE''; S = nbrVertices hu c ''S'';
          SW = nbrVertices hu c ''SW''; NW = nbrVertices hu c ''NW''
      in [V ! 0, V ! 1, SE ! 3, V ! 0, SE ! 3, SE ! 4, V ! 1, SE ! 3, S ! 5,
          V ! 1, V ! 2, S ! 4, V ! 1, S ! 4, S ! 5, V ! 2, S ! 4, SW ! 0,
          V ! 2, V ! 3, SW ! 5, V ! 2, SW ! 5, SW ! 0, V ! 3, SW ! 5, NW ! 1])"

definition skirtIndices :: "(nat \<times> nat \<times> nat) list" where
  "skirtIndices =
     [(7, 8, 9), (10, 11, 12), (13, 15, 14),
      (16, 17, 18), (19, 20, 21), (22, 24, 23),
      (25, 26, 27), (28, 29, 30), (31, 33, 32)]"

text \<open>
  The generator's state: the caches of its \<open>HexUtils\<close> and of its own
  \<open>PerturbationUtils\<close>; its metrics agree with those of its \<open>HexUtils\<close>. \<open>cellSpec\<close>
  describes what \<open>renderGrid\<close> produces for one cell.
\<close>

definition gen_ok :: "HexGeneratorU \<Rightarrow> bool" where
  "gen_ok gen =
     (hu_ok (gu_hexUtils gen) \<and> pu_ok (gu_perturbUtils gen) \<and>
      gu_effectiveSize gen = hu_effectiveSize (gu_hexUtils gen) \<and>
      gu_hexGap gen = hu_hexGap (gu_hexUtils gen) \<and>
      hu_width (gu_hexUtils gen) = hu_effectiveSize (gu_hexUtils gen) * 2 \<and>
      hu_height (gu_hexUtils gen) = sqrt 3 * hu_effectiveSize (gu_hexUtils gen))"

definition gen_fresh :: "HexGeneratorU \<Rightarrow> HexGeneratorU" where
  "gen_fresh gen =
     gen\<lparr>gu_hexUtils := hu_fresh (gu_hexUtils gen),
         gu_perturbUtils := pu_fresh (gu_perturbUtils gen)\<rparr>"

definition cellSpec :: "HexGeneratorU \<Rightarrow> int \<times> int \<Rightarrow> HexCell \<times> Mesh \<Rightarrow> bool" where
  "cellSpec G c r =
     (let hu = gu_hexUtils G; P = gu_perturbUtils G;
          cx = fst (centerOf hu c); cz = snd (centerOf hu c);
          V = verticesOf hu cx cz;
          pe = perturbYOf P cx (elevationOf P cx cz) cz
      in fst r = \<lparr>hc_gridCoords = c, hc_center = (cx, pe, cz), hc_vertices = V,
                   hc_elevation = pe, hc_biomeIndex = getBiomeIndex pe 4, hc_featureIndex = 0\<rparr> \<and>
         positions (snd r) = (cx, height (V ! 0), cz) # V @ skirtPositions hu c V \<and>
         drop 6 (indices (snd r)) = skirtIndices \<and> length (indices (snd r)) = 15 \<and>
         skirtTriangleCount (snd r) = 6 \<and> cornerTriangleCount (snd r) = 3)"

text \<open>Skirt triangles, corner triangles and positions of a geometry, and a cell's geometry.\<close>

definition meshCounts :: "Mesh \<Rightarrow> nat \<times> nat \<times> nat" where
  "meshCounts m = (skirtTriangleCount m, cornerTriangleCount m, length (positions m))"

definition HexGeneratorU_cellMesh :: "int \<times> int \<Rightarrow> HexGeneratorU \<Rightarrow> Mesh option" where
  "HexGeneratorU_cellMesh c gen = map_option (\<lambda>r. snd (fst r)) (HexGeneratorU_cell c gen)"

section \<open>Direction algebra\<close>

lemma directions_cases:
  "d \<in> set directions \<Longrightarrow>
     d = ''N'' \<or> d = ''NE'' \<or> d = ''SE'' \<or> d = ''S'' \<or> d = ''SW'' \<or> d = ''NW''"
  by (simp add: directions_def)

lemma js_mod_2_nonneg: "0 \<le> c \<Longrightarrow> js_mod c 2 = c mod 2"
  by (cases "c = 0") (simp_all add: js_mod_def)

lemma js_mod_2_succ: "0 \<le> c \<Longrightarrow> (js_mod (c + 1) 2 = 1) = (js_mod c 2 \<noteq> 1)"
proof -
  assume h: "0 \<le> c"
  then have "js_mod (c + 1) 2 = (c + 1) mod 2" "js_mod c 2 = c mod 2"
    by (simp_all add: js_mod_2_nonneg)
  then show ?thesis by presburger
qed

lemma js_mod_2_pred: "1 \<le> c \<Longrightarrow> (js_mod (c - 1) 2 = 1) = (js_mod c 2 \<noteq> 1)"
  using js_mod_2_succ [of "c - 1"] by simp

lemma roundToDouble_exact: "\<bar>z\<bar> \<le> 2 ^ 53 \<Longrightarrow> roundToDouble z = z"
  by (simp add: roundToDouble_def)

lemma js_plus_exact: "\<bar>a + b\<bar> \<le> 2 ^ 53 \<Longrightarrow> js_plus a b = a + b"
  by (simp add: js_plus_def roundToDouble_exact)

lemma js_minus_exact: "\<bar>a - b\<bar> \<le> 2 ^ 53 \<Longrightarrow> js_minus a b = a - b"
  by (simp add: js_minus_def roundToDouble_exact)

lemma bitlen_54: "bitlen 9007199254740993 = 54"
  by code_simp

lemma roundToDouble_2_53_1: "roundToDouble 9007199254740993 = 9007199254740992"
  by (simp add: roundToDouble_def bitlen_54 Let_def)

lemma js_plus_2_53_1: "js_plus 9007199254740992 1 = 9007199254740992"
  by (simp add: js_plus_def roundToDouble_2_53_1)

lemma directionTable_exact:
  assumes "\<bar>col\<bar> < 2 ^ 53" "\<bar>row\<bar> < 2 ^ 53"
  shows "directionTable (col, row) direction =
     (let isOddColumn = (js_mod col 2 = 1)
      in if direction = ''N'' then Some (col, row - 1)
         else if direction = ''NE'' then Some (col + 1, if isOddColumn then row else row - 1)
         else if direction = ''SE'' then Some (col + 1, if isOddColumn then row + 1 else row)
         else if direction = ''S'' then Some (col, row + 1)
         else if direction = ''SW'' then Some (col - 1, if isOddColumn then row + 1 else row)
         else if direction = ''NW'' then Some (col - 1, if isOddColumn then row else row - 1)
         else None)"
proof -
  have "js_plus col 1 = col + 1" "js_minus col 1 = col - 1"
       "js_plus row 1 = row + 1" "js_minus row 1 = row - 1"
    using assms by (simp_all add: js_plus_exact js_minus_exact)
  then show ?thesis by (simp add: directionTable_def Let_def)
qed

lemma round_trip_N:
  assumes s: "\<bar>col\<bar> < 2 ^ 53" "\<bar>row\<bar> < 2 ^ 53" "\<bar>fst c'\<bar> < 2 ^ 53" "\<bar>snd c'\<bar> < 2 ^ 53"
    and n: "directionTable (col, row) ''N'' = Some c'"
  shows "directionTable c' ''S'' = Some (col, row)"
  using n s directionTable_exact [OF s(3,4), of "''S''"]
  by (auto simp: directionTable_exact [OF s(1,2)] Let_def)

lemma round_trip_S:
  assumes s: "\<bar>col\<bar> < 2 ^ 53" "\<bar>row\<bar> < 2 ^ 53" "\<bar>fst c'\<bar> < 2 ^ 53" "\<bar>snd c'\<bar> < 2 ^ 53"
    and n: "directionTable (col, row) ''S'' = Some c'"
  shows "directionTable c' ''N'' = Some (col, row)"
  using n s directionTable_exact [OF s(3,4), of "''N''"]
  by (auto simp: directionTable_exact [OF s(1,2)] Let_def)

lemma round_trip_NE:
  assumes s: "\<bar>col\<bar> < 2 ^ 53" "\<bar>row\<bar> < 2 ^ 53" "\<bar>fst c'\<bar> < 2 ^ 53" "\<bar>snd c'\<bar> < 2 ^ 53"
    and "0 \<le> col" and n: "directionTable (col, row) ''NE'' = Some c'"
  shows "directionTable c' ''SW'' = Some (col, row)"
  using js_mod_2_succ [OF assms(5)] n s directionTable_exact [OF s(3,4), of "''SW''"]
  by (auto simp: directionTable_exact [OF s(1,2)] Let_def)

lemma round_trip_SE:
  assumes s: "\<bar>col\<bar> < 2 ^ 53" "\<bar>row\<bar> < 2 ^ 53" "\<bar>fst c'\<bar> < 2 ^ 53" "\<bar>snd c'\<bar> < 2 ^ 53"
    and "0 \<le> col" and n: "directionTable (col, row) ''SE'' = Some c'"
  shows "directionTable c' ''NW'' = Some (col, row)"
  using js_mod_2_succ [OF assms(5)] n s directionTable_exact [OF s(3,4), of "''NW''"]
  by (auto simp: directionTable_exact [OF s(1,2)] Let_def)

lemma round_trip_SW:
  assumes s: "\<bar>col\<bar> < 2 ^ 53" "\<bar>row\<bar> < 2 ^ 53" "\<bar>fst c'\<bar> < 2 ^ 53" "\<bar>snd c'\<bar> < 2 ^ 53"
    and n: "directionTable (col, row) ''SW'' = Some c'" and c': "0 \<le> fst c'"
  shows "directionTable c' ''NE'' = Some (col, row)"
proof -
  from n c' have "1 \<le> col"
    by (auto simp: directionTable_exact [OF s(1,2)] Let_def)
  from js_mod_2_pred [OF this] n s directionTable_exact [OF s(3,4), of "''NE''"] show ?thesis
    by (auto simp: directionTable_exact [OF s(1,2)] Let_def)
qed

lemma round_trip_NW:
  assumes s: "\<bar>col\<bar> < 2 ^ 53" "\<bar>row\<bar> < 2 ^ 53" "\<bar>fst c'\<bar> < 2 ^ 53" "\<bar>snd c'\<bar> < 2 ^ 53"
    and n: "directionTable (col, row) ''NW'' = Some c'" and c': "0 \<le> fst c'"
  shows "directionTable c' ''SE'' = Some (col, row)"
proof -
  from n c' have "1 \<le> col"
    by (auto simp: directionTable_exact [OF s(1,2)] Let_def)
  from js_mod_2_pred [OF this] n s directionTable_exact [OF s(3,4), of "''SE''"] show ?thesis
    by (auto simp: directionTable_exact [OF s(1,2)] Let_def)
qed

lemma directionTable_round_trip:
  assumes d: "d \<in> set directions"
    and c: "0 \<le> fst c" "fst c < 2 ^ 53" "0 \<le> snd c" "snd c < 2 ^ 53"
    and n: "directionTable c d = Some c'"
    and c': "0 \<le> fst c'" "fst c' < 2 ^ 53" "0 \<le> snd c'" "snd c' < 2 ^ 53"
    and o: "oppositeDirection d = Some d'"
  shows "directionTable c' d' = Some c"
proof -
  obtain col row where cr: "c = (col, row)" by (cases c)
  have col: "0 \<le> col" using c cr by simp
  have s: "\<bar>col\<bar> < 2 ^ 53" "\<bar>row\<bar> < 2 ^ 53" "\<bar>fst c'\<bar> < 2 ^ 53" "\<bar>snd c'\<bar> < 2 ^ 53"
    using c c' cr by simp_all
  have n': "directionTable (col, row) d = Some c'" using n cr by simp
  consider "d = ''N''" | "d = ''NE''" | "d = ''SE''" | "d = ''S''" | "d = ''SW''" | "d = ''NW''"
    using directions_cases [OF d] by blast
  then have "directionTable c' d' = Some (col, row)"
  proof cases
    case 1
    then have "d' = ''S''" using o by (simp add: oppositeDirection_def)
    with 1 n' show ?thesis by (simp add: round_trip_N [OF s])
  next
    case 2
    then have "d' = ''SW''" using o by (simp add: oppositeDirection_def)
    with 2 n' col show ?thesis by (simp add: round_trip_NE [OF s])
  next
    case 3
    then have "d' = ''NW''" using o by (simp add: oppositeDirection_def)
    with 3 n' col show ?thesis by (simp add: round_trip_SE [OF s])
  next
    case 4
    then have "d' = ''N''" using o by (simp add: oppositeDirection_def)
    with 4 n' show ?thesis by (simp add: round_trip_S [OF s])
  next
    case 5
    then have "d' = ''NE''" using o by (simp add: oppositeDirection_def)
    with 5 n' c'(1) show ?thesis by (simp add: round_trip_SW [OF s])
  next
    case 6
    then have "d' = ''SE''" using o by (simp add: oppositeDirection_def)
    with 6 n' c'(1) show ?thesis by (simp add: round_trip_NW [OF s])
  qed
  then show ?thesis using cr by simp
qed

section \<open>The renderer's loop\<close>

lemma meshOk_push: "meshOk m \<Longrightarrow> meshOk (pushTriangle r n t m)"
  by (auto simp: meshOk_def pushTriangle_def Let_def list_all_iff)

lemma filter_cong_set: "(\<And>x. x \<in> set xs \<Longrightarrow> P x = Q x) \<Longrightarrow> filter P xs = filter Q xs"
  by (induction xs) auto

lemma corner_count_push:
  assumes "meshOk m"
  shows "cornerTriangleCount (pushTriangle r n t m) =
         cornerTriangleCount m + (if n = (0, 1, 0) then 1 else 0)"
proof -
  let ?b = "length (positions m)"
  have old: "filter (\<lambda>t. fst t \<noteq> 0 \<and> (normals m @ [n, n, n]) ! fst t = (0, 1, 0)) (indices m) =
             filter (\<lambda>t. fst t \<noteq> 0 \<and> normals m ! fst t = (0, 1, 0)) (indices m)"
    using assms by (intro filter_cong_set) (auto simp: meshOk_def list_all_iff nth_append)
  have new: "(normals m @ [n, n, n]) ! ?b = n"
    using assms by (simp add: meshOk_def nth_append)
  have b0: "?b \<noteq> 0" using assms by (simp add: meshOk_def)
  show ?thesis
    using old new b0
    by (cases "n = (0, 1, 0)") (simp_all add: cornerTriangleCount_def pushTriangle_def Let_def)
qed

lemma skirt_count_push:
  assumes "meshOk m"
  shows "skirtTriangleCount (pushTriangle r n t m) =
         skirtTriangleCount m + (if n = (0, 0, -1) then 1 else 0)"
proof -
  let ?b = "length (positions m)"
  have old: "filter (\<lambda>t. (normals m @ [n, n, n]) ! fst t = (0, 0, -1)) (indices m) =
             filter (\<lambda>t. normals m ! fst t = (0, 0, -1)) (indices m)"
    using assms by (intro filter_cong_set) (auto simp: meshOk_def list_all_iff nth_append)
  have new: "(normals m @ [n, n, n]) ! ?b = n"
    using assms by (simp add: meshOk_def nth_append)
  show ?thesis
    using old new
    by (cases "n = (0, 0, -1)") (simp_all add: skirtTriangleCount_def pushTriangle_def Let_def)
qed

lemma capLoop_shape: "capShape m \<Longrightarrow> capShape (capLoop r n i vs m)"
  by (induction vs arbitrary: i m) (auto simp: capShape_def capTriangle_def)

lemma capLoop_lengths:
  "length (positions (capLoop r n i vs m)) = length (positions m) + length vs \<and>
   length (indices (capLoop r n i vs m)) = length (indices m) + length vs"
  by (induction vs arbitrary: i m) auto

lemma capMesh_shape: "capShape (capMesh r c vs)"
  unfolding capMesh_def by (rule capLoop_shape) (simp add: capShape_def)

lemma capShape_counts:
  assumes "capShape m"
  shows "meshOk m" and "cornerTriangleCount m = 0" and "skirtTriangleCount m = 0"
proof -
  show "meshOk m" using assms by (auto simp: capShape_def meshOk_def list_all_iff)
  show "cornerTriangleCount m = 0"
    using assms by (auto simp: capShape_def cornerTriangleCount_def list_all_iff filter_empty_conv)
  have n0: "normals m ! 0 = (0, 1, 0)"
    using assms by (cases "normals m") (auto simp: capShape_def)
  have "normals m ! fst t \<noteq> (0, 0, -1)" if "t \<in> set (indices m)" for t
  proof -
    have "fst t = 0" using that assms by (auto simp: capShape_def list_all_iff)
    then show ?thesis using n0 by simp
  qed
  then show "skirtTriangleCount m = 0"
    by (auto simp: skirtTriangleCount_def filter_empty_conv)
qed

lemma getNeighbor_in_grid:
  "HexGenerator_getNeighbor g h d hexGrid = Some nb \<Longrightarrow> nb \<in> set hexGrid"
  by (auto simp: HexGenerator_getNeighbor_def find_Some_iff split: option.splits)

lemma skirtDirections_cases:
  "d \<in> set skirtDirections \<Longrightarrow> d = ''SE'' \<or> d = ''S'' \<or> d = ''SW''"
  by (simp add: skirtDirections_def)

lemma HexRenderer_skirt_step_core:
  assumes own: "find (\<lambda>h. hc_gridCoords h = hc_gridCoords hex) hexGrid = Some thisHex"
    and t: "oppositeDirection d = Some o1" "edgeVertexMap d = Some (a, b)" "a < 6" "b < 6"
       "edgeVertexMap o1 = Some (c, e)" "c < 6" "e < 6"
       "clockwiseDirection d = Some cw" "oppositeDirection cw = Some o2"
       "edgeVertexMap o2 = Some (f, g)" "g < 6"
    and six: "length (hc_vertices hex) = 6"
    and grid6: "\<forall>h \<in> set hexGrid. length (hc_vertices h) = 6"
    and ok: "meshOk m"
  shows "\<exists>m'. HexRenderer_skirt r hex hexGrid d (m, p) =
                 Some (m', p \<union> set_option (cornerIdOf hex hexGrid d)) \<and>
               meshOk m' \<and>
               cornerTriangleCount m' =
                 cornerTriangleCount m + card (set_option (cornerIdOf hex hexGrid d) - p) \<and>
               skirtTriangleCount m' =
                 skirtTriangleCount m + (if hasNeighbor hex hexGrid d then 2 else 0) \<and>
               set (positions m') \<subseteq>
                 set (positions m) \<union> set (hc_vertices hex) \<union> (\<Union>h \<in> set hexGrid. set (hc_vertices h))"
proof -
  show ?thesis
  proof (cases "HexGenerator_getNeighbor 16 thisHex d hexGrid")
    case None
    then show ?thesis
      using own ok by (auto simp: HexRenderer_skirt_def cornerIdOf_def hasNeighbor_def)
  next
    case (Some nb)
    let ?m2 = "pushTriangle False (0, 0, -1)
                 (hc_vertices hex ! a, hc_vertices nb ! c, hc_vertices nb ! e)
                 (pushTriangle False (0, 0, -1)
                    (hc_vertices hex ! a, hc_vertices hex ! b, hc_vertices nb ! c) m)"
    from Some have nbg: "nb \<in> set hexGrid" by (rule getNeighbor_in_grid)
    then have nb6: "length (hc_vertices nb) = 6"
      using grid6 by blast
    have hv: "hc_vertices hex ! a \<in> set (hc_vertices hex)" "hc_vertices hex ! b \<in> set (hc_vertices hex)"
      using six t by simp_all
    have nv: "hc_vertices nb ! c \<in> (\<Union>h \<in> set hexGrid. set (hc_vertices h))"
             "hc_vertices nb ! e \<in> (\<Union>h \<in> set hexGrid. set (hc_vertices h))"
      using nb6 nbg t by (auto intro!: bexI [of _ nb])
    have p2: "set (positions ?m2) \<subseteq>
                set (positions m) \<union> set (hc_vertices hex) \<union> (\<Union>h \<in> set hexGrid. set (hc_vertices h))"
      using hv nv by (auto simp: pushTriangle_def Let_def)
    have ok2: "meshOk ?m2" using ok by (simp add: meshOk_push)
    have c2: "cornerTriangleCount ?m2 = cornerTriangleCount m"
      using ok by (simp add: corner_count_push meshOk_push)
    have s2: "skirtTriangleCount ?m2 = skirtTriangleCount m + 2"
      using ok by (simp add: skirt_count_push meshOk_push)
    show ?thesis
    proof (cases "HexGenerator_getNeighbor 16 thisHex cw hexGrid")
      case None
      then show ?thesis
        using own Some t six nb6 ok2 c2 s2 p2
        by (simp add: HexRenderer_skirt_def cornerIdOf_def hasNeighbor_def vertexAt_def)
    next
      case cwn: (Some cwNb)
      then have cwg: "cwNb \<in> set hexGrid" by (rule getNeighbor_in_grid)
      then have cw6: "length (hc_vertices cwNb) = 6"
        using grid6 by blast
      have cv: "hc_vertices cwNb ! g \<in> (\<Union>h \<in> set hexGrid. set (hc_vertices h))"
        using cw6 cwg t by (auto intro!: bexI [of _ cwNb])
      let ?id = "cornerTriangleId (hc_gridCoords hex) (hc_gridCoords nb) (hc_gridCoords cwNb)"
      have cid: "cornerIdOf hex hexGrid d = Some ?id"
        using own Some cwn t by (simp add: cornerIdOf_def)
      show ?thesis
      proof (cases "?id \<in> p")
        case True
        then have "p \<union> {?id} = p" "{?id} - p = {}" by auto
        then show ?thesis
          using own Some cwn t six nb6 cw6 ok2 c2 s2 p2 True cid
          by (simp add: HexRenderer_skirt_def hasNeighbor_def vertexAt_def)
      next
        case False
        then have e: "{?id} - p = {?id}" by auto
        let ?m3 = "pushTriangle r (0, 1, 0)
                     (hc_vertices hex ! b, hc_vertices nb ! c, hc_vertices cwNb ! g) ?m2"
        have ok3: "meshOk ?m3" using ok2 by (rule meshOk_push)
        have c3: "cornerTriangleCount ?m3 = cornerTriangleCount m + 1"
          using ok2 c2 by (simp add: corner_count_push)
        have s3: "skirtTriangleCount ?m3 = skirtTriangleCount m + 2"
          using ok2 s2 by (simp add: skirt_count_push)
        have p3: "set (positions ?m3) \<subseteq>
                    set (positions m) \<union> set (hc_vertices hex) \<union> (\<Union>h \<in> set hexGrid. set (hc_vertices h))"
          using p2 hv nv cv by (auto simp: pushTriangle_def Let_def)
        show ?thesis
          using own Some cwn t six nb6 cw6 ok3 c3 s3 p3 False cid e
          by (simp add: HexRenderer_skirt_def hasNeighbor_def vertexAt_def)
      qed
    qed
  qed
qed

lemma HexRenderer_skirt_step:
  assumes own: "find (\<lambda>h. hc_gridCoords h = hc_gridCoords hex) hexGrid = Some thisHex"
    and d: "d \<in> set skirtDirections"
    and six: "length (hc_vertices hex) = 6"
    and grid6: "\<forall>h \<in> set hexGrid. length (hc_vertices h) = 6"
    and ok: "meshOk m"
  shows "\<exists>m'. HexRenderer_skirt r hex hexGrid d (m, p) =
                 Some (m', p \<union> set_option (cornerIdOf hex hexGrid d)) \<and>
               meshOk m' \<and>
               cornerTriangleCount m' =
                 cornerTriangleCount m + card (set_option (cornerIdOf hex hexGrid d) - p) \<and>
               skirtTriangleCount m' =
                 skirtTriangleCount m + (if hasNeighbor hex hexGrid d then 2 else 0) \<and>
               set (positions m') \<subseteq>
                 set (positions m) \<union> set (hc_vertices hex) \<union> (\<Union>h \<in> set hexGrid. set (hc_vertices h))"
proof -
  consider "d = ''SE''" | "d = ''S''" | "d = ''SW''"
    using skirtDirections_cases [OF d] by blast
  then show ?thesis
  proof cases
    case 1
    show ?thesis
      unfolding 1
      by (rule HexRenderer_skirt_step_core [OF own _ _ _ _ _ _ _ _ _ _ _ six grid6 ok,
            where ?o1.0 = "''NW''" and a = 0 and b = 1 and c = 3 and e = 4
              and cw = "''S''" and ?o2.0 = "''N''" and f = 4 and g = 5])
         (simp_all add: oppositeDirection_def edgeVertexMap_def clockwiseDirection_def)
  next
    case 2
    show ?thesis
      unfolding 2
      by (rule HexRenderer_skirt_step_core [OF own _ _ _ _ _ _ _ _ _ _ _ six grid6 ok,
            where ?o1.0 = "''N''" and a = 1 and b = 2 and c = 4 and e = 5
              and cw = "''SW''" and ?o2.0 = "''NE''" and f = 5 and g = 0])
         (simp_all add: oppositeDirection_def edgeVertexMap_def clockwiseDirection_def)
  next
    case 3
    show ?thesis
      unfolding 3
      by (rule HexRenderer_skirt_step_core [OF own _ _ _ _ _ _ _ _ _ _ _ six grid6 ok,
            where ?o1.0 = "''NE''" and a = 2 and b = 3 and c = 5 and e = 0
              and cw = "''NW''" and ?o2.0 = "''SE''" and f = 0 and g = 1])
         (simp_all add: oppositeDirection_def edgeVertexMap_def clockwiseDirection_def)
  qed
qed

lemma HexRenderer_skirtLoop_result:
  assumes own: "find (\<lambda>h. hc_gridCoords h = hc_gridCoords hex) hexGrid = Some thisHex"
    and six: "length (hc_vertices hex) = 6"
    and grid6: "\<forall>h \<in> set hexGrid. length (hc_vertices h) = 6"
  shows "set ds \<subseteq> set skirtDirections \<Longrightarrow> meshOk m \<Longrightarrow> finite p \<Longrightarrow>
         \<exists>m'. HexRenderer_skirtLoop r hex hexGrid ds (m, p) =
                 Some (m', p \<union> (\<Union>d \<in> set ds. set_option (cornerIdOf hex hexGrid d))) \<and>
               meshOk m' \<and>
               cornerTriangleCount m' =
                 cornerTriangleCount m + card ((\<Union>d \<in> set ds. set_option (cornerIdOf hex hexGrid d)) - p) \<and>
               skirtTriangleCount m' =
                 skirtTriangleCount m + 2 * length (filter (hasNeighbor hex hexGrid) ds) \<and>
               set (positions m') \<subseteq>
                 set (positions m) \<union> set (hc_vertices hex) \<union> (\<Union>h \<in> set hexGrid. set (hc_vertices h))"
proof (induction ds arbitrary: m p)
  case Nil
  then show ?case by auto
next
  case (Cons d ds)
  let ?A = "set_option (cornerIdOf hex hexGrid d)"
  let ?R = "\<Union>d \<in> set ds. set_option (cornerIdOf hex hexGrid d)"
  let ?V = "set (hc_vertices hex) \<union> (\<Union>h \<in> set hexGrid. set (hc_vertices h))"
  have d: "d \<in> set skirtDirections" and ds: "set ds \<subseteq> set skirtDirections"
    using Cons.prems(1) by simp_all
  from HexRenderer_skirt_step [OF own d six grid6 Cons.prems(2), of r p]
  obtain m1 where
    s1: "HexRenderer_skirt r hex hexGrid d (m, p) = Some (m1, p \<union> ?A)" and
    ok1: "meshOk m1" and
    c1: "cornerTriangleCount m1 = cornerTriangleCount m + card (?A - p)" and
    k1: "skirtTriangleCount m1 = skirtTriangleCount m + (if hasNeighbor hex hexGrid d then 2 else 0)" and
    p1: "set (positions m1) \<subseteq> set (positions m) \<union> ?V"
    by blast
  have fin1: "finite (p \<union> ?A)" using Cons.prems(3) by simp
  from Cons.IH [OF ds ok1 fin1]
  obtain m2 where
    s2: "HexRenderer_skirtLoop r hex hexGrid ds (m1, p \<union> ?A) = Some (m2, p \<union> ?A \<union> ?R)" and
    ok2: "meshOk m2" and
    c2: "cornerTriangleCount m2 = cornerTriangleCount m1 + card (?R - (p \<union> ?A))" and
    k2: "skirtTriangleCount m2 = skirtTriangleCount m1 + 2 * length (filter (hasNeighbor hex hexGrid) ds)" and
    p2: "set (positions m2) \<subseteq> set (positions m1) \<union> ?V"
    by blast
  have finA: "finite ?A" by simp
  have finR: "finite ?R" by simp
  have "card ((?A \<union> ?R) - p) = card ((?A - p) \<union> (?R - (p \<union> ?A)))"
    by (rule arg_cong [where f = card]) auto
  also have "\<dots> = card (?A - p) + card (?R - (p \<union> ?A))"
    using finA finR by (intro card_Un_disjoint) auto
  finally have cc: "card ((?A \<union> ?R) - p) = card (?A - p) + card (?R - (p \<union> ?A))" .
  have u: "(\<Union>d \<in> set (d # ds). set_option (cornerIdOf hex hexGrid d)) = ?A \<union> ?R" by simp
  show ?case
    unfolding u
    using s1 s2 ok2 c1 c2 k1 k2 p1 p2 cc
    by (auto simp: Un_assoc)
qed

lemma capLoop_positions: "positions (capLoop r n i vs m) = positions m @ vs"
  by (induction vs arbitrary: i m) auto

lemma capMesh_positions: "positions (capMesh r c vs) = c # vs"
  by (simp add: capMesh_def capLoop_positions)

lemma capMesh_triangles: "length (indices (capMesh r c vs)) = length vs"
  by (simp add: capMesh_def capLoop_lengths)

lemma rendererCenter_six:
  assumes "length vs = 6"
  shows "\<exists>c. rendererCenter vs = Some c"
proof -
  have "rendererCenter vs \<noteq> None"
    using assms by (cases vs) (simp_all add: rendererCenter_def)
  then show ?thesis by blast
qed

lemma HexRenderer_geometryState_result:
  assumes own: "find (\<lambda>h. hc_gridCoords h = hc_gridCoords hex) hexGrid = Some thisHex"
    and six: "length (hc_vertices hex) = 6"
    and grid6: "\<forall>h \<in> set hexGrid. length (hc_vertices h) = 6"
  shows "\<exists>m c. rendererCenter (hc_vertices hex) = Some c \<and>
           HexRenderer_geometryState r hex hexGrid =
             Some (m, \<Union>d \<in> set skirtDirections. set_option (cornerIdOf hex hexGrid d)) \<and>
           cornerTriangleCount m =
             card (\<Union>d \<in> set skirtDirections. set_option (cornerIdOf hex hexGrid d)) \<and>
           skirtTriangleCount m = 2 * length (filter (hasNeighbor hex hexGrid) skirtDirections) \<and>
           set (positions m) \<subseteq>
             {c} \<union> set (hc_vertices hex) \<union> (\<Union>h \<in> set hexGrid. set (hc_vertices h))"
proof -
  obtain c where c: "rendererCenter (hc_vertices hex) = Some c"
    using rendererCenter_six [OF six] by blast
  let ?cap = "capMesh r c (hc_vertices hex)"
  note shape = capShape_counts [OF capMesh_shape [of r c "hc_vertices hex"]]
  from HexRenderer_skirtLoop_result [OF own six grid6 subset_refl shape(1) finite.emptyI, of r]
  obtain m where
    l: "HexRenderer_skirtLoop r hex hexGrid skirtDirections (?cap, {}) =
          Some (m, {} \<union> (\<Union>d \<in> set skirtDirections. set_option (cornerIdOf hex hexGrid d)))" and
    cc: "cornerTriangleCount m = cornerTriangleCount ?cap +
          card ((\<Union>d \<in> set skirtDirections. set_option (cornerIdOf hex hexGrid d)) - {})" and
    kk: "skirtTriangleCount m = skirtTriangleCount ?cap +
          2 * length (filter (hasNeighbor hex hexGrid) skirtDirections)" and
    pp: "set (positions m) \<subseteq> set (positions ?cap) \<union> set (hc_vertices hex) \<union>
          (\<Union>h \<in> set hexGrid. set (hc_vertices h))"
    by blast
  have "HexRenderer_geometryState r hex hexGrid =
          Some (m, \<Union>d \<in> set skirtDirections. set_option (cornerIdOf hex hexGrid d))"
    using c l by (simp add: HexRenderer_geometryState_def)
  moreover have "cornerTriangleCount m =
      card (\<Union>d \<in> set skirtDirections. set_option (cornerIdOf hex hexGrid d))"
    using cc shape(2) by simp
  moreover have "skirtTriangleCount m = 2 * length (filter (hasNeighbor hex hexGrid) skirtDirections)"
    using kk shape(3) by simp
  moreover have "set (positions m) \<subseteq>
      {c} \<union> set (hc_vertices hex) \<union> (\<Union>h \<in> set hexGrid. set (hc_vertices h))"
    using pp by (auto simp: capMesh_positions)
  ultimately show ?thesis using c by blast
qed

lemma HexGenerator_getNeighbor_off_grid:
  assumes grid: "\<forall>h \<in> set hexGrid. inBounds n (hc_gridCoords h)"
    and nc: "directionTable (hc_gridCoords hex) d = Some nc" "\<not> inBounds n nc"
  shows "HexGenerator_getNeighbor g hex d hexGrid = None"
proof -
  have "find (\<lambda>h. hc_gridCoords h = nc) hexGrid = None"
    using grid nc(2) by (auto simp: find_None_iff)
  then show ?thesis
    using nc(1)
    by (cases nc) (simp add: HexGenerator_getNeighbor_def HexGenerator_getNeighborCoords_def)
qed

lemma find_own_coords:
  "find (\<lambda>h. hc_gridCoords h = c) hexGrid = Some thisHex \<Longrightarrow> hc_gridCoords thisHex = c"
  by (auto simp: find_Some_iff)

lemma HexRenderer_skirt_off_grid:
  assumes own: "find (\<lambda>h. hc_gridCoords h = hc_gridCoords hex) hexGrid = Some thisHex"
    and grid: "\<forall>h \<in> set hexGrid. inBounds n (hc_gridCoords h)"
    and nc: "directionTable (hc_gridCoords hex) d = Some nc" "\<not> inBounds n nc"
  shows "HexRenderer_skirt r hex hexGrid d st = Some st" and "\<not> hasNeighbor hex hexGrid d"
proof -
  have "directionTable (hc_gridCoords thisHex) d = Some nc"
    using nc(1) find_own_coords [OF own] by simp
  from HexGenerator_getNeighbor_off_grid [OF grid this nc(2)]
  have none: "HexGenerator_getNeighbor 16 thisHex d hexGrid = None" .
  show "HexRenderer_skirt r hex hexGrid d st = Some st"
    using own none by (simp add: HexRenderer_skirt_def)
  show "\<not> hasNeighbor hex hexGrid d"
    using own none by (simp add: hasNeighbor_def)
qed

subsection \<open>The flat 2 by 2 grid\<close>

lemma gridCells_2: "gridCells 2 = [(0, 0), (1, 0), (0, 1), (1, 1)]"
  by (simp add: gridCells_def upt_rec)

lemma flatGrid_2: "flatGrid 2 = [flatHex (0, 0), flatHex (1, 0), flatHex (0, 1), flatHex (1, 1)]"
  by (simp add: flatGrid_def gridCells_2)

lemma flatHex_coords: "hc_gridCoords (flatHex c) = c"
  by (simp add: flatHex_def Let_def)

lemma flatHex_six: "length (hc_vertices (flatHex c)) = 6"
  by (simp add: flatHex_def Let_def angles_def)

lemma flatGrid_2_six: "\<forall>h \<in> set (flatGrid 2). length (hc_vertices h) = 6"
  by (simp add: flatGrid_2 flatHex_six)

lemma string_of_int_digits: "string_of_int 0 = ''0''" "string_of_int 1 = ''1''"
  by (simp_all add: string_of_int_def)

lemmas flat_eval = cornerIdOf_def hasNeighbor_def HexGenerator_getNeighbor_def
  HexGenerator_getNeighborCoords_def directionTable_def js_mod_def js_plus_exact js_minus_exact Let_def flatGrid_2
  flatHex_coords clockwiseDirection_def cornerTriangleId_def coordsId_def string_of_int_digits
  skirtDirections_def

lemma flat_ids_00:
  "(\<Union>d \<in> set skirtDirections. set_option (cornerIdOf (flatHex (0, 0)) (flatGrid 2) d)) =
     {''0,0-0,1-1,0''}"
  by (simp add: flat_eval)

lemma flat_ids_10:
  "(\<Union>d \<in> set skirtDirections. set_option (cornerIdOf (flatHex (1, 0)) (flatGrid 2) d)) =
     {''0,0-0,1-1,0'', ''0,1-1,0-1,1''}"
  by (simp add: flat_eval)

lemma flat_ids_01:
  "(\<Union>d \<in> set skirtDirections. set_option (cornerIdOf (flatHex (0, 1)) (flatGrid 2) d)) = {}"
  by (simp add: flat_eval)

lemma flat_ids_11:
  "(\<Union>d \<in> set skirtDirections. set_option (cornerIdOf (flatHex (1, 1)) (flatGrid 2) d)) = {}"
  by (simp add: flat_eval)

lemma those_map_option:
  "map_option (map g) (those (map f xs)) = those (map (\<lambda>x. map_option g (f x)) xs)"
proof (induction xs)
  case Nil
  show ?case by simp
next
  case (Cons x xs)
  show ?case
    using Cons.IH
    by (cases "f x"; cases "those (map f xs)"; cases "those (map (\<lambda>x. map_option g (f x)) xs)")
       auto
qed

lemma flat_own:
  "find (\<lambda>h. hc_gridCoords h = hc_gridCoords (flatHex (0, 0))) (flatGrid 2) = Some (flatHex (0, 0))"
  "find (\<lambda>h. hc_gridCoords h = hc_gridCoords (flatHex (1, 0))) (flatGrid 2) = Some (flatHex (1, 0))"
  "find (\<lambda>h. hc_gridCoords h = hc_gridCoords (flatHex (0, 1))) (flatGrid 2) = Some (flatHex (0, 1))"
  "find (\<lambda>h. hc_gridCoords h = hc_gridCoords (flatHex (1, 1))) (flatGrid 2) = Some (flatHex (1, 1))"
  by (simp_all add: flatGrid_2 flatHex_coords)

lemma flat_state:
  assumes own: "find (\<lambda>h. hc_gridCoords h = hc_gridCoords (flatHex c)) (flatGrid 2) = Some (flatHex c)"
    and ids: "(\<Union>d \<in> set skirtDirections. set_option (cornerIdOf (flatHex c) (flatGrid 2) d)) = I"
  shows "map_option snd (HexRenderer_geometryState r (flatHex c) (flatGrid 2)) = Some I"
    and "map_option cornerTriangleCount (HexRenderer_createHexGeometry r (flatHex c) (flatGrid 2)) =
           Some (card I)"
  using HexRenderer_geometryState_result [OF own flatHex_six flatGrid_2_six, of r] ids
  by (auto simp: HexRenderer_createHexGeometry_def)

lemma flat_total:
  "map_option (\<lambda>ms. sum_list (map cornerTriangleCount ms)) (HexRenderer_renderGrid r (flatGrid 2)) =
     Some 3"
proof -
  have e: "map G (flatGrid 2) = map G [flatHex (0, 0), flatHex (1, 0), flatHex (0, 1), flatHex (1, 1)]"
    for G :: "HexCell \<Rightarrow> nat option"
    by (simp add: flatGrid_2)
  have "map_option (map cornerTriangleCount) (HexRenderer_renderGrid r (flatGrid 2)) =
          Some [1, 2, 0, 0]"
    unfolding HexRenderer_renderGrid_def those_map_option e
    by (simp add: flat_state(2) [OF flat_own(1) flat_ids_00] flat_state(2) [OF flat_own(2) flat_ids_10]
          flat_state(2) [OF flat_own(3) flat_ids_01] flat_state(2) [OF flat_own(4) flat_ids_11])
  then show ?thesis by (cases "HexRenderer_renderGrid r (flatGrid 2)") auto
qed

lemma flat_interiorCorners:
  "interiorCorners (flatGrid 2) = [[(0, 0), (0, 1), (1, 0)], [(0, 1), (1, 0), (1, 1)]]"
  by (simp add: interiorCorners_def flatGrid_2 flatHex_coords cornersOf_def directions_def
        clockwiseDirection_def directionTable_def js_mod_def js_plus_exact js_minus_exact Let_def)

section \<open>The noise caches\<close>

lemma getRandomGradient_value:
  "cache_ok pn \<Longrightarrow>
     fst (getRandomGradient ix iy pn) = gradient_uncached (pn_seed pn) ix iy"
  by (auto simp: getRandomGradient_def cache_ok_def gradient_uncached_def Let_def
      split: option.splits)

lemma getRandomGradient_state:
  "pn_seed (snd (getRandomGradient ix iy pn)) = pn_seed pn"
  "pn_memory (snd (getRandomGradient ix iy pn)) = pn_memory pn"
  "cache_ok pn \<Longrightarrow> cache_ok (snd (getRandomGradient ix iy pn))"
  by (auto simp: getRandomGradient_def cache_ok_def gradient_uncached_def Let_def
      split: option.splits)

lemma dotGridGradient_value:
  "cache_ok pn \<Longrightarrow> fst (dotGridGradient ix iy x y pn) = dot_uncached (pn_seed pn) ix iy x y"
  by (simp add: dotGridGradient_def dot_uncached_def Let_def split_beta getRandomGradient_value)

lemma dotGridGradient_state:
  "pn_seed (snd (dotGridGradient ix iy x y pn)) = pn_seed pn"
  "pn_memory (snd (dotGridGradient ix iy x y pn)) = pn_memory pn"
  "cache_ok pn \<Longrightarrow> cache_ok (snd (dotGridGradient ix iy x y pn))"
  by (simp_all add: dotGridGradient_def Let_def split_beta getRandomGradient_state)

lemma PerlinNoise_compute_value:
  "cache_ok pn \<Longrightarrow> fst (PerlinNoise_compute x y pn) = get_uncached (pn_seed pn) x y"
  by (simp add: PerlinNoise_compute_def get_uncached_def Let_def split_beta
        dotGridGradient_value dotGridGradient_state)

lemma cache_ok_store:
  assumes "cache_ok pn" and "v = get_uncached (pn_seed pn) x y"
  shows "cache_ok (pn\<lparr>pn_memory := (pn_memory pn)((x, y) \<mapsto> v)\<rparr>)"
  using assms by (auto simp: cache_ok_def)

lemma PerlinNoise_compute_state:
  "pn_seed (snd (PerlinNoise_compute x y pn)) = pn_seed pn"
  "cache_ok pn \<Longrightarrow> cache_ok (snd (PerlinNoise_compute x y pn))"
proof -
  show "pn_seed (snd (PerlinNoise_compute x y pn)) = pn_seed pn"
    by (simp add: PerlinNoise_compute_def Let_def split_beta dotGridGradient_state)
  assume ok: "cache_ok pn"
  let ?x0 = "\<lfloor>x\<rfloor>" and ?y0 = "\<lfloor>y\<rfloor>"
  let ?p1 = "snd (dotGridGradient ?x0 ?y0 x y pn)"
  let ?p2 = "snd (dotGridGradient (?x0 + 1) ?y0 x y ?p1)"
  let ?p3 = "snd (dotGridGradient ?x0 (?y0 + 1) x y ?p2)"
  let ?p4 = "snd (dotGridGradient (?x0 + 1) (?y0 + 1) x y ?p3)"
  have ok4: "cache_ok ?p4" using ok by (simp add: dotGridGradient_state)
  have seed4: "pn_seed ?p4 = pn_seed pn" by (simp add: dotGridGradient_state)
  have st: "snd (PerlinNoise_compute x y pn) =
              ?p4\<lparr>pn_memory := (pn_memory ?p4)((x, y) \<mapsto> fst (PerlinNoise_compute x y pn))\<rparr>"
    by (simp add: PerlinNoise_compute_def Let_def split_beta)
  have "cache_ok (?p4\<lparr>pn_memory := (pn_memory ?p4)((x, y) \<mapsto> fst (PerlinNoise_compute x y pn))\<rparr>)"
    by (rule cache_ok_store [OF ok4]) (simp add: seed4 PerlinNoise_compute_value [OF ok])
  then show "cache_ok (snd (PerlinNoise_compute x y pn))"
    using st by simp
qed

lemma PerlinNoise_get_value:
  "cache_ok pn \<Longrightarrow> fst (PerlinNoise_get x y pn) = get_uncached (pn_seed pn) x y"
  by (auto simp: PerlinNoise_get_def PerlinNoise_compute_value truthy_def cache_ok_def
      split: option.splits)

lemma PerlinNoise_get_state:
  "pn_seed (snd (PerlinNoise_get x y pn)) = pn_seed pn"
  "cache_ok pn \<Longrightarrow> cache_ok (snd (PerlinNoise_get x y pn))"
  by (simp_all add: PerlinNoise_get_def PerlinNoise_compute_state)

lemma cache_ok_new: "cache_ok (PerlinNoise_new seed)"
  by (simp add: cache_ok_def PerlinNoise_new_def)

lemma after_calls_state:
  "pn_seed (after_calls pn cs) = pn_seed pn"
  "cache_ok pn \<Longrightarrow> cache_ok (after_calls pn cs)"
  by (induction cs arbitrary: pn) (simp_all add: PerlinNoise_get_state)

lemma smootherstep_bounds:
  assumes "0 \<le> u" "u \<le> 1"
  shows "0 \<le> smootherstep u" and "smootherstep u \<le> 1"
proof -
  have q1: "0 < 6 * u * u - 15 * u + 10"
  proof -
    have "6 * u * u - 15 * u + 10 = 6 * ((u - 5 / 4) * (u - 5 / 4)) + 5 / 8"
      by (simp add: algebra_simps)
    moreover have "0 \<le> (u - 5 / 4) * (u - 5 / 4)" by simp
    ultimately show ?thesis by linarith
  qed
  have e1: "smootherstep u = u * u * u * (6 * u * u - 15 * u + 10)"
    by (simp add: smootherstep_def algebra_simps)
  have c1: "0 \<le> u * u * u" using assms by simp
  have c2: "0 \<le> 6 * u * u - 15 * u + 10" using q1 by simp
  show "0 \<le> smootherstep u"
    unfolding e1 by (rule mult_nonneg_nonneg [OF c1 c2])
  have e2: "1 - smootherstep u = (1 - u) * (1 - u) * (1 - u) * (6 * u * u + 3 * u + 1)"
    by (simp add: smootherstep_def algebra_simps)
  have c3: "0 \<le> (1 - u) * (1 - u) * (1 - u)" using assms by simp
  have c4: "0 \<le> 6 * u * u + 3 * u + 1" using assms by simp
  have "0 \<le> 1 - smootherstep u"
    unfolding e2 by (rule mult_nonneg_nonneg [OF c3 c4])
  then show "smootherstep u \<le> 1" by simp
qed

lemma smootherstep_blend:
  assumes "0 \<le> u" "u \<le> 1"
  shows "(1 - smootherstep u) * u + smootherstep u * (1 - u) \<le> 1 / 2"
proof -
  let ?q = "6 * (u * (1 - u)) * (u * (1 - u)) + 2 * (u * (1 - u)) + 1"
  have e: "(1 - smootherstep u) * u + smootherstep u * (1 - u) =
           1 / 2 - 2 * ((u - 1 / 2) * (u - 1 / 2)) * ?q"
    by (simp add: smootherstep_def algebra_simps)
  have "0 \<le> u * (1 - u)" using assms by simp
  then have "0 \<le> ?q" by simp
  moreover have "0 \<le> 2 * ((u - 1 / 2) * (u - 1 / 2))" by simp
  ultimately have "0 \<le> 2 * ((u - 1 / 2) * (u - 1 / 2)) * ?q"
    by (rule mult_nonneg_nonneg [rotated])
  then show ?thesis unfolding e by simp
qed

lemma dot_uncached_bound:
  "\<bar>dot_uncached seed ix iy x y\<bar> \<le> \<bar>x - of_int ix\<bar> + \<bar>y - of_int iy\<bar>"
proof -
  let ?a = "2 * pi * PerlinNoise_random seed (of_int ix) (of_int iy)"
  have "\<bar>(x - of_int ix) * cos ?a + (y - of_int iy) * sin ?a\<bar>
          \<le> \<bar>(x - of_int ix) * cos ?a\<bar> + \<bar>(y - of_int iy) * sin ?a\<bar>"
    by (rule abs_triangle_ineq)
  also have "\<dots> = \<bar>x - of_int ix\<bar> * \<bar>cos ?a\<bar> + \<bar>y - of_int iy\<bar> * \<bar>sin ?a\<bar>"
    by (simp add: abs_mult)
  also have "\<dots> \<le> \<bar>x - of_int ix\<bar> * 1 + \<bar>y - of_int iy\<bar> * 1"
    by (intro add_mono mult_left_mono) simp_all
  finally show ?thesis
    by (simp add: dot_uncached_def gradient_uncached_def Let_def)
qed

lemma lerp_abs_bound:
  assumes "0 \<le> t" "t \<le> 1" "\<bar>a\<bar> \<le> p" "\<bar>b\<bar> \<le> q"
  shows "\<bar>lerp a b t\<bar> \<le> (1 - t) * p + t * q"
proof -
  have "lerp a b t = (1 - t) * a + t * b"
    by (simp add: lerp_def algebra_simps)
  then have "\<bar>lerp a b t\<bar> \<le> \<bar>(1 - t) * a\<bar> + \<bar>t * b\<bar>"
    using abs_triangle_ineq [of "(1 - t) * a" "t * b"] by simp
  also have "\<dots> = (1 - t) * \<bar>a\<bar> + t * \<bar>b\<bar>"
    using assms(1,2) by (simp add: abs_mult)
  also have "\<dots> \<le> (1 - t) * p + t * q"
    using assms by (intro add_mono mult_left_mono) simp_all
  finally show ?thesis .
qed

lemma get_uncached_range: "0 \<le> get_uncached seed x y \<and> get_uncached seed x y \<le> 1"
proof -
  define x0 where "x0 = \<lfloor>x\<rfloor>"
  define y0 where "y0 = \<lfloor>y\<rfloor>"
  define u where "u = x - of_int x0"
  define v where "v = y - of_int y0"
  define sx where "sx = smootherstep u"
  define sy where "sy = smootherstep v"
  define n0 where "n0 = dot_uncached seed x0 y0 x y"
  define n1 where "n1 = dot_uncached seed (x0 + 1) y0 x y"
  define n2 where "n2 = dot_uncached seed x0 (y0 + 1) x y"
  define n3 where "n3 = dot_uncached seed (x0 + 1) (y0 + 1) x y"
  have u: "0 \<le> u" "u \<le> 1" and v: "0 \<le> v" "v \<le> 1"
    unfolding u_def v_def x0_def y0_def by linarith+
  have sx: "0 \<le> sx" "sx \<le> 1" unfolding sx_def using smootherstep_bounds [OF u] by simp_all
  have sy: "0 \<le> sy" "sy \<le> 1" unfolding sy_def using smootherstep_bounds [OF v] by simp_all
  have b0: "\<bar>n0\<bar> \<le> u + v"
    using dot_uncached_bound [of seed x0 y0 x y] u v by (simp add: n0_def u_def v_def)
  have b1: "\<bar>n1\<bar> \<le> (1 - u) + v"
    using dot_uncached_bound [of seed "x0 + 1" y0 x y] u v by (simp add: n1_def u_def v_def)
  have b2: "\<bar>n2\<bar> \<le> u + (1 - v)"
    using dot_uncached_bound [of seed x0 "y0 + 1" x y] u v by (simp add: n2_def u_def v_def)
  have b3: "\<bar>n3\<bar> \<le> (1 - u) + (1 - v)"
    using dot_uncached_bound [of seed "x0 + 1" "y0 + 1" x y] u v by (simp add: n3_def u_def v_def)
  have i0: "\<bar>lerp n0 n1 sx\<bar> \<le> (1 - sx) * (u + v) + sx * ((1 - u) + v)"
    by (rule lerp_abs_bound [OF sx b0 b1])
  have i1: "\<bar>lerp n2 n3 sx\<bar> \<le> (1 - sx) * (u + (1 - v)) + sx * ((1 - u) + (1 - v))"
    by (rule lerp_abs_bound [OF sx b2 b3])
  have "\<bar>lerp (lerp n0 n1 sx) (lerp n2 n3 sx) sy\<bar>
          \<le> (1 - sy) * ((1 - sx) * (u + v) + sx * ((1 - u) + v)) +
             sy * ((1 - sx) * (u + (1 - v)) + sx * ((1 - u) + (1 - v)))"
    by (rule lerp_abs_bound [OF sy i0 i1])
  also have "\<dots> = ((1 - sx) * u + sx * (1 - u)) + ((1 - sy) * v + sy * (1 - v))"
    by (simp add: algebra_simps)
  also have "\<dots> \<le> 1 / 2 + 1 / 2"
    unfolding sx_def sy_def
    by (intro add_mono smootherstep_blend u v)
  finally have "\<bar>lerp (lerp n0 n1 sx) (lerp n2 n3 sx) sy\<bar> \<le> 1" by simp
  moreover have "get_uncached seed x y = lerp (lerp n0 n1 sx) (lerp n2 n3 sx) sy * 0.5 + 0.5"
    by (simp add: get_uncached_def Let_def n0_def n1_def n2_def n3_def sx_def sy_def u_def v_def
          x0_def y0_def)
  ultimately show ?thesis by (simp add: abs_le_iff)
qed

lemma get_uncached_lattice: "get_uncached seed (of_int i) (of_int j) = 1 / 2"
  by (simp add: get_uncached_def Let_def dot_uncached_def smootherstep_def lerp_def)

section \<open>The noise caches on numbers that can overflow\<close>

lemma getRandomGradient_num_value:
  "cache_ok_num pn \<Longrightarrow>
     fst (getRandomGradient_num ix iy pn) = gradient_num_uncached (pnn_seed pn) ix iy"
  by (auto simp: getRandomGradient_num_def cache_ok_num_def gradient_num_uncached_def Let_def
      split: option.splits)

lemma getRandomGradient_num_state:
  "pnn_seed (snd (getRandomGradient_num ix iy pn)) = pnn_seed pn"
  "pnn_memory (snd (getRandomGradient_num ix iy pn)) = pnn_memory pn"
  "cache_ok_num pn \<Longrightarrow> cache_ok_num (snd (getRandomGradient_num ix iy pn))"
  by (auto simp: getRandomGradient_num_def cache_ok_num_def gradient_num_uncached_def Let_def
      split: option.splits)

lemma dotGridGradient_num_value:
  "cache_ok_num pn \<Longrightarrow>
     fst (dotGridGradient_num ix iy x y pn) = dot_num_uncached (pnn_seed pn) ix iy x y"
  by (simp add: dotGridGradient_num_def dot_num_uncached_def Let_def split_beta
        getRandomGradient_num_value)

lemma dotGridGradient_num_state:
  "pnn_seed (snd (dotGridGradient_num ix iy x y pn)) = pnn_seed pn"
  "pnn_memory (snd (dotGridGradient_num ix iy x y pn)) = pnn_memory pn"
  "cache_ok_num pn \<Longrightarrow> cache_ok_num (snd (dotGridGradient_num ix iy x y pn))"
  by (simp_all add: dotGridGradient_num_def Let_def split_beta getRandomGradient_num_state)

lemma PerlinNoise_compute_num_value:
  "cache_ok_num pn \<Longrightarrow>
     fst (PerlinNoise_compute_num x y pn) = get_num_uncached (pnn_seed pn) x y"
  by (simp add: PerlinNoise_compute_num_def get_num_uncached_def Let_def split_beta
        dotGridGradient_num_value dotGridGradient_num_state)

lemma cache_ok_num_store:
  assumes "cache_ok_num pn" and "v = get_num_uncached (pnn_seed pn) x y"
  shows "cache_ok_num (pn\<lparr>pnn_memory := (pnn_memory pn)((x, y) \<mapsto> v)\<rparr>)"
  using assms by (auto simp: cache_ok_num_def)

lemma PerlinNoise_compute_num_state:
  "pnn_seed (snd (PerlinNoise_compute_num x y pn)) = pnn_seed pn"
  "cache_ok_num pn \<Longrightarrow> cache_ok_num (snd (PerlinNoise_compute_num x y pn))"
proof -
  show "pnn_seed (snd (PerlinNoise_compute_num x y pn)) = pnn_seed pn"
    by (simp add: PerlinNoise_compute_num_def Let_def split_beta dotGridGradient_num_state)
  assume ok: "cache_ok_num pn"
  let ?x0 = "num_floor x" and ?y0 = "num_floor y"
  let ?x1 = "num_add ?x0 (Fin 1)" and ?y1 = "num_add ?y0 (Fin 1)"
  let ?p1 = "snd (dotGridGradient_num ?x0 ?y0 x y pn)"
  let ?p2 = "snd (dotGridGradient_num ?x1 ?y0 x y ?p1)"
  let ?p3 = "snd (dotGridGradient_num ?x0 ?y1 x y ?p2)"
  let ?p4 = "snd (dotGridGradient_num ?x1 ?y1 x y ?p3)"
  have ok4: "cache_ok_num ?p4" using ok by (simp add: dotGridGradient_num_state)
  have seed4: "pnn_seed ?p4 = pnn_seed pn" by (simp add: dotGridGradient_num_state)
  have st: "snd (PerlinNoise_compute_num x y pn) =
              ?p4\<lparr>pnn_memory := (pnn_memory ?p4)((x, y) \<mapsto> fst (PerlinNoise_compute_num x y pn))\<rparr>"
    by (simp add: PerlinNoise_compute_num_def Let_def split_beta)
  have "cache_ok_num
          (?p4\<lparr>pnn_memory := (pnn_memory ?p4)((x, y) \<mapsto> fst (PerlinNoise_compute_num x y pn))\<rparr>)"
    by (rule cache_ok_num_store [OF ok4])
       (simp add: seed4 PerlinNoise_compute_num_value [OF ok])
  then show "cache_ok_num (snd (PerlinNoise_compute_num x y pn))"
    using st by simp
qed

lemma PerlinNoise_get_num_value:
  "cache_ok_num pn \<Longrightarrow> fst (PerlinNoise_get_num x y pn) = get_num_uncached (pnn_seed pn) x y"
  by (auto simp: PerlinNoise_get_num_def PerlinNoise_compute_num_value truthy_num_def
        cache_ok_num_def split: option.splits)

lemma PerlinNoise_get_num_state:
  "pnn_seed (snd (PerlinNoise_get_num x y pn)) = pnn_seed pn"
  "cache_ok_num pn \<Longrightarrow> cache_ok_num (snd (PerlinNoise_get_num x y pn))"
  by (simp_all add: PerlinNoise_get_num_def PerlinNoise_compute_num_state)

lemma cache_ok_num_new: "cache_ok_num (PerlinNoise_new_num seed)"
  by (simp add: cache_ok_num_def PerlinNoise_new_num_def)

lemma after_calls_num_state:
  "pnn_seed (after_calls_num pn cs) = pnn_seed pn"
  "cache_ok_num pn \<Longrightarrow> cache_ok_num (after_calls_num pn cs)"
  by (induction cs arbitrary: pn) (simp_all add: PerlinNoise_get_num_state)

lemma PerlinNoise_get_num_fresh:
  "fst (PerlinNoise_get_num x y (PerlinNoise_new_num seed)) = get_num_uncached seed x y"
  using PerlinNoise_get_num_value [OF cache_ok_num_new, of x y seed]
  by (simp add: PerlinNoise_new_num_def)

subsection \<open>Agreement with the computation on reals where nothing overflows\<close>

lemma overflowBound_big: "10 ^ 6 < overflowBound"
  by (simp add: overflowBound_def)

lemma num_of_Fin: "\<bar>r\<bar> < overflowBound \<Longrightarrow> num_of r = Fin r"
  by (simp add: num_of_def)

lemma num_of_small: "\<bar>r\<bar> \<le> 10 ^ 6 \<Longrightarrow> num_of r = Fin r"
  using overflowBound_big by (simp add: num_of_def)

lemma abs_mult_le: "\<bar>a\<bar> \<le> p \<Longrightarrow> \<bar>b\<bar> \<le> q \<Longrightarrow> \<bar>a * b\<bar> \<le> p * (q :: real)"
  by (simp add: abs_mult mult_mono)

lemma abs_add_le: "\<bar>a\<bar> \<le> p \<Longrightarrow> \<bar>b\<bar> \<le> q \<Longrightarrow> \<bar>a + b\<bar> \<le> p + (q :: real)"
  by linarith

lemma abs_sub_le: "\<bar>a\<bar> \<le> p \<Longrightarrow> \<bar>b\<bar> \<le> q \<Longrightarrow> \<bar>a - b\<bar> \<le> p + (q :: real)"
  by linarith

lemma num_mul_Fin:
  "\<bar>a\<bar> \<le> p \<Longrightarrow> \<bar>b\<bar> \<le> q \<Longrightarrow> p * q \<le> 10 ^ 6 \<Longrightarrow> num_mul (Fin a) (Fin b) = Fin (a * b)"
  using abs_mult_le [of a p b q] by (simp add: num_of_small)

lemma num_add_Fin:
  "\<bar>a\<bar> \<le> p \<Longrightarrow> \<bar>b\<bar> \<le> q \<Longrightarrow> p + q \<le> 10 ^ 6 \<Longrightarrow> num_add (Fin a) (Fin b) = Fin (a + b)"
  using abs_add_le [of a p b q] by (simp add: num_of_small)

lemma num_sub_Fin:
  "\<bar>a\<bar> \<le> p \<Longrightarrow> \<bar>b\<bar> \<le> q \<Longrightarrow> p + q \<le> 10 ^ 6 \<Longrightarrow> num_sub (Fin a) (Fin b) = Fin (a - b)"
  using abs_sub_le [of a p b q] by (simp add: num_sub_def num_of_small)

lemma num_sub_Fin_direct: "\<bar>a - b\<bar> \<le> 10 ^ 6 \<Longrightarrow> num_sub (Fin a) (Fin b) = Fin (a - b)"
  by (simp add: num_sub_def num_of_small)

lemma smootherstep_num_Fin:
  assumes t: "0 \<le> t" "t \<le> 1"
  shows "smootherstep_num (Fin t) = Fin (smootherstep t)"
proof -
  have a: "\<bar>t\<bar> \<le> 1" using t by simp
  have tt: "num_mul (Fin t) (Fin t) = Fin (t * t)"
    by (rule num_mul_Fin [OF a a]) simp
  have btt: "\<bar>t * t\<bar> \<le> 1" using abs_mult_le [OF a a] by simp
  have ttt: "num_mul (Fin (t * t)) (Fin t) = Fin (t * t * t)"
    by (rule num_mul_Fin [OF btt a]) simp
  have bttt: "\<bar>t * t * t\<bar> \<le> 1" using abs_mult_le [OF btt a] by simp
  have t6: "num_mul (Fin t) (Fin 6) = Fin (t * 6)"
    by (rule num_mul_Fin [OF a, of 6 6]) simp_all
  have bt6: "\<bar>t * 6\<bar> \<le> 6" using t by simp
  have s15: "num_sub (Fin (t * 6)) (Fin 15) = Fin (t * 6 - 15)"
    by (rule num_sub_Fin [OF bt6, of 15 15]) simp_all
  have bs15: "\<bar>t * 6 - 15\<bar> \<le> 21" using t by simp
  have m: "num_mul (Fin t) (Fin (t * 6 - 15)) = Fin (t * (t * 6 - 15))"
    by (rule num_mul_Fin [OF a bs15]) simp
  have bm: "\<bar>t * (t * 6 - 15)\<bar> \<le> 21" using abs_mult_le [OF a bs15] by simp
  have p10: "num_add (Fin (t * (t * 6 - 15))) (Fin 10) = Fin (t * (t * 6 - 15) + 10)"
    by (rule num_add_Fin [OF bm, of 10 10]) simp_all
  have bp10: "\<bar>t * (t * 6 - 15) + 10\<bar> \<le> 31" using abs_add_le [OF bm, of 10 10] by simp
  have f: "num_mul (Fin (t * t * t)) (Fin (t * (t * 6 - 15) + 10))
             = Fin (t * t * t * (t * (t * 6 - 15) + 10))"
    by (rule num_mul_Fin [OF bttt bp10]) simp
  show ?thesis
    unfolding smootherstep_num_def smootherstep_def tt ttt t6 s15 m p10 f ..
qed

lemma lerp_num_Fin:
  assumes t: "0 \<le> t" "t \<le> 1" and a: "\<bar>a\<bar> \<le> 2" and b: "\<bar>b\<bar> \<le> 2"
  shows "lerp_num (Fin a) (Fin b) (Fin t) = Fin (lerp a b t)"
proof -
  have at: "\<bar>t\<bar> \<le> 1" using t by simp
  have s: "num_sub (Fin b) (Fin a) = Fin (b - a)"
    by (rule num_sub_Fin [OF b a]) simp
  have bs: "\<bar>b - a\<bar> \<le> 4" using a b by linarith
  have m: "num_mul (Fin t) (Fin (b - a)) = Fin (t * (b - a))"
    by (rule num_mul_Fin [OF at bs]) simp
  have bm: "\<bar>t * (b - a)\<bar> \<le> 4" using abs_mult_le [OF at bs] by simp
  have p: "num_add (Fin a) (Fin (t * (b - a))) = Fin (a + t * (b - a))"
    by (rule num_add_Fin [OF a bm]) simp
  show ?thesis unfolding lerp_num_def lerp_def s m p ..
qed

lemma lerp_le_2:
  assumes t: "0 \<le> t" "t \<le> 1" and a: "\<bar>a\<bar> \<le> 2" and b: "\<bar>b\<bar> \<le> 2"
  shows "\<bar>lerp a b t\<bar> \<le> 2"
  using lerp_abs_bound [OF t a b] by (simp add: algebra_simps)

lemma PerlinNoise_fract_num_Fin:
  assumes "\<bar>n\<bar> \<le> 10 ^ 5"
  shows "PerlinNoise_fract_num (Fin n) = Fin (PerlinNoise_fract n)"
proof -
  have "0 \<le> n - of_int \<lfloor>n\<rfloor>" "n - of_int \<lfloor>n\<rfloor> < 1" by linarith+
  then have "\<bar>n - of_int \<lfloor>n\<rfloor>\<bar> \<le> 10 ^ 6" by simp
  then show ?thesis
    by (simp add: PerlinNoise_fract_num_def PerlinNoise_fract_def num_sub_Fin_direct)
qed

lemma PerlinNoise_fract_range: "0 \<le> PerlinNoise_fract n \<and> PerlinNoise_fract n < 1"
  unfolding PerlinNoise_fract_def by linarith

lemma PerlinNoise_random_num_Fin:
  assumes h: "\<bar>ix\<bar> * 12.9898 + \<bar>iy\<bar> * 78.233 + \<bar>seed\<bar> < overflowBound"
  shows "PerlinNoise_random_num (Fin seed) (Fin ix) (Fin iy)
           = Fin (PerlinNoise_random seed ix iy)"
proof -
  define A where "A = ix * 12.9898"
  define B where "B = iy * 78.233"
  have e: "\<bar>A\<bar> = \<bar>ix\<bar> * 12.9898" "\<bar>B\<bar> = \<bar>iy\<bar> * 78.233"
    by (simp_all add: A_def B_def abs_mult)
  from h have h': "\<bar>A\<bar> + \<bar>B\<bar> + \<bar>seed\<bar> < overflowBound"
    unfolding e .
  have q: "\<bar>A\<bar> < overflowBound" "\<bar>B\<bar> < overflowBound" "\<bar>A + B\<bar> < overflowBound"
    "\<bar>A + B + seed\<bar> < overflowBound"
    using h' by linarith+
  have p1: "\<bar>ix * 12.9898\<bar> < overflowBound"
    and p2: "\<bar>iy * 78.233\<bar> < overflowBound"
    and p3: "\<bar>ix * 12.9898 + iy * 78.233\<bar> < overflowBound"
    and p4: "\<bar>ix * 12.9898 + iy * 78.233 + seed\<bar> < overflowBound"
    using q unfolding A_def B_def by blast+
  have m1: "num_mul (Fin ix) (Fin 12.9898) = Fin (ix * 12.9898)"
    using p1 by (simp add: num_of_Fin)
  have m2: "num_mul (Fin iy) (Fin 78.233) = Fin (iy * 78.233)"
    using p2 by (simp add: num_of_Fin)
  have a1: "num_add (Fin (ix * 12.9898)) (Fin (iy * 78.233)) = Fin (ix * 12.9898 + iy * 78.233)"
    using p3 by (simp add: num_of_Fin)
  have a2: "num_add (Fin (ix * 12.9898 + iy * 78.233)) (Fin seed)
              = Fin (ix * 12.9898 + iy * 78.233 + seed)"
    using p4 by (simp add: num_of_Fin)
  let ?d = "ix * 12.9898 + iy * 78.233 + seed"
  have bs: "\<bar>sin ?d\<bar> \<le> 1" by simp
  have m3: "num_mul (Fin (sin ?d)) (Fin 43758.5453123) = Fin (sin ?d * 43758.5453123)"
    by (rule num_mul_Fin [OF bs, of _ "43758.5453123"]) simp_all
  have b3: "\<bar>sin ?d * 43758.5453123\<bar> \<le> 10 ^ 5"
    using abs_mult_le [OF bs, of "43758.5453123" "43758.5453123"] by simp
  show ?thesis
    unfolding PerlinNoise_random_num_def PerlinNoise_random_def Let_def m1 m2 a1 a2
      num_sin.simps m3
    by (rule PerlinNoise_fract_num_Fin [OF b3])
qed

lemma gradient_num_uncached_Fin:
  assumes h: "\<bar>ix\<bar> * 12.9898 + \<bar>iy\<bar> * 78.233 + \<bar>seed\<bar> < overflowBound"
  shows "gradient_num_uncached (Fin seed) (Fin ix) (Fin iy)
           = (Fin (cos (2 * pi * PerlinNoise_random seed ix iy)),
              Fin (sin (2 * pi * PerlinNoise_random seed ix iy)))"
proof -
  let ?r = "PerlinNoise_random seed ix iy"
  have r: "0 \<le> ?r" "?r < 1"
    using PerlinNoise_fract_range by (simp_all add: PerlinNoise_random_def Let_def)
  have bp: "\<bar>pi\<bar> \<le> 4" using pi_less_4 pi_gt_zero by simp
  have m1: "num_mul (Fin 2) (Fin pi) = Fin (2 * pi)"
    by (rule num_mul_Fin [OF _ bp, of 2 2]) simp_all
  have b2p: "\<bar>2 * pi\<bar> \<le> 8" using bp by simp
  have br: "\<bar>?r\<bar> \<le> 1" using r by simp
  have m2: "num_mul (Fin (2 * pi)) (Fin ?r) = Fin (2 * pi * ?r)"
    by (rule num_mul_Fin [OF b2p br]) simp
  show ?thesis
    unfolding gradient_num_uncached_def Let_def PerlinNoise_random_num_Fin [OF h] m1 m2
    by simp
qed

lemma dot_num_uncached_Fin:
  assumes h: "\<bar>of_int ix\<bar> * 12.9898 + \<bar>of_int iy\<bar> * 78.233 + \<bar>seed\<bar> < overflowBound"
    and dx: "\<bar>x - of_int ix\<bar> \<le> 1" and dy: "\<bar>y - of_int iy\<bar> \<le> 1"
  shows "dot_num_uncached (Fin seed) (Fin (of_int ix)) (Fin (of_int iy)) (Fin x) (Fin y)
           = Fin (dot_uncached seed ix iy x y)"
proof -
  let ?a = "2 * pi * PerlinNoise_random seed (of_int ix) (of_int iy)"
  have sx: "num_sub (Fin x) (Fin (of_int ix)) = Fin (x - of_int ix)"
    using dx by (simp add: num_sub_Fin_direct)
  have sy: "num_sub (Fin y) (Fin (of_int iy)) = Fin (y - of_int iy)"
    using dy by (simp add: num_sub_Fin_direct)
  have bc: "\<bar>cos ?a\<bar> \<le> 1" and bs: "\<bar>sin ?a\<bar> \<le> 1" by simp_all
  have m1: "num_mul (Fin (x - of_int ix)) (Fin (cos ?a)) = Fin ((x - of_int ix) * cos ?a)"
    by (rule num_mul_Fin [OF dx bc]) simp
  have m2: "num_mul (Fin (y - of_int iy)) (Fin (sin ?a)) = Fin ((y - of_int iy) * sin ?a)"
    by (rule num_mul_Fin [OF dy bs]) simp
  have b1: "\<bar>(x - of_int ix) * cos ?a\<bar> \<le> 1" using abs_mult_le [OF dx bc] by simp
  have b2: "\<bar>(y - of_int iy) * sin ?a\<bar> \<le> 1" using abs_mult_le [OF dy bs] by simp
  have p: "num_add (Fin ((x - of_int ix) * cos ?a)) (Fin ((y - of_int iy) * sin ?a))
             = Fin ((x - of_int ix) * cos ?a + (y - of_int iy) * sin ?a)"
    by (rule num_add_Fin [OF b1 b2]) simp
  show ?thesis
    unfolding dot_num_uncached_def Let_def gradient_num_uncached_Fin [OF h] fst_conv snd_conv
      sx sy m1 m2 p
    by (simp add: dot_uncached_def gradient_uncached_def Let_def)
qed

lemma get_num_uncached_Fin:
  assumes h: "(\<bar>x\<bar> + 1) * 12.9898 + (\<bar>y\<bar> + 1) * 78.233 + \<bar>seed\<bar> < overflowBound"
  shows "get_num_uncached (Fin seed) (Fin x) (Fin y) = Fin (get_uncached seed x y)"
proof -
  define x0 where "x0 = \<lfloor>x\<rfloor>"
  define y0 where "y0 = \<lfloor>y\<rfloor>"
  define u where "u = x - of_int x0"
  define v where "v = y - of_int y0"
  have u: "0 \<le> u" "u \<le> 1" and v: "0 \<le> v" "v \<le> 1"
    unfolding u_def v_def x0_def y0_def by linarith+
  have ax: "\<bar>of_int x0 :: real\<bar> \<le> \<bar>x\<bar> + 1" "\<bar>of_int (x0 + 1) :: real\<bar> \<le> \<bar>x\<bar> + 1"
    unfolding x0_def by linarith+
  have ay: "\<bar>of_int y0 :: real\<bar> \<le> \<bar>y\<bar> + 1" "\<bar>of_int (y0 + 1) :: real\<bar> \<le> \<bar>y\<bar> + 1"
    unfolding y0_def by linarith+
  have hb: "\<bar>of_int i\<bar> * 12.9898 + \<bar>of_int j\<bar> * 78.233 + \<bar>seed\<bar> < overflowBound"
    if "\<bar>of_int i :: real\<bar> \<le> \<bar>x\<bar> + 1" "\<bar>of_int j :: real\<bar> \<le> \<bar>y\<bar> + 1" for i j :: int
  proof -
    have "\<bar>of_int i\<bar> * 12.9898 \<le> (\<bar>x\<bar> + 1) * (12.9898 :: real)"
      using that(1) by (intro mult_right_mono) simp_all
    moreover have "\<bar>of_int j\<bar> * 78.233 \<le> (\<bar>y\<bar> + 1) * (78.233 :: real)"
      using that(2) by (intro mult_right_mono) simp_all
    ultimately show ?thesis using h by linarith
  qed
  have big: "\<bar>x\<bar> + 1 < overflowBound" "\<bar>y\<bar> + 1 < overflowBound"
  proof -
    define P where "P = (\<bar>x\<bar> + 1) * (12.9898 :: real)"
    define Q where "Q = (\<bar>y\<bar> + 1) * (78.233 :: real)"
    have p: "\<bar>x\<bar> + 1 \<le> P"
      using mult_left_mono [of 1 "12.9898 :: real" "\<bar>x\<bar> + 1"] by (simp add: P_def)
    have q: "\<bar>y\<bar> + 1 \<le> Q"
      using mult_left_mono [of 1 "78.233 :: real" "\<bar>y\<bar> + 1"] by (simp add: Q_def)
    have z: "0 \<le> P" "0 \<le> Q"
      by (simp_all add: P_def Q_def)
    have t: "P + Q + \<bar>seed\<bar> < overflowBound"
      using h unfolding P_def Q_def .
    have s: "0 \<le> \<bar>seed\<bar>" by simp
    show "\<bar>x\<bar> + 1 < overflowBound" using p z t s by linarith
    show "\<bar>y\<bar> + 1 < overflowBound" using q z t s by linarith
  qed
  have fx: "num_floor (Fin x) = Fin (of_int x0)" and fy: "num_floor (Fin y) = Fin (of_int y0)"
    by (simp_all add: x0_def y0_def)
  have x1: "num_add (Fin (of_int x0)) (Fin 1) = Fin (of_int (x0 + 1))"
    using ax(2) big(1) by (simp add: num_of_Fin)
  have y1: "num_add (Fin (of_int y0)) (Fin 1) = Fin (of_int (y0 + 1))"
    using ay(2) big(2) by (simp add: num_of_Fin)
  have su: "num_sub (Fin x) (Fin (of_int x0)) = Fin u"
    unfolding u_def using u by (intro num_sub_Fin_direct) (simp add: u_def)
  have sv: "num_sub (Fin y) (Fin (of_int y0)) = Fin v"
    unfolding v_def using v by (intro num_sub_Fin_direct) (simp add: v_def)
  have d0: "\<bar>x - of_int x0\<bar> \<le> 1" "\<bar>x - of_int (x0 + 1)\<bar> \<le> 1"
    and e0: "\<bar>y - of_int y0\<bar> \<le> 1" "\<bar>y - of_int (y0 + 1)\<bar> \<le> 1"
    using u v by (simp_all add: u_def v_def)
  define n0 where "n0 = dot_uncached seed x0 y0 x y"
  define n1 where "n1 = dot_uncached seed (x0 + 1) y0 x y"
  define n2 where "n2 = dot_uncached seed x0 (y0 + 1) x y"
  define n3 where "n3 = dot_uncached seed (x0 + 1) (y0 + 1) x y"
  have N0: "dot_num_uncached (Fin seed) (Fin (of_int x0)) (Fin (of_int y0)) (Fin x) (Fin y)
              = Fin n0"
    unfolding n0_def by (rule dot_num_uncached_Fin [OF hb [OF ax(1) ay(1)] d0(1) e0(1)])
  have N1: "dot_num_uncached (Fin seed) (Fin (of_int (x0 + 1))) (Fin (of_int y0)) (Fin x) (Fin y)
              = Fin n1"
    unfolding n1_def by (rule dot_num_uncached_Fin [OF hb [OF ax(2) ay(1)] d0(2) e0(1)])
  have N2: "dot_num_uncached (Fin seed) (Fin (of_int x0)) (Fin (of_int (y0 + 1))) (Fin x) (Fin y)
              = Fin n2"
    unfolding n2_def by (rule dot_num_uncached_Fin [OF hb [OF ax(1) ay(2)] d0(1) e0(2)])
  have N3: "dot_num_uncached (Fin seed) (Fin (of_int (x0 + 1))) (Fin (of_int (y0 + 1)))
              (Fin x) (Fin y) = Fin n3"
    unfolding n3_def by (rule dot_num_uncached_Fin [OF hb [OF ax(2) ay(2)] d0(2) e0(2)])
  have b0: "\<bar>n0\<bar> \<le> 2"
    using dot_uncached_bound [of seed x0 y0 x y] d0 e0 unfolding n0_def by linarith
  have b1: "\<bar>n1\<bar> \<le> 2"
    using dot_uncached_bound [of seed "x0 + 1" y0 x y] d0 e0 unfolding n1_def by linarith
  have b2: "\<bar>n2\<bar> \<le> 2"
    using dot_uncached_bound [of seed x0 "y0 + 1" x y] d0 e0 unfolding n2_def by linarith
  have b3: "\<bar>n3\<bar> \<le> 2"
    using dot_uncached_bound [of seed "x0 + 1" "y0 + 1" x y] d0 e0 unfolding n3_def by linarith
  define sx where "sx = smootherstep u"
  define sy where "sy = smootherstep v"
  have sx: "0 \<le> sx" "sx \<le> 1" unfolding sx_def using smootherstep_bounds [OF u] by simp_all
  have sy: "0 \<le> sy" "sy \<le> 1" unfolding sy_def using smootherstep_bounds [OF v] by simp_all
  have SX: "smootherstep_num (Fin u) = Fin sx"
    unfolding sx_def by (rule smootherstep_num_Fin [OF u])
  have SY: "smootherstep_num (Fin v) = Fin sy"
    unfolding sy_def by (rule smootherstep_num_Fin [OF v])
  have L0: "lerp_num (Fin n0) (Fin n1) (Fin sx) = Fin (lerp n0 n1 sx)"
    by (rule lerp_num_Fin [OF sx b0 b1])
  have L1: "lerp_num (Fin n2) (Fin n3) (Fin sx) = Fin (lerp n2 n3 sx)"
    by (rule lerp_num_Fin [OF sx b2 b3])
  have c0: "\<bar>lerp n0 n1 sx\<bar> \<le> 2" by (rule lerp_le_2 [OF sx b0 b1])
  have c1: "\<bar>lerp n2 n3 sx\<bar> \<le> 2" by (rule lerp_le_2 [OF sx b2 b3])
  let ?L = "lerp (lerp n0 n1 sx) (lerp n2 n3 sx) sy"
  have L2: "lerp_num (Fin (lerp n0 n1 sx)) (Fin (lerp n2 n3 sx)) (Fin sy) = Fin ?L"
    by (rule lerp_num_Fin [OF sy c0 c1])
  have c2: "\<bar>?L\<bar> \<le> 2" by (rule lerp_le_2 [OF sy c0 c1])
  have M: "num_mul (Fin ?L) (Fin 0.5) = Fin (?L * 0.5)"
    by (rule num_mul_Fin [OF c2, of _ "0.5"]) simp_all
  have c3: "\<bar>?L * 0.5\<bar> \<le> 1" using c2 by simp
  have A: "num_add (Fin (?L * 0.5)) (Fin 0.5) = Fin (?L * 0.5 + 0.5)"
    by (rule num_add_Fin [OF c3, of _ "0.5"]) simp_all
  have "get_num_uncached (Fin seed) (Fin x) (Fin y) = Fin (?L * 0.5 + 0.5)"
    unfolding get_num_uncached_def Let_def fx fy x1 y1 su sv SX SY N0 N1 N2 N3 L0 L1 L2 M A ..
  moreover have "get_uncached seed x y = ?L * 0.5 + 0.5"
    by (simp add: get_uncached_def Let_def n0_def n1_def n2_def n3_def sx_def sy_def u_def v_def
          x0_def y0_def)
  ultimately show ?thesis by simp
qed

lemma nan_add: "num_add NaN b = NaN" "num_add a NaN = NaN"
  by (cases a; simp)+

lemma nan_mul: "num_mul NaN b = NaN" "num_mul a NaN = NaN"
  by (cases a; simp)+

lemma nan_sub: "num_sub NaN b = NaN" "num_sub a NaN = NaN"
  by (simp_all add: num_sub_def nan_add)

lemma PerlinNoise_random_num_overflow:
  assumes "overflowBound \<le> x * 12.9898"
  shows "PerlinNoise_random_num (Fin seed) (Fin x) (Fin 0) = NaN"
proof -
  have "0 < overflowBound" by (simp add: overflowBound_def)
  then have m: "num_mul (Fin x) (Fin 12.9898) = Infinity True"
    using assms by (simp add: num_of_def)
  have z: "num_mul (Fin 0) (Fin 78.233) = Fin 0"
    using \<open>0 < overflowBound\<close> by (simp add: num_of_def)
  show ?thesis
    unfolding PerlinNoise_random_num_def Let_def m z
    by (simp add: PerlinNoise_fract_num_def nan_sub nan_mul)
qed

lemma get_num_uncached_overflow:
  assumes "overflowBound \<le> of_int \<lfloor>x\<rfloor> * 12.9898"
  shows "get_num_uncached (Fin seed) (Fin x) (Fin 0) = NaN"
proof -
  have g: "gradient_num_uncached (Fin seed) (Fin (of_int \<lfloor>x\<rfloor>)) (Fin 0) = (NaN, NaN)"
    unfolding gradient_num_uncached_def Let_def PerlinNoise_random_num_overflow [OF assms]
    by (simp add: nan_mul)
  have d: "dot_num_uncached (Fin seed) (Fin (of_int \<lfloor>x\<rfloor>)) (Fin 0) (Fin x) (Fin 0) = NaN"
    unfolding dot_num_uncached_def Let_def g by (simp add: nan_mul nan_add)
  show ?thesis
    unfolding get_num_uncached_def Let_def
    by (simp add: d lerp_num_def nan_add nan_mul)
qed

section \<open>The perturbation pipeline and the closed-form generator\<close>

lemma pn_seed_new: "pn_seed (PerlinNoise_new s) = s"
  by (simp add: PerlinNoise_new_def)

lemma pu_fresh_fields:
  "pn_seed (pu_noise (pu_fresh pu)) = pn_seed (pu_noise pu)"
  "pn_seed (pu_secondaryNoise (pu_fresh pu)) = pn_seed (pu_secondaryNoise pu)"
  "pu_perturbationScale (pu_fresh pu) = pu_perturbationScale pu"
  "pu_noiseScale (pu_fresh pu) = pu_noiseScale pu"
  "pu_elevationNoiseScale (pu_fresh pu) = pu_elevationNoiseScale pu"
  "pu_elevationScale (pu_fresh pu) = pu_elevationScale pu"
  "pu_elevationPerturbationScale (pu_fresh pu) = pu_elevationPerturbationScale pu"
  "pu_baseHeightCm (pu_fresh pu) = pu_baseHeightCm pu"
  "pu_ridgeInfluence (pu_fresh pu) = pu_ridgeInfluence pu"
  "pu_valleyDepth (pu_fresh pu) = pu_valleyDepth pu"
  by (simp_all add: pu_fresh_def pn_seed_new)

lemma pu_ok_fresh: "pu_ok (pu_fresh pu)"
  by (simp add: pu_ok_def pu_fresh_def cache_ok_new)

lemma pu_fresh_idem: "pu_fresh (pu_fresh pu) = pu_fresh pu"
  by (simp add: pu_fresh_def pn_seed_new)

lemmas get_simps = PerlinNoise_get_value PerlinNoise_get_state

lemma getElevation_state:
  "pu_fresh (snd (getElevation x z pu)) = pu_fresh pu"
  "pu_ok pu \<Longrightarrow> pu_ok (snd (getElevation x z pu))"
  by (simp_all add: getElevation_def Let_def split_beta pu_fresh_def pu_ok_def get_simps)

lemma getElevation_expand:
  "pu_ok pu \<Longrightarrow> fst (getElevation x z pu) =
     (let e = pu_elevationNoiseScale pu;
          g1 = get_uncached (pn_seed (pu_noise pu));
          g2 = get_uncached (pn_seed (pu_secondaryNoise pu));
          primaryNoise = g1 (x * e) (z * e);
          secondaryNoise = g2 (x * e * 1.3) (z * e * 1.3);
          elevation0 = primaryNoise + 0.5 * g1 (x * e * 2) (z * e * 2) +
                       0.25 * g1 (x * e * 4) (z * e * 4) + 0.125 * g1 (x * e * 8) (z * e * 8);
          secondaryElevation0 = secondaryNoise + 0.4 * g2 (x * e * 2.5) (z * e * 2.5) +
                       0.2 * g2 (x * e * 5) (z * e * 5);
          ridgeNoise = (\<bar>primaryNoise * 2 - 1\<bar> powr 1.5) * pu_ridgeInfluence pu;
          valleyNoise = ((1 - \<bar>secondaryNoise * 2 - 1\<bar>) ^ 2) * pu_valleyDepth pu;
          finalElevation = ((elevation0 / 1.875) * 0.65 + (secondaryElevation0 / 1.6) * 0.35 +
                       ridgeNoise - valleyNoise) * pu_elevationScale pu + pu_baseHeightCm pu / 25
      in of_int (js_round (finalElevation * 100)) / 100)"
  by (simp add: getElevation_def Let_def split_beta pu_ok_def get_simps)

lemma getElevation_value:
  "pu_ok pu \<Longrightarrow> fst (getElevation x z pu) = elevationOf (pu_fresh pu) x z"
  unfolding elevationOf_def
  by (simp only: getElevation_expand pu_ok_fresh pu_fresh_fields)

lemma perturbY_state:
  "pu_fresh (snd (perturbY x y z pu)) = pu_fresh pu"
  "pu_ok pu \<Longrightarrow> pu_ok (snd (perturbY x y z pu))"
  by (simp_all add: perturbY_def Let_def split_beta pu_fresh_def pu_ok_def get_simps)

lemma perturbY_expand:
  "pu_ok pu \<Longrightarrow> fst (perturbY x y z pu) =
     (let e = pu_elevationNoiseScale pu;
          g1 = get_uncached (pn_seed (pu_noise pu));
          g2 = get_uncached (pn_seed (pu_secondaryNoise pu));
          primaryNoise = g1 (x * e + 300) (z * e + 300);
          secondaryNoise = g2 (x * e * 1.7 + 500) (z * e * 1.7 + 500);
          ridgeNoise = \<bar>primaryNoise * 2 - 1\<bar> * pu_ridgeInfluence pu;
          valleyNoise = (1 - \<bar>secondaryNoise * 2 - 1\<bar>) * pu_valleyDepth pu;
          combinedNoise = primaryNoise * 0.6 + ridgeNoise * 0.3 - valleyNoise * 0.3 +
                          secondaryNoise * 0.4 + g1 (x * e * 5 + 700) (z * e * 5 + 700) * 0.2;
          perturbation = (combinedNoise * 2 - 1) * pu_elevationPerturbationScale pu
      in of_int (js_round ((y + perturbation) * 100)) / 100)"
  by (simp add: perturbY_def Let_def split_beta pu_ok_def get_simps)

lemma perturbY_value:
  "pu_ok pu \<Longrightarrow> fst (perturbY x y z pu) = perturbYOf (pu_fresh pu) x y z"
  unfolding perturbYOf_def
  by (simp only: perturbY_expand pu_ok_fresh pu_fresh_fields)

lemma perturbXZ_state:
  "pu_fresh (snd (perturbXZ x z pu)) = pu_fresh pu"
  "pu_ok pu \<Longrightarrow> pu_ok (snd (perturbXZ x z pu))"
  by (simp_all add: perturbXZ_def Let_def split_beta pu_fresh_def pu_ok_def get_simps)

lemma perturbXZ_expand:
  "pu_ok pu \<Longrightarrow> fst (perturbXZ x z pu) =
     (let s = pu_noiseScale pu;
          g1 = get_uncached (pn_seed (pu_noise pu));
          g2 = get_uncached (pn_seed (pu_secondaryNoise pu));
          primaryNoiseX = g1 (x * s) (z * s);
          primaryNoiseZ = g1 (x * s + 200) (z * s + 200);
          secondaryNoiseX = g2 (x * s * 1.7 + 300) (z * s * 1.7);
          secondaryNoiseZ = g2 (x * s * 1.7) (z * s * 1.7 + 300);
          detailNoiseX = g1 (x * s * 4 + 700) (z * s * 4) * 0.2;
          detailNoiseZ = g1 (x * s * 4) (z * s * 4 + 700) * 0.2;
          finalNoiseX = (primaryNoiseX * 0.6 + secondaryNoiseX * 0.3 + detailNoiseX) * 0.85 +
                        primaryNoiseZ * 0.15;
          finalNoiseZ = (primaryNoiseZ * 0.6 + secondaryNoiseZ * 0.3 + detailNoiseZ) * 0.85 +
                        primaryNoiseX * 0.15
      in (x + (finalNoiseX * 2 - 1) * pu_perturbationScale pu * (1 + secondaryNoiseX * 0.5),
          z + (finalNoiseZ * 2 - 1) * pu_perturbationScale pu * (1 + secondaryNoiseZ * 0.5)))"
  by (simp add: perturbXZ_def Let_def split_beta pu_ok_def get_simps)

lemma perturbXZ_value:
  "pu_ok pu \<Longrightarrow> fst (perturbXZ x z pu) = perturbXZOf (pu_fresh pu) x z"
  unfolding perturbXZOf_def
  by (simp only: perturbXZ_expand pu_ok_fresh pu_fresh_fields)

lemmas pu_simps = getElevation_value getElevation_state perturbY_value perturbY_state
  perturbXZ_value perturbXZ_state pu_fresh_idem pu_ok_fresh

lemma hu_fresh_simps:
  "hu_perturbUtils (hu_fresh hu) = pu_fresh (hu_perturbUtils hu)"
  "hu_effectiveSize (hu_fresh hu) = hu_effectiveSize hu"
  "hu_width (hu_fresh hu) = hu_width hu"
  "hu_height (hu_fresh hu) = hu_height hu"
  "hu_hexGap (hu_fresh hu) = hu_hexGap hu"
  "hu_fresh (hu_fresh hu) = hu_fresh hu"
  "hu_ok (hu_fresh hu)"
  by (simp_all add: hu_fresh_def hu_ok_def pu_fresh_idem pu_ok_fresh)

lemma getHexVertex_state:
  "hu_fresh (snd (getHexVertex cx cz i hu)) = hu_fresh hu"
  "hu_ok hu \<Longrightarrow> hu_ok (snd (getHexVertex cx cz i hu))"
  by (simp_all add: getHexVertex_def Let_def split_beta hu_fresh_def hu_ok_def pu_simps)

lemma getHexVertex_expand:
  "hu_ok hu \<Longrightarrow> fst (getHexVertex cx cz i hu) =
     (let F = pu_fresh (hu_perturbUtils hu);
          angle = (pi / 180) * (angles ! i);
          p = perturbXZOf F (cx + hu_effectiveSize hu * cos angle) (cz + hu_effectiveSize hu * sin angle)
      in (fst p, perturbYOf F cx (elevationOf F cx cz) cz, snd p))"
  by (simp add: getHexVertex_def Let_def split_beta hu_ok_def pu_simps)

lemma centerHeight_expand:
  "hu_ok hu \<Longrightarrow> centerHeight hu cx cz =
     (let F = pu_fresh (hu_perturbUtils hu) in perturbYOf F cx (elevationOf F cx cz) cz)"
  by (simp add: centerHeight_def Let_def split_beta hu_ok_def pu_simps)

lemma getHexVertex_height:
  "hu_ok hu \<Longrightarrow> height (fst (getHexVertex cx cz i hu)) = centerHeight hu cx cz"
  by (simp add: getHexVertex_expand centerHeight_expand height_def Let_def)

lemma centerHeight_fresh: "centerHeight (hu_fresh hu) cx cz = centerHeight hu cx cz"
  if "hu_ok hu"
  using that by (simp add: centerHeight_expand hu_fresh_simps pu_fresh_idem Let_def)

lemma hexVerticesLoop_state:
  "hu_fresh (snd (hexVerticesLoop cx cz is hu)) = hu_fresh hu"
  "hu_ok hu \<Longrightarrow> hu_ok (snd (hexVerticesLoop cx cz is hu))"
  by (induction "is" arbitrary: hu) (simp_all add: Let_def split_beta getHexVertex_state)

lemma hexVerticesLoop_length: "length (fst (hexVerticesLoop cx cz is hu)) = length is"
  by (induction "is" arbitrary: hu) (simp_all add: Let_def split_beta)

lemma hexVerticesLoop_value:
  "hu_ok hu \<Longrightarrow> fst (hexVerticesLoop cx cz is hu) = fst (hexVerticesLoop cx cz is (hu_fresh hu))"
proof (induction "is" arbitrary: hu)
  case Nil
  show ?case by simp
next
  case (Cons i rest)
  have v: "fst (getHexVertex cx cz i hu) = fst (getHexVertex cx cz i (hu_fresh hu))"
    using Cons.prems by (simp add: getHexVertex_expand hu_fresh_simps pu_fresh_idem)
  have t: "fst (hexVerticesLoop cx cz rest (snd (getHexVertex cx cz i hu))) =
           fst (hexVerticesLoop cx cz rest (snd (getHexVertex cx cz i (hu_fresh hu))))"
    using Cons.IH [of "snd (getHexVertex cx cz i hu)"]
          Cons.IH [of "snd (getHexVertex cx cz i (hu_fresh hu))"] Cons.prems
    by (simp add: getHexVertex_state hu_fresh_simps)
  show ?case by (simp add: Let_def split_beta v t)
qed

lemma hexVerticesLoop_heights:
  "hu_ok hu \<Longrightarrow>
     map height (fst (hexVerticesLoop cx cz is hu)) = replicate (length is) (centerHeight hu cx cz)"
proof (induction "is" arbitrary: hu)
  case Nil
  show ?case by simp
next
  case (Cons i rest)
  let ?h1 = "snd (getHexVertex cx cz i hu)"
  have ok1: "hu_ok ?h1" using Cons.prems by (simp add: getHexVertex_state)
  have "centerHeight ?h1 cx cz = centerHeight (hu_fresh ?h1) cx cz"
    using ok1 by (simp add: centerHeight_fresh)
  also have "\<dots> = centerHeight hu cx cz"
    using Cons.prems by (simp add: getHexVertex_state centerHeight_fresh)
  finally have c: "centerHeight ?h1 cx cz = centerHeight hu cx cz" .
  show ?case
    using Cons.IH [OF ok1] Cons.prems
    by (simp add: Let_def split_beta getHexVertex_height c)
qed

lemma generateHexVertices_state:
  "hu_fresh (snd (generateHexVertices cx cz hu)) = hu_fresh hu"
  "hu_ok hu \<Longrightarrow> hu_ok (snd (generateHexVertices cx cz hu))"
  unfolding generateHexVertices_def
  by (rule hexVerticesLoop_state(1), rule hexVerticesLoop_state(2))

lemma generateHexVertices_value:
  "hu_ok hu \<Longrightarrow> fst (generateHexVertices cx cz hu) = verticesOf (hu_fresh hu) cx cz"
  unfolding verticesOf_def generateHexVertices_def by (rule hexVerticesLoop_value)

lemma generateHexVertices_length: "length (fst (generateHexVertices cx cz hu)) = 6"
proof -
  have "length (fst (hexVerticesLoop cx cz [0, 1, 2, 3, 4, 5] hu)) = length [0, 1, 2, 3, 4, 5 :: nat]"
    by (rule hexVerticesLoop_length)
  moreover have "length [0, 1, 2, 3, 4, 5 :: nat] = 6" by simp
  ultimately show ?thesis unfolding generateHexVertices_def by (simp only:)
qed

lemma generateHexVertices_heights:
  assumes "hu_ok hu"
  shows "map height (fst (generateHexVertices cx cz hu)) = replicate 6 (centerHeight hu cx cz)"
proof -
  have "map height (fst (hexVerticesLoop cx cz [0, 1, 2, 3, 4, 5] hu)) =
          replicate (length [0, 1, 2, 3, 4, 5 :: nat]) (centerHeight hu cx cz)"
    by (rule hexVerticesLoop_heights [OF assms])
  moreover have "length [0, 1, 2, 3, 4, 5 :: nat] = 6" by simp
  ultimately show ?thesis unfolding generateHexVertices_def by (simp only:)
qed

lemma centerOf_fresh: "centerOf (hu_fresh hu) c = centerOf hu c"
  by (simp add: centerOf_def hu_fresh_simps)

lemma HexUtils_getNeighbor_result:
  assumes ok: "hu_ok hu"
    and nc: "HexUtils_getNeighborCoords (hc_gridCoords hex) d = Some c"
  shows "\<exists>hu'. HexUtils_getNeighbor hex d hu =
           Some (\<lparr>hc_gridCoords = c,
                  hc_center = (fst (centerOf hu c),
                               centerHeight hu (fst (centerOf hu c)) (snd (centerOf hu c)),
                               snd (centerOf hu c)),
                  hc_vertices = verticesOf (hu_fresh hu) (fst (centerOf hu c)) (snd (centerOf hu c)),
                  hc_elevation = centerHeight hu (fst (centerOf hu c)) (snd (centerOf hu c)),
                  hc_biomeIndex =
                    \<lfloor>fst (getElevation (fst (centerOf hu c)) (snd (centerOf hu c))
                            (hu_perturbUtils hu)) * 4\<rfloor>,
                  hc_featureIndex = 0\<rparr>, hu') \<and>
         hu_ok hu' \<and> hu_fresh hu' = hu_fresh hu"
proof -
  obtain ncol nrow where c: "c = (ncol, nrow)" by (cases c)
  let ?cx = "fst (centerOf hu c)" and ?cz = "snd (centerOf hu c)"
  let ?pu1 = "snd (getElevation ?cx ?cz (hu_perturbUtils hu))"
  let ?e = "fst (getElevation ?cx ?cz (hu_perturbUtils hu))"
  let ?pu2 = "snd (perturbY ?cx ?e ?cz ?pu1)"
  let ?hu2 = "hu\<lparr>hu_perturbUtils := ?pu2\<rparr>"
  have ok2: "hu_ok ?hu2"
    using ok by (simp add: hu_ok_def pu_simps)
  have f2: "hu_fresh ?hu2 = hu_fresh hu"
    by (simp add: hu_fresh_def pu_simps)
  have v: "fst (generateHexVertices ?cx ?cz ?hu2) = verticesOf (hu_fresh hu) ?cx ?cz"
    using generateHexVertices_value [OF ok2] f2 by simp
  have okr: "hu_ok (snd (generateHexVertices ?cx ?cz ?hu2))"
    using ok2 by (rule generateHexVertices_state(2))
  have fr: "hu_fresh (snd (generateHexVertices ?cx ?cz ?hu2)) = hu_fresh hu"
    using generateHexVertices_state(1) [of ?cx ?cz ?hu2] f2 by simp
  have h: "fst (perturbY ?cx ?e ?cz ?pu1) = centerHeight hu ?cx ?cz"
    by (simp add: centerHeight_def split_beta)
  have "HexUtils_getNeighbor hex d hu =
          Some (\<lparr>hc_gridCoords = c,
                 hc_center = (?cx, fst (perturbY ?cx ?e ?cz ?pu1), ?cz),
                 hc_vertices = fst (generateHexVertices ?cx ?cz ?hu2),
                 hc_elevation = fst (perturbY ?cx ?e ?cz ?pu1),
                 hc_biomeIndex = \<lfloor>?e * 4\<rfloor>,
                 hc_featureIndex = 0\<rparr>, snd (generateHexVertices ?cx ?cz ?hu2))"
    using nc c by (simp add: HexUtils_getNeighbor_def centerOf_def Let_def split_beta)
  then show ?thesis
    using v okr fr h by simp
qed

lemma get_uncached_Ints: "x \<in> \<int> \<Longrightarrow> y \<in> \<int> \<Longrightarrow> get_uncached seed x y = 1 / 2"
  by (auto simp: Ints_def get_uncached_lattice)

lemma default_params:
  "pu_elevationNoiseScale (PerturbationUtils_default r1 r2) = 0.025"
  "pu_elevationScale (PerturbationUtils_default r1 r2) = 12"
  "pu_elevationPerturbationScale (PerturbationUtils_default r1 r2) = 3"
  "pu_baseHeightCm (PerturbationUtils_default r1 r2) = 5"
  "pu_ridgeInfluence (PerturbationUtils_default r1 r2) = 0.4"
  "pu_valleyDepth (PerturbationUtils_default r1 r2) = 0.6"
  "pu_ok (PerturbationUtils_default r1 r2)"
  by (simp_all add: PerturbationUtils_default_def PerturbationUtils_new_def pu_ok_def cache_ok_new)

lemma defaultParams_values:
  assumes "defaultParams pu"
  shows "pu_elevationNoiseScale pu = 1 / 40" "pu_elevationScale pu = 12"
    "pu_elevationPerturbationScale pu = 3" "pu_baseHeightCm pu = 5"
    "pu_ridgeInfluence pu = 2 / 5" "pu_valleyDepth pu = 3 / 5"
  using assms by (simp_all add: defaultParams_def)

lemma elevation_at_origin:
  assumes "pu_ok pu" "defaultParams pu"
  shows "fst (getElevation 0 0 pu) = -1"
  by (simp add: getElevation_expand [OF assms(1)] defaultParams_values [OF assms(2)] Let_def
        get_uncached_Ints js_round_def)

lemma perturbY_at_origin:
  assumes "pu_ok pu" "defaultParams pu"
  shows "fst (perturbY 0 (-1) 0 pu) = -1.48"
  by (simp add: perturbY_expand [OF assms(1)] defaultParams_values [OF assms(2)] Let_def
        get_uncached_Ints js_round_def)

lemma centerOf_same: "hu_fresh hu' = hu_fresh hu \<Longrightarrow> centerOf hu' c = centerOf hu c"
  using centerOf_fresh [of hu' c] centerOf_fresh [of hu c] by simp

lemma nbrVertices_same:
  assumes e: "hu_fresh hu' = hu_fresh hu"
  shows "nbrVertices hu' c d = nbrVertices hu c d"
proof -
  have "centerOf hu' = centerOf hu"
    by (rule ext) (rule centerOf_same [OF e])
  then show ?thesis
    by (cases "HexUtils_getNeighborCoords c d") (simp_all add: nbrVertices_def e)
qed

lemma verticesOf_length: "length (verticesOf q cx cz) = 6"
  by (simp add: verticesOf_def generateHexVertices_length)

lemma HexUtils_getNeighbor_vertices:
  assumes ok: "hu_ok hu" and d: "d \<in> set directions"
  shows "\<exists>nb hu'. HexUtils_getNeighbor hex d hu = Some (nb, hu') \<and>
           hc_vertices nb = nbrVertices hu (hc_gridCoords hex) d \<and>
           length (hc_vertices nb) = 6 \<and> hu_ok hu' \<and> hu_fresh hu' = hu_fresh hu"
proof -
  obtain c where c: "HexUtils_getNeighborCoords (hc_gridCoords hex) d = Some c"
    using directions_cases [OF d]
    by (auto simp: HexUtils_getNeighborCoords_def directionTable_def Let_def)
  from HexUtils_getNeighbor_result [OF ok c]
  show ?thesis using c by (auto simp: nbrVertices_def verticesOf_length)
qed

lemma HexGeneratorU_skirt_core:
  assumes ok: "hu_ok hu"
    and six: "length (hc_vertices hex) = 6"
    and t: "oppositeDirection d = Some o1" "edgeVertexMap d = Some (a, b)" "a < 6" "b < 6"
       "edgeVertexMap o1 = Some (c, e)" "c < 6" "e < 6"
       "clockwiseDirection d = Some cw" "oppositeDirection cw = Some o2"
       "edgeVertexMap o2 = Some (f, g)" "g < 6"
       "d \<in> set directions" "cw \<in> set directions"
    and mok: "meshOk m"
  shows "\<exists>m' hu'. HexGeneratorU_skirt hex d (m, hu) = Some (m', hu') \<and>
           hu_ok hu' \<and> hu_fresh hu' = hu_fresh hu \<and> meshOk m' \<and>
           positions m' = positions m @
             [hc_vertices hex ! a, hc_vertices hex ! b, nbrVertices hu (hc_gridCoords hex) d ! c,
              hc_vertices hex ! a, nbrVertices hu (hc_gridCoords hex) d ! c,
              nbrVertices hu (hc_gridCoords hex) d ! e,
              hc_vertices hex ! b, nbrVertices hu (hc_gridCoords hex) d ! c,
              nbrVertices hu (hc_gridCoords hex) cw ! g] \<and>
           indices m' = indices m @
             [(length (positions m), length (positions m) + 1, length (positions m) + 2),
              (length (positions m) + 3, length (positions m) + 4, length (positions m) + 5),
              (length (positions m) + 6, length (positions m) + 8, length (positions m) + 7)] \<and>
           skirtTriangleCount m' = skirtTriangleCount m + 2 \<and>
           cornerTriangleCount m' = cornerTriangleCount m + 1"
proof -
  from HexUtils_getNeighbor_vertices [OF ok t(12), of hex]
  obtain nb hu1 where
    n1: "HexUtils_getNeighbor hex d hu = Some (nb, hu1)" and
    v1: "hc_vertices nb = nbrVertices hu (hc_gridCoords hex) d" and
    l1: "length (hc_vertices nb) = 6" and
    ok1: "hu_ok hu1" and f1: "hu_fresh hu1 = hu_fresh hu"
    by blast
  from HexUtils_getNeighbor_vertices [OF ok1 t(13), of hex]
  obtain cwn hu2 where
    n2: "HexUtils_getNeighbor hex cw hu1 = Some (cwn, hu2)" and
    v2: "hc_vertices cwn = nbrVertices hu1 (hc_gridCoords hex) cw" and
    l2: "length (hc_vertices cwn) = 6" and
    ok2: "hu_ok hu2" and f2: "hu_fresh hu2 = hu_fresh hu1"
    by blast
  have v2': "hc_vertices cwn = nbrVertices hu (hc_gridCoords hex) cw"
    using v2 nbrVertices_same [OF f1] by simp
  let ?m1 = "pushTriangle False (0, 0, -1)
               (hc_vertices hex ! a, hc_vertices hex ! b, hc_vertices nb ! c) m"
  let ?m2 = "pushTriangle False (0, 0, -1)
               (hc_vertices hex ! a, hc_vertices nb ! c, hc_vertices nb ! e) ?m1"
  let ?m3 = "pushTriangle True (0, 1, 0)
               (hc_vertices hex ! b, hc_vertices nb ! c, hc_vertices cwn ! g) ?m2"
  have r: "HexGeneratorU_skirt hex d (m, hu) = Some (?m3, hu2)"
    using n1 n2 t six l1 l2 by (simp add: HexGeneratorU_skirt_def vertexAt_def)
  have ok3: "meshOk ?m3" using mok by (simp add: meshOk_push)
  have sk: "skirtTriangleCount ?m3 = skirtTriangleCount m + 2"
    using mok by (simp add: skirt_count_push meshOk_push)
  have co: "cornerTriangleCount ?m3 = cornerTriangleCount m + 1"
    using mok by (simp add: corner_count_push meshOk_push)
  have ps: "positions ?m3 = positions m @
             [hc_vertices hex ! a, hc_vertices hex ! b, hc_vertices nb ! c,
              hc_vertices hex ! a, hc_vertices nb ! c, hc_vertices nb ! e,
              hc_vertices hex ! b, hc_vertices nb ! c, hc_vertices cwn ! g]"
    by (simp add: pushTriangle_def Let_def)
  have ix: "indices ?m3 = indices m @
             [(length (positions m), length (positions m) + 1, length (positions m) + 2),
              (length (positions m) + 3, length (positions m) + 4, length (positions m) + 5),
              (length (positions m) + 6, length (positions m) + 8, length (positions m) + 7)]"
    by (simp add: pushTriangle_def Let_def)
  show ?thesis
    using r ok2 f1 f2 ok3 sk co ps ix v1 v2' by simp
qed

lemma skirtPositions_same:
  assumes e: "hu_fresh hu' = hu_fresh hu"
  shows "skirtPositions hu' c V = skirtPositions hu c V"
  unfolding skirtPositions_def by (simp only: nbrVertices_same [OF e])

lemma skirt_tables:
  "oppositeDirection ''SE'' = Some ''NW''" "edgeVertexMap ''SE'' = Some (0, 1)"
  "edgeVertexMap ''NW'' = Some (3, 4)" "clockwiseDirection ''SE'' = Some ''S''"
  "oppositeDirection ''S'' = Some ''N''" "edgeVertexMap ''N'' = Some (4, 5)"
  "edgeVertexMap ''S'' = Some (1, 2)" "clockwiseDirection ''S'' = Some ''SW''"
  "oppositeDirection ''SW'' = Some ''NE''" "edgeVertexMap ''NE'' = Some (5, 0)"
  "edgeVertexMap ''SW'' = Some (2, 3)" "clockwiseDirection ''SW'' = Some ''NW''"
  "oppositeDirection ''NW'' = Some ''SE''"
  "''SE'' \<in> set directions" "''S'' \<in> set directions" "''SW'' \<in> set directions"
  "''NW'' \<in> set directions"
  by (simp_all add: oppositeDirection_def edgeVertexMap_def clockwiseDirection_def directions_def)

lemma HexGeneratorU_skirt_SE:
  assumes "hu_ok hu" "length (hc_vertices hex) = 6" "meshOk m"
  shows "\<exists>m' hu'. HexGeneratorU_skirt hex ''SE'' (m, hu) = Some (m', hu') \<and>
           hu_ok hu' \<and> hu_fresh hu' = hu_fresh hu \<and> meshOk m' \<and>
           positions m' = positions m @
             [hc_vertices hex ! 0, hc_vertices hex ! 1, nbrVertices hu (hc_gridCoords hex) ''SE'' ! 3,
              hc_vertices hex ! 0, nbrVertices hu (hc_gridCoords hex) ''SE'' ! 3,
              nbrVertices hu (hc_gridCoords hex) ''SE'' ! 4,
              hc_vertices hex ! 1, nbrVertices hu (hc_gridCoords hex) ''SE'' ! 3,
              nbrVertices hu (hc_gridCoords hex) ''S'' ! 5] \<and>
           indices m' = indices m @
             [(length (positions m), length (positions m) + 1, length (positions m) + 2),
              (length (positions m) + 3, length (positions m) + 4, length (positions m) + 5),
              (length (positions m) + 6, length (positions m) + 8, length (positions m) + 7)] \<and>
           skirtTriangleCount m' = skirtTriangleCount m + 2 \<and>
           cornerTriangleCount m' = cornerTriangleCount m + 1"
  by (rule HexGeneratorU_skirt_core [OF assms(1,2) _ _ _ _ _ _ _ _ _ _ _ _ _ assms(3),
        where ?o1.0 = "''NW''" and cw = "''S''" and ?o2.0 = "''N''" and f = 4])
     (simp_all add: skirt_tables)

lemma HexGeneratorU_skirt_S:
  assumes "hu_ok hu" "length (hc_vertices hex) = 6" "meshOk m"
  shows "\<exists>m' hu'. HexGeneratorU_skirt hex ''S'' (m, hu) = Some (m', hu') \<and>
           hu_ok hu' \<and> hu_fresh hu' = hu_fresh hu \<and> meshOk m' \<and>
           positions m' = positions m @
             [hc_vertices hex ! 1, hc_vertices hex ! 2, nbrVertices hu (hc_gridCoords hex) ''S'' ! 4,
              hc_vertices hex ! 1, nbrVertices hu (hc_gridCoords hex) ''S'' ! 4,
              nbrVertices hu (hc_gridCoords hex) ''S'' ! 5,
              hc_vertices hex ! 2, nbrVertices hu (hc_gridCoords hex) ''S'' ! 4,
              nbrVertices hu (hc_gridCoords hex) ''SW'' ! 0] \<and>
           indices m' = indices m @
             [(length (positions m), length (positions m) + 1, length (positions m) + 2),
              (length (positions m) + 3, length (positions m) + 4, length (positions m) + 5),
              (length (positions m) + 6, length (positions m) + 8, length (positions m) + 7)] \<and>
           skirtTriangleCount m' = skirtTriangleCount m + 2 \<and>
           cornerTriangleCount m' = cornerTriangleCount m + 1"
  by (rule HexGeneratorU_skirt_core [OF assms(1,2) _ _ _ _ _ _ _ _ _ _ _ _ _ assms(3),
        where ?o1.0 = "''N''" and cw = "''SW''" and ?o2.0 = "''NE''" and f = 5])
     (simp_all add: skirt_tables)

lemma HexGeneratorU_skirt_SW:
  assumes "hu_ok hu" "length (hc_vertices hex) = 6" "meshOk m"
  shows "\<exists>m' hu'. HexGeneratorU_skirt hex ''SW'' (m, hu) = Some (m', hu') \<and>
           hu_ok hu' \<and> hu_fresh hu' = hu_fresh hu \<and> meshOk m' \<and>
           positions m' = positions m @
             [hc_vertices hex ! 2, hc_vertices hex ! 3, nbrVertices hu (hc_gridCoords hex) ''SW'' ! 5,
              hc_vertices hex ! 2, nbrVertices hu (hc_gridCoords hex) ''SW'' ! 5,
              nbrVertices hu (hc_gridCoords hex) ''SW'' ! 0,
              hc_vertices hex ! 3, nbrVertices hu (hc_gridCoords hex) ''SW'' ! 5,
              nbrVertices hu (hc_gridCoords hex) ''NW'' ! 1] \<and>
           indices m' = indices m @
             [(length (positions m), length (positions m) + 1, length (positions m) + 2),
              (length (positions m) + 3, length (positions m) + 4, length (positions m) + 5),
              (length (positions m) + 6, length (positions m) + 8, length (positions m) + 7)] \<and>
           skirtTriangleCount m' = skirtTriangleCount m + 2 \<and>
           cornerTriangleCount m' = cornerTriangleCount m + 1"
  by (rule HexGeneratorU_skirt_core [OF assms(1,2) _ _ _ _ _ _ _ _ _ _ _ _ _ assms(3),
        where ?o1.0 = "''NE''" and cw = "''NW''" and ?o2.0 = "''SE''" and f = 0])
     (simp_all add: skirt_tables)

lemma HexGeneratorU_createHexGeometry_result:
  assumes ok: "hu_ok hu" and six: "length (hc_vertices hex) = 6"
  shows "\<exists>m hu'. HexGeneratorU_createHexGeometry hex hu = Some (m, hu') \<and>
           hu_ok hu' \<and> hu_fresh hu' = hu_fresh hu \<and>
           positions m =
             (fst (hc_center hex), height (hc_vertices hex ! 0), snd (snd (hc_center hex))) #
             hc_vertices hex @ skirtPositions hu (hc_gridCoords hex) (hc_vertices hex) \<and>
           drop 6 (indices m) = skirtIndices \<and> length (indices m) = 15 \<and>
           skirtTriangleCount m = 6 \<and> cornerTriangleCount m = 3"
proof -
  obtain v0 rest where vs: "hc_vertices hex = v0 # rest"
    using six by (cases "hc_vertices hex") auto
  let ?V = "hc_vertices hex"
  let ?c = "(fst (hc_center hex), fst (snd v0), snd (snd (hc_center hex)))"
  let ?cap = "capMesh True ?c ?V"
  let ?g = "hc_gridCoords hex"
  note shape = capShape_counts [OF capMesh_shape [of True ?c ?V]]
  have lp: "length (positions ?cap) = 7" by (simp add: capMesh_positions six)
  have li: "length (indices ?cap) = 6" by (simp add: capMesh_triangles six)
  from HexGeneratorU_skirt_SE [OF ok six shape(1)]
  obtain m1 hu1 where
    s1: "HexGeneratorU_skirt hex ''SE'' (?cap, hu) = Some (m1, hu1)" and
    ok1: "hu_ok hu1" and f1: "hu_fresh hu1 = hu_fresh hu" and mk1: "meshOk m1" and
    p1: "positions m1 = positions ?cap @
           [?V ! 0, ?V ! 1, nbrVertices hu ?g ''SE'' ! 3, ?V ! 0, nbrVertices hu ?g ''SE'' ! 3,
            nbrVertices hu ?g ''SE'' ! 4, ?V ! 1, nbrVertices hu ?g ''SE'' ! 3,
            nbrVertices hu ?g ''S'' ! 5]" and
    i1: "indices m1 = indices ?cap @
           [(length (positions ?cap), length (positions ?cap) + 1, length (positions ?cap) + 2),
            (length (positions ?cap) + 3, length (positions ?cap) + 4, length (positions ?cap) + 5),
            (length (positions ?cap) + 6, length (positions ?cap) + 8, length (positions ?cap) + 7)]" and
    k1: "skirtTriangleCount m1 = skirtTriangleCount ?cap + 2" and
    c1: "cornerTriangleCount m1 = cornerTriangleCount ?cap + 1"
    by blast
  have lp1: "length (positions m1) = 16" using p1 lp by simp
  from HexGeneratorU_skirt_S [OF ok1 six mk1]
  obtain m2 hu2 where
    s2: "HexGeneratorU_skirt hex ''S'' (m1, hu1) = Some (m2, hu2)" and
    ok2: "hu_ok hu2" and f2: "hu_fresh hu2 = hu_fresh hu1" and mk2: "meshOk m2" and
    p2: "positions m2 = positions m1 @
           [?V ! 1, ?V ! 2, nbrVertices hu1 ?g ''S'' ! 4, ?V ! 1, nbrVertices hu1 ?g ''S'' ! 4,
            nbrVertices hu1 ?g ''S'' ! 5, ?V ! 2, nbrVertices hu1 ?g ''S'' ! 4,
            nbrVertices hu1 ?g ''SW'' ! 0]" and
    i2: "indices m2 = indices m1 @
           [(length (positions m1), length (positions m1) + 1, length (positions m1) + 2),
            (length (positions m1) + 3, length (positions m1) + 4, length (positions m1) + 5),
            (length (positions m1) + 6, length (positions m1) + 8, length (positions m1) + 7)]" and
    k2: "skirtTriangleCount m2 = skirtTriangleCount m1 + 2" and
    c2: "cornerTriangleCount m2 = cornerTriangleCount m1 + 1"
    by blast
  have lp2: "length (positions m2) = 25" using p2 lp1 by simp
  from HexGeneratorU_skirt_SW [OF ok2 six mk2]
  obtain m3 hu3 where
    s3: "HexGeneratorU_skirt hex ''SW'' (m2, hu2) = Some (m3, hu3)" and
    ok3: "hu_ok hu3" and f3: "hu_fresh hu3 = hu_fresh hu2" and mk3: "meshOk m3" and
    p3: "positions m3 = positions m2 @
           [?V ! 2, ?V ! 3, nbrVertices hu2 ?g ''SW'' ! 5, ?V ! 2, nbrVertices hu2 ?g ''SW'' ! 5,
            nbrVertices hu2 ?g ''SW'' ! 0, ?V ! 3, nbrVertices hu2 ?g ''SW'' ! 5,
            nbrVertices hu2 ?g ''NW'' ! 1]" and
    i3: "indices m3 = indices m2 @
           [(length (positions m2), length (positions m2) + 1, length (positions m2) + 2),
            (length (positions m2) + 3, length (positions m2) + 4, length (positions m2) + 5),
            (length (positions m2) + 6, length (positions m2) + 8, length (positions m2) + 7)]" and
    k3: "skirtTriangleCount m3 = skirtTriangleCount m2 + 2" and
    c3: "cornerTriangleCount m3 = cornerTriangleCount m2 + 1"
    by blast
  have f2': "hu_fresh hu2 = hu_fresh hu" using f2 f1 by simp
  have f3': "hu_fresh hu3 = hu_fresh hu" using f3 f2' by simp
  have r: "HexGeneratorU_createHexGeometry hex hu = Some (m3, hu3)"
    using s1 s2 s3 vs by (simp add: HexGeneratorU_createHexGeometry_def skirtDirections_def)
  have n1: "nbrVertices hu1 ?g d = nbrVertices hu ?g d" for d
    by (rule nbrVertices_same [OF f1])
  have n2: "nbrVertices hu2 ?g d = nbrVertices hu ?g d" for d
    by (rule nbrVertices_same [OF f2'])
  have pos: "positions m3 = ?c # ?V @ skirtPositions hu ?g ?V"
    unfolding p3 p2 p1 n1 n2 by (simp add: capMesh_positions skirtPositions_def Let_def)
  have h0: "height (?V ! 0) = fst (snd v0)" using vs by (simp add: height_def)
  have ix: "drop 6 (indices m3) = skirtIndices"
    unfolding i3 i2 i1 lp lp1 lp2 using li by (simp add: skirtIndices_def)
  have len: "length (indices m3) = 15"
    unfolding i3 i2 i1 using li by simp
  have sk: "skirtTriangleCount m3 = 6" using k1 k2 k3 shape(3) by simp
  have co: "cornerTriangleCount m3 = 3" using c1 c2 c3 shape(2) by simp
  show ?thesis
    unfolding h0 using r ok3 f3' pos ix len sk co by blast
qed

lemma gen_fresh_simps:
  "gu_hexUtils (gen_fresh gen) = hu_fresh (gu_hexUtils gen)"
  "gu_perturbUtils (gen_fresh gen) = pu_fresh (gu_perturbUtils gen)"
  by (simp_all add: gen_fresh_def)

lemma HexGeneratorU_cell_result:
  assumes ok: "gen_ok gen"
  shows "\<exists>r gen'. HexGeneratorU_cell c gen = Some (r, gen') \<and>
           cellSpec (gen_fresh gen) c r \<and> gen_ok gen' \<and> gen_fresh gen' = gen_fresh gen"
proof -
  let ?hu = "gu_hexUtils gen" and ?P = "gu_perturbUtils gen"
  let ?cx = "fst (centerOf ?hu c)" and ?cz = "snd (centerOf ?hu c)"
  have huok: "hu_ok ?hu" and puok: "pu_ok ?P" using ok by (simp_all add: gen_ok_def)
  have cx: "of_int (fst c) * (2 * gu_effectiveSize gen * 3 / 4 + gu_hexGap gen) = ?cx"
    using ok by (simp add: gen_ok_def centerOf_def Let_def algebra_simps)
  have cz: "of_int (snd c) * (sqrt 3 * gu_effectiveSize gen + gu_hexGap gen) +
            of_int (js_mod (fst c) 2) * ((sqrt 3 * gu_effectiveSize gen + gu_hexGap gen) / 2) = ?cz"
    using ok by (simp add: gen_ok_def centerOf_def Let_def)
  let ?e = "fst (getElevation ?cx ?cz ?P)"
  let ?pu1 = "snd (getElevation ?cx ?cz ?P)"
  let ?pe = "fst (perturbY ?cx ?e ?cz ?pu1)"
  let ?pu2 = "snd (perturbY ?cx ?e ?cz ?pu1)"
  let ?V = "fst (generateHexVertices ?cx ?cz ?hu)"
  let ?hu1 = "snd (generateHexVertices ?cx ?cz ?hu)"
  let ?hex = "\<lparr>hc_gridCoords = (fst c, snd c), hc_center = (?cx, ?pe, ?cz), hc_vertices = ?V,
               hc_elevation = ?pe, hc_biomeIndex = getBiomeIndex ?pe 4, hc_featureIndex = 0\<rparr>"
  have pe: "?pe = perturbYOf (pu_fresh ?P) ?cx (elevationOf (pu_fresh ?P) ?cx ?cz) ?cz"
    using puok by (simp add: pu_simps)
  have pu2: "pu_ok ?pu2" "pu_fresh ?pu2 = pu_fresh ?P"
    using puok by (simp_all add: pu_simps)
  have V: "?V = verticesOf (hu_fresh ?hu) ?cx ?cz"
    using huok by (rule generateHexVertices_value)
  have hu1: "hu_ok ?hu1" "hu_fresh ?hu1 = hu_fresh ?hu"
    using huok by (simp_all add: generateHexVertices_state)
  have six: "length (hc_vertices ?hex) = 6" by (simp add: generateHexVertices_length)
  from HexGeneratorU_createHexGeometry_result [OF hu1(1) six]
  obtain m hu2 where
    g: "HexGeneratorU_createHexGeometry ?hex ?hu1 = Some (m, hu2)" and
    ok2: "hu_ok hu2" and f2: "hu_fresh hu2 = hu_fresh ?hu1" and
    pos: "positions m = (?cx, height (?V ! 0), ?cz) # ?V @ skirtPositions ?hu1 (fst c, snd c) ?V" and
    ix: "drop 6 (indices m) = skirtIndices" and len: "length (indices m) = 15" and
    sk: "skirtTriangleCount m = 6" and co: "cornerTriangleCount m = 3"
    by auto
  let ?gen' = "gen\<lparr>gu_perturbUtils := ?pu2, gu_hexUtils := hu2\<rparr>"
  have r: "HexGeneratorU_cell c gen = Some ((?hex, m), ?gen')"
    unfolding HexGeneratorU_cell_def Let_def split_beta cx cz
    by (simp only: g option.case prod.case fst_conv snd_conv)
  have f2': "hu_fresh hu2 = hu_fresh ?hu" using f2 hu1(2) by simp
  have same: "hu_effectiveSize hu2 = hu_effectiveSize ?hu" "hu_hexGap hu2 = hu_hexGap ?hu"
             "hu_width hu2 = hu_width ?hu" "hu_height hu2 = hu_height ?hu"
    using arg_cong [OF f2', of hu_effectiveSize] arg_cong [OF f2', of hu_hexGap]
          arg_cong [OF f2', of hu_width] arg_cong [OF f2', of hu_height]
    by (simp_all add: hu_fresh_simps)
  have okg: "gen_ok ?gen'"
    using ok ok2 pu2(1) same by (simp add: gen_ok_def)
  have fg: "gen_fresh ?gen' = gen_fresh gen"
    using f2' pu2(2) by (simp add: gen_fresh_def)
  have sp: "skirtPositions ?hu1 (fst c, snd c) ?V = skirtPositions (hu_fresh ?hu) c ?V"
    using skirtPositions_same [of ?hu1 "hu_fresh ?hu" c ?V] hu1(2) by (simp add: hu_fresh_simps)
  have cf: "centerOf (hu_fresh ?hu) c = centerOf ?hu c" by (rule centerOf_fresh)
  have spec: "cellSpec (gen_fresh gen) c (?hex, m)"
    unfolding cellSpec_def gen_fresh_simps Let_def cf
    using pe V pos ix len sk co sp by (simp add: hu_fresh_simps)
  show ?thesis using r spec okg fg by blast
qed

lemma HexGeneratorU_cells_result:
  "gen_ok gen \<Longrightarrow>
     \<exists>rs gen'. HexGeneratorU_cells cs gen = Some (rs, gen') \<and>
        list_all2 (cellSpec (gen_fresh gen)) cs rs \<and> gen_ok gen' \<and> gen_fresh gen' = gen_fresh gen"
proof (induction cs arbitrary: gen)
  case Nil
  then show ?case by simp
next
  case (Cons c cs)
  from HexGeneratorU_cell_result [OF Cons.prems, of c]
  obtain r gen1 where
    r: "HexGeneratorU_cell c gen = Some (r, gen1)" and
    sr: "cellSpec (gen_fresh gen) c r" and ok1: "gen_ok gen1" and
    f1: "gen_fresh gen1 = gen_fresh gen"
    by blast
  from Cons.IH [OF ok1]
  obtain rs gen2 where
    rs: "HexGeneratorU_cells cs gen1 = Some (rs, gen2)" and
    srs: "list_all2 (cellSpec (gen_fresh gen1)) cs rs" and ok2: "gen_ok gen2" and
    f2: "gen_fresh gen2 = gen_fresh gen1"
    by blast
  show ?case
    using r rs sr srs ok2 f1 f2 by simp
qed

lemma gen_ok_new: "gen_ok (HexGeneratorU_new n hexSize hexGap r1 r2 r3 r4)"
  by (simp add: gen_ok_def HexGeneratorU_new_def HexUtils_new_def Let_def hu_ok_def default_params)

lemma defaultParams_default: "defaultParams (PerturbationUtils_default r1 r2)"
  by (simp add: defaultParams_def default_params)

lemma defaultParams_fresh: "defaultParams (pu_fresh pu) = defaultParams pu"
  by (simp add: defaultParams_def pu_fresh_fields)

lemma defaultParams_same:
  assumes "pu_fresh pu' = pu_fresh pu"
  shows "defaultParams pu' = defaultParams pu"
  using defaultParams_fresh [of pu'] defaultParams_fresh [of pu] assms by simp

lemma centerHeight_at_origin:
  assumes ok: "hu_ok hu" and dp: "defaultParams (hu_perturbUtils hu)"
  shows "centerHeight hu 0 0 = -1.48"
proof -
  let ?pu = "hu_perturbUtils hu"
  have puok: "pu_ok ?pu" using ok by (simp add: hu_ok_def)
  have e: "fst (getElevation 0 0 ?pu) = -1"
    by (rule elevation_at_origin [OF puok dp])
  have ok1: "pu_ok (snd (getElevation 0 0 ?pu))"
    using puok by (rule getElevation_state(2))
  have dp1: "defaultParams (snd (getElevation 0 0 ?pu))"
    using defaultParams_same [OF getElevation_state(1), of 0 0 ?pu] dp by simp
  show ?thesis
    using perturbY_at_origin [OF ok1 dp1] e by (simp add: centerHeight_def split_beta)
qed

lemma centerOf_origin: "centerOf hu (0, 0) = (0, 0)"
  by (simp add: centerOf_def js_mod_def)

lemma HexUtils_new_ok:
  "hu_ok (HexUtils_new n hs gap r1 r2)"
  "defaultParams (hu_perturbUtils (HexUtils_new n hs gap r1 r2))"
  by (simp_all add: HexUtils_new_def Let_def hu_ok_def default_params defaultParams_default)

lemma cell_at_origin_biome:
  assumes "cellSpec (gen_fresh (HexGeneratorU_new n hs gap r1 r2 r3 r4)) (0, 0) r"
  shows "hc_gridCoords (fst r) = (0, 0) \<and> hc_biomeIndex (fst r) = -6"
proof -
  let ?G = "gen_fresh (HexGeneratorU_new n hs gap r1 r2 r3 r4)"
  let ?P = "gu_perturbUtils ?G"
  have P: "?P = pu_fresh (PerturbationUtils_default r3 r4)"
    by (simp add: gen_fresh_simps HexGeneratorU_new_def Let_def)
  have ok: "pu_ok ?P" unfolding P by (rule pu_ok_fresh)
  have dp: "defaultParams ?P"
    unfolding P by (simp add: defaultParams_fresh defaultParams_default)
  have e: "elevationOf ?P 0 0 = -1"
    unfolding elevationOf_def by (rule elevation_at_origin [OF ok dp])
  have y: "perturbYOf ?P 0 (-1) 0 = -1.48"
    unfolding perturbYOf_def by (rule perturbY_at_origin [OF ok dp])
  show ?thesis
    using assms e y
    by (simp add: cellSpec_def Let_def centerOf_origin getBiomeIndex_def)
qed

lemma cellSpec_coords: "cellSpec G c r \<Longrightarrow> hc_gridCoords (fst r) = c"
  by (simp add: cellSpec_def Let_def)

lemma cellSpec_all_coords:
  "list_all2 (cellSpec G) cs rs \<Longrightarrow> map (hc_gridCoords \<circ> fst) rs = cs"
  by (induction rule: list_all2_induct) (simp_all add: cellSpec_coords)

lemma cellSpec_member:
  assumes "list_all2 (cellSpec G) cs rs" and "r \<in> set rs"
  shows "cellSpec G (hc_gridCoords (fst r)) r"
  using assms
proof (induction rule: list_all2_induct)
  case Nil
  then show ?case by simp
next
  case (Cons c cs r' rs)
  then show ?case using cellSpec_coords [of G c r'] by auto
qed

lemma cellSpec_positions:
  assumes s: "cellSpec G c (hex, mesh)"
  shows "length (hc_vertices hex) = 6"
    and "i < 6 \<Longrightarrow> positions mesh ! (1 + i) = hc_vertices hex ! i"
    and "positions mesh ! (7 + t) = skirtPositions (gu_hexUtils G) c (hc_vertices hex) ! t"
    and "hc_vertices hex =
           verticesOf (gu_hexUtils G) (fst (centerOf (gu_hexUtils G) c)) (snd (centerOf (gu_hexUtils G) c))"
proof -
  let ?hu = "gu_hexUtils G"
  let ?V = "verticesOf ?hu (fst (centerOf ?hu c)) (snd (centerOf ?hu c))"
  have v: "hc_vertices hex = ?V" using s by (simp add: cellSpec_def Let_def)
  show "hc_vertices hex = ?V" by (rule v)
  show six: "length (hc_vertices hex) = 6" unfolding v by (rule verticesOf_length)
  have p: "positions mesh = (fst (centerOf ?hu c), height (?V ! 0), snd (centerOf ?hu c)) #
             hc_vertices hex @ skirtPositions ?hu c (hc_vertices hex)"
    using s by (simp add: cellSpec_def Let_def)
  show "positions mesh ! (1 + i) = hc_vertices hex ! i" if "i < 6"
    unfolding p using that six by (simp add: nth_append)
  show "positions mesh ! (7 + t) = skirtPositions ?hu c (hc_vertices hex) ! t"
    unfolding p using six by (simp add: nth_append)
qed

lemma nbrVertices_cell:
  assumes "hu_fresh hu = hu" and "HexUtils_getNeighborCoords c d = Some c'"
  shows "nbrVertices hu c d = verticesOf hu (fst (centerOf hu c')) (snd (centerOf hu c'))"
  using assms by (simp add: nbrVertices_def)

lemma seam_core:
  assumes A: "cellSpec G cA (hexA, meshA)" and B: "cellSpec G cB (hexB, meshB)"
    and fr: "hu_fresh (gu_hexUtils G) = gu_hexUtils G"
    and k: "k < 3" "skirtDirections ! k = d"
    and nb: "HexUtils_getNeighborCoords cA d = Some cB"
    and tb: "edgeVertexMap d = Some (i1, i2)" "oppositeDirection d = Some d'"
            "edgeVertexMap d' = Some (j1, j2)"
  shows "positions meshA ! (7 + 9 * k) = positions meshA ! (1 + i1) \<and>
         positions meshA ! (7 + 9 * k + 1) = positions meshA ! (1 + i2) \<and>
         positions meshA ! (7 + 9 * k + 2) = positions meshB ! (1 + j1) \<and>
         positions meshA ! (7 + 9 * k + 3) = positions meshA ! (1 + i1) \<and>
         positions meshA ! (7 + 9 * k + 4) = positions meshB ! (1 + j1) \<and>
         positions meshA ! (7 + 9 * k + 5) = positions meshB ! (1 + j2) \<and>
         indices meshA ! (6 + 3 * k) = (7 + 9 * k, 7 + 9 * k + 1, 7 + 9 * k + 2) \<and>
         indices meshA ! (6 + 3 * k + 1) = (7 + 9 * k + 3, 7 + 9 * k + 4, 7 + 9 * k + 5)"
proof -
  let ?hu = "gu_hexUtils G"
  note pa = cellSpec_positions [OF A]
  note pb = cellSpec_positions [OF B]
  have N: "nbrVertices ?hu cA d = hc_vertices hexB"
    using nbrVertices_cell [OF fr nb] pb(4) by simp
  have ix: "indices meshA ! (6 + j) = skirtIndices ! j" if "j < 9" for j
  proof -
    have d6: "drop 6 (indices meshA) = skirtIndices" and l: "length (indices meshA) = 15"
      using A by (simp_all add: cellSpec_def Let_def)
    have "drop 6 (indices meshA) ! j = indices meshA ! (6 + j)"
      using l that by simp
    then show ?thesis using d6 by simp
  qed
  consider "k = 0" | "k = 1" | "k = 2" using k(1) by linarith
  then show ?thesis
  proof cases
    case 1
    then have d: "d = ''SE''" using k(2) by (simp add: skirtDirections_def)
    have t: "i1 = 0" "i2 = 1" "j1 = 3" "j2 = 4"
      using tb unfolding d by (auto simp: edgeVertexMap_def oppositeDirection_def)
    show ?thesis
      unfolding 1 t
      using pa(3) [of 0] pa(3) [of 1] pa(3) [of 2] pa(3) [of 3] pa(3) [of 4] pa(3) [of 5]
        pa(2) [of 0] pa(2) [of 1] pb(2) [of 3] pb(2) [of 4] N ix [of 0] ix [of 1]
      by (simp add: skirtPositions_def Let_def d skirtIndices_def)
  next
    case 2
    then have d: "d = ''S''" using k(2) by (simp add: skirtDirections_def)
    have t: "i1 = 1" "i2 = 2" "j1 = 4" "j2 = 5"
      using tb unfolding d by (auto simp: edgeVertexMap_def oppositeDirection_def)
    show ?thesis
      unfolding 2 t
      using pa(3) [of 9] pa(3) [of 10] pa(3) [of 11] pa(3) [of 12] pa(3) [of 13] pa(3) [of 14]
        pa(2) [of 1] pa(2) [of 2] pb(2) [of 4] pb(2) [of 5] N ix [of 3] ix [of 4]
      by (simp add: skirtPositions_def Let_def d skirtIndices_def)
  next
    case 3
    then have d: "d = ''SW''" using k(2) by (simp add: skirtDirections_def)
    have t: "i1 = 2" "i2 = 3" "j1 = 5" "j2 = 0"
      using tb unfolding d by (auto simp: edgeVertexMap_def oppositeDirection_def)
    show ?thesis
      unfolding 3 t
      using pa(3) [of 18] pa(3) [of 19] pa(3) [of 20] pa(3) [of 21] pa(3) [of 22] pa(3) [of 23]
        pa(2) [of 2] pa(2) [of 3] pb(2) [of 5] pb(2) [of 0] N ix [of 6] ix [of 7]
      by (simp add: skirtPositions_def Let_def d skirtIndices_def)
  qed
qed

lemma gen_fresh_hexUtils: "hu_fresh (gu_hexUtils (gen_fresh gen)) = gu_hexUtils (gen_fresh gen)"
  by (simp add: gen_fresh_simps hu_fresh_simps)

lemma HexGeneratorU_renderGrid_result:
  "\<exists>cs g. HexGeneratorU_renderGrid (HexGeneratorU_new n hexSize hexGap r1 r2 r3 r4) = Some (cs, g) \<and>
          list_all2 (cellSpec (gen_fresh (HexGeneratorU_new n hexSize hexGap r1 r2 r3 r4)))
            (gridCells n) cs"
proof -
  have n: "gu_gridSize (HexGeneratorU_new n hexSize hexGap r1 r2 r3 r4) = n"
    by (simp add: HexGeneratorU_new_def Let_def)
  from HexGeneratorU_cells_result [OF gen_ok_new, of "gridCells n" n hexSize hexGap r1 r2 r3 r4]
  show ?thesis unfolding HexGeneratorU_renderGrid_def n by blast
qed

section \<open>Claims on the direction algebra and the neighbour coordinates\<close>

text \<open>
  C6 as stated fails for grids wider than \<open>2 ^ 53\<close> columns. In a grid of size
  \<open>2 ^ 53 + 2\<close> the cell \<open>(2 ^ 53, 5)\<close> is in bounds and lies in an even column; the
  sum \<open>col + 1\<close> is not a double and rounds back to \<open>2 ^ 53\<close>, so its \<open>SE\<close>
  neighbour is the cell itself, in bounds, and the step back along \<open>NW\<close> leads to
  \<open>(2 ^ 53 - 1, 4)\<close>, another cell.
\<close>

theorem round_trip_fails_beyond_2_53:
  "''SE'' \<in> set directions \<and> oppositeDirection ''SE'' = Some ''NW'' \<and>
   inBounds 9007199254740994 (9007199254740992, 5) \<and>
   HexUtils_getNeighborCoords (9007199254740992, 5) ''SE'' = Some (9007199254740992, 5) \<and>
   HexUtils_getNeighborCoords (9007199254740992, 5) ''NW'' = Some (9007199254740991, 4) \<and>
   HexGenerator_getNeighborCoords 9007199254740994 (9007199254740992, 5) ''SE''
     = Some (9007199254740992, 5) \<and>
   HexGenerator_getNeighborCoords 9007199254740994 (9007199254740992, 5) ''NW''
     = Some (9007199254740991, 4)"
  by (simp add: directions_def oppositeDirection_def inBounds_def HexUtils_getNeighborCoords_def
        HexGenerator_getNeighborCoords_def directionTable_def js_mod_def js_plus_2_53_1
        js_minus_exact)

text \<open>
  C6 for the grid sizes up to \<open>2 ^ 53\<close>, where every coordinate and every sum is an
  exact integer. Direction involution and neighbour round trip: every direction of the table
  has an opposite whose opposite is the direction itself; and from a coordinate inside the
  grid whose neighbour in that direction is inside the grid too, stepping to the neighbour
  and back along the opposite direction returns the coordinate. This holds in even and in odd
  columns, for the table of \<open>HexUtils\<close> and for the bounds-checked one of \<open>HexGenerator\<close>.
\<close>

theorem direction_involution_round_trip:
  "d \<in> set directions \<Longrightarrow>
     (\<exists>d'. oppositeDirection d = Some d' \<and> oppositeDirection d' = Some d \<and>
        (n \<le> 2 ^ 53 \<and> inBounds n c \<and> HexUtils_getNeighborCoords c d = Some c' \<and>
         inBounds n c' \<longrightarrow>
           HexUtils_getNeighborCoords c' d' = Some c \<and>
           HexGenerator_getNeighborCoords n c d = Some c' \<and>
           HexGenerator_getNeighborCoords n c' d' = Some c))"
proof -
  assume d: "d \<in> set directions"
  from directions_cases [OF d] obtain d' where
    o: "oppositeDirection d = Some d'" and o': "oppositeDirection d' = Some d"
    by (auto simp: oppositeDirection_def)
  have "HexUtils_getNeighborCoords c' d' = Some c \<and>
        HexGenerator_getNeighborCoords n c d = Some c' \<and>
        HexGenerator_getNeighborCoords n c' d' = Some c"
    if n: "n \<le> 2 ^ 53" and b: "inBounds n c" and s: "HexUtils_getNeighborCoords c d = Some c'"
      and b': "inBounds n c'"
  proof -
    have t: "directionTable c d = Some c'"
      using s by (simp add: HexUtils_getNeighborCoords_def)
    have rt: "directionTable c' d' = Some c"
      using directionTable_round_trip [OF d _ _ _ _ t _ _ _ _ o] b b' n
      by (simp add: inBounds_def)
    show ?thesis
      using t rt b b'
      by (cases c; cases c')
         (simp add: HexUtils_getNeighborCoords_def HexGenerator_getNeighborCoords_def inBounds_def)
  qed
  with o o' show ?thesis by blast
qed

theorem direction_involution_round_trip_witness:
  "''SE'' \<in> set directions \<and> (16 :: int) \<le> 2 ^ 53 \<and> inBounds 16 (2, 3) \<and>
   HexUtils_getNeighborCoords (2, 3) ''SE'' = Some (3, 3) \<and> inBounds 16 (3, 3) \<and>
   oppositeDirection ''SE'' = Some ''NW'' \<and> oppositeDirection ''NW'' = Some ''SE'' \<and>
   HexUtils_getNeighborCoords (3, 3) ''NW'' = Some (2, 3) \<and>
   HexGenerator_getNeighborCoords 16 (3, 3) ''NW'' = Some (2, 3) \<and>
   ''SW'' \<in> set directions \<and> inBounds 16 (3, 3) \<and>
   HexUtils_getNeighborCoords (3, 3) ''SW'' = Some (2, 4) \<and> inBounds 16 (2, 4) \<and>
   oppositeDirection ''SW'' = Some ''NE'' \<and>
   HexUtils_getNeighborCoords (2, 4) ''NE'' = Some (3, 3)"
  using direction_involution_round_trip [of "''SE''" 16 "(2, 3)" "(3, 3)"]
        direction_involution_round_trip [of "''SW''" 16 "(3, 3)" "(2, 4)"]
  by (simp add: directions_def inBounds_def HexUtils_getNeighborCoords_def
        HexGenerator_getNeighborCoords_def directionTable_def oppositeDirection_def js_mod_def
        js_plus_exact js_minus_exact)

text \<open>
  C5. The bounds check is not applied by every neighbour-coordinate computation: from the
  corner cell \<open>(0, 0)\<close> of a 16 by 16 grid, \<open>HexUtils.getNeighborCoords\<close> returns the
  off-grid pair \<open>(0, -1)\<close> for \<open>N\<close> (its doc comment promises \<open>null\<close> when out of bounds),
  where \<open>HexGenerator.getNeighborCoords\<close> returns no neighbour.
\<close>

theorem HexUtils_getNeighborCoords_unchecked:
  "HexUtils_getNeighborCoords (0, 0) ''N'' = Some (0, -1) \<and>
   \<not> inBounds 16 (0, -1) \<and>
   HexGenerator_getNeighborCoords 16 (0, 0) ''N'' = None"
  by (simp add: HexUtils_getNeighborCoords_def HexGenerator_getNeighborCoords_def
        directionTable_def inBounds_def js_minus_exact)

section \<open>Claims on construction\<close>

text \<open>
  C8 as stated fails: constructing the generator with \<open>gridSize = 0\<close>, \<open>hexSize = 0\<close> and
  \<open>hexGap = -1\<close> does not end in \<open>InvalidParameter\<close>; the object is returned.
\<close>

theorem construction_not_rejected:
  "construct_HexGenerator 0 0 (-1) (1 / 2) \<noteq> Inl InvalidParameter \<and>
   construct_HexUtils 0 0 (-1) (1 / 2) (1 / 2) \<noteq> Inl InvalidParameter \<and>
   construct_HexGenerator 0 0 (-1) (1 / 2) = Inr (HexGenerator_new 0 0 (-1) (1 / 2)) \<and>
   hg_gridSize (HexGenerator_new 0 0 (-1) (1 / 2)) = 0 \<and>
   hg_effectiveSize (HexGenerator_new 0 0 (-1) (1 / 2)) = 1"
  by (simp add: construct_HexGenerator_def construct_HexUtils_def HexGenerator_new_def Let_def)

text \<open>
  C8 as amended: construction performs no validation. For every \<open>gridSize\<close>, \<open>hexSize\<close>
  and \<open>hexGap\<close> both constructors succeed, store the three parameters unchanged and derive
  \<open>effectiveSize = hexSize - hexGap\<close>, \<open>width = 2 * effectiveSize\<close> and
  \<open>height = sqrt 3 * effectiveSize\<close> from them.
\<close>

theorem construction_always_succeeds:
  "(\<exists>g. construct_HexGenerator gridSize hexSize hexGap rnd = Inr g \<and>
        hg_gridSize g = gridSize \<and> hg_hexSize g = hexSize \<and> hg_hexGap g = hexGap \<and>
        hg_effectiveSize g = hexSize - hexGap \<and> hg_width g = 2 * (hexSize - hexGap) \<and>
        hg_height g = sqrt 3 * (hexSize - hexGap)) \<and>
   (\<exists>u. construct_HexUtils gridSize hexSize hexGap rnd1 rnd2 = Inr u \<and>
        hu_gridSize u = gridSize \<and> hu_hexSize u = hexSize \<and> hu_hexGap u = hexGap \<and>
        hu_effectiveSize u = hexSize - hexGap \<and> hu_width u = 2 * (hexSize - hexGap) \<and>
        hu_height u = sqrt 3 * (hexSize - hexGap))"
  by (simp add: construct_HexGenerator_def construct_HexUtils_def HexGenerator_new_def
        HexUtils_new_def Let_def)

section \<open>Claims on the stitching with grid lookup\<close>

text \<open>
  C3. The corner triangles are not deduplicated over a build: \<open>processedConnections\<close> is
  created anew inside every call of \<open>createHexGeometry\<close>, so it never sees the id another
  cell produced. On the flat 2 by 2 grid both renderers emit 3 corner triangles for the 2
  distinct corners: the corner \<open>0,0-0,1-1,0\<close> is emitted by the cell \<open>(0, 0)\<close> in its pass
  for \<open>SE\<close> and again by the cell \<open>(1, 0)\<close> in its pass for \<open>SW\<close>.
\<close>

theorem corner_triangle_emitted_twice:
  "map_option (\<lambda>ms. sum_list (map cornerTriangleCount ms))
     (HexRenderer_renderGrid False (flatGrid 2)) = Some 3 \<and>
   map_option (\<lambda>ms. sum_list (map cornerTriangleCount ms))
     (HexRenderer_renderGrid True (flatGrid 2)) = Some 3 \<and>
   length (interiorCorners (flatGrid 2)) = 2 \<and>
   map_option snd (HexRenderer_geometryState False (flatHex (0, 0)) (flatGrid 2)) =
     Some {''0,0-0,1-1,0''} \<and>
   map_option snd (HexRenderer_geometryState False (flatHex (1, 0)) (flatGrid 2)) =
     Some {''0,0-0,1-1,0'', ''0,1-1,0-1,1''}"
  using flat_total [of False] flat_total [of True] flat_interiorCorners
    flat_state(1) [OF flat_own(1) flat_ids_00, of False]
    flat_state(1) [OF flat_own(2) flat_ids_10, of False]
  by simp

text \<open>
  C2 as amended, for the renderer with grid lookup: in a grid whose cells all lie inside
  \<open>[0, gridSize)\<close>, the pass for a direction whose neighbour coordinates fall outside
  leaves the arrays and the corner ids as they are (no skirt, no corner triangle, no
  vertex). For a cell of six vertices in a grid of such cells the geometry then has two
  skirt triangles for each direction whose neighbour is found and none else, at most one
  corner triangle for each such direction, and every position is the cap centre, a vertex
  of the cell or a vertex of a cell of the grid.
\<close>

theorem HexRenderer_boundary_suppression:
  assumes own: "find (\<lambda>h. hc_gridCoords h = hc_gridCoords hex) hexGrid = Some thisHex"
    and grid: "\<forall>h \<in> set hexGrid. inBounds gridSize (hc_gridCoords h)"
    and nc: "directionTable (hc_gridCoords hex) direction = Some nc" "\<not> inBounds gridSize nc"
  shows "HexRenderer_skirt reversed hex hexGrid direction st = Some st \<and>
         \<not> hasNeighbor hex hexGrid direction \<and>
         (length (hc_vertices hex) = 6 \<and> (\<forall>h \<in> set hexGrid. length (hc_vertices h) = 6) \<longrightarrow>
            (\<exists>m c. rendererCenter (hc_vertices hex) = Some c \<and>
               HexRenderer_createHexGeometry reversed hex hexGrid = Some m \<and>
               skirtTriangleCount m = 2 * length (filter (hasNeighbor hex hexGrid) skirtDirections) \<and>
               cornerTriangleCount m \<le> length (filter (hasNeighbor hex hexGrid) skirtDirections) \<and>
               set (positions m) \<subseteq>
                 {c} \<union> set (hc_vertices hex) \<union> (\<Union>h \<in> set hexGrid. set (hc_vertices h))))"
proof (intro conjI impI)
  show "HexRenderer_skirt reversed hex hexGrid direction st = Some st"
    by (rule HexRenderer_skirt_off_grid(1) [OF own grid nc])
  show "\<not> hasNeighbor hex hexGrid direction"
    by (rule HexRenderer_skirt_off_grid(2) [OF own grid nc])
next
  assume a: "length (hc_vertices hex) = 6 \<and> (\<forall>h \<in> set hexGrid. length (hc_vertices h) = 6)"
  let ?I = "\<Union>d \<in> set skirtDirections. set_option (cornerIdOf hex hexGrid d)"
  from HexRenderer_geometryState_result [OF own conjunct1 [OF a] conjunct2 [OF a], of reversed]
  obtain m c where
    c: "rendererCenter (hc_vertices hex) = Some c" and
    g: "HexRenderer_geometryState reversed hex hexGrid = Some (m, ?I)" and
    cc: "cornerTriangleCount m = card ?I" and
    kk: "skirtTriangleCount m = 2 * length (filter (hasNeighbor hex hexGrid) skirtDirections)" and
    pp: "set (positions m) \<subseteq>
           {c} \<union> set (hc_vertices hex) \<union> (\<Union>h \<in> set hexGrid. set (hc_vertices h))"
    by blast
  have sub: "?I \<subseteq> (\<Union>d \<in> set (filter (hasNeighbor hex hexGrid) skirtDirections).
                      set_option (cornerIdOf hex hexGrid d))"
    by (auto simp: cornerIdOf_def hasNeighbor_def split: option.splits)
  have "card ?I \<le> card (\<Union>d \<in> set (filter (hasNeighbor hex hexGrid) skirtDirections).
                      set_option (cornerIdOf hex hexGrid d))"
    by (rule card_mono [OF _ sub]) simp
  also have "\<dots> \<le> (\<Sum>d \<in> set (filter (hasNeighbor hex hexGrid) skirtDirections).
                      card (set_option (cornerIdOf hex hexGrid d)))"
    by (rule card_UN_le) simp
  also have "\<dots> \<le> (\<Sum>d \<in> set (filter (hasNeighbor hex hexGrid) skirtDirections). 1)"
  proof (rule sum_mono)
    fix d
    show "card (set_option (cornerIdOf hex hexGrid d)) \<le> 1"
      by (cases "cornerIdOf hex hexGrid d") simp_all
  qed
  also have "\<dots> \<le> length (filter (hasNeighbor hex hexGrid) skirtDirections)"
    using card_length [of "filter (hasNeighbor hex hexGrid) skirtDirections"] by simp
  finally have le: "card ?I \<le> length (filter (hasNeighbor hex hexGrid) skirtDirections)" .
  show "\<exists>m c. rendererCenter (hc_vertices hex) = Some c \<and>
               HexRenderer_createHexGeometry reversed hex hexGrid = Some m \<and>
               skirtTriangleCount m = 2 * length (filter (hasNeighbor hex hexGrid) skirtDirections) \<and>
               cornerTriangleCount m \<le> length (filter (hasNeighbor hex hexGrid) skirtDirections) \<and>
               set (positions m) \<subseteq>
                 {c} \<union> set (hc_vertices hex) \<union> (\<Union>h \<in> set hexGrid. set (hc_vertices h))"
    using c g cc kk pp le by (auto simp: HexRenderer_createHexGeometry_def)
qed

theorem HexRenderer_boundary_suppression_witness:
  "find (\<lambda>h. hc_gridCoords h = hc_gridCoords (flatHex (1, 1))) (flatGrid 2) = Some (flatHex (1, 1)) \<and>
   list_all (\<lambda>h. inBounds 2 (hc_gridCoords h)) (flatGrid 2) \<and>
   directionTable (hc_gridCoords (flatHex (1, 1))) ''S'' = Some (1, 2) \<and>
   \<not> inBounds 2 (1, 2) \<and>
   length (hc_vertices (flatHex (1, 1))) = 6 \<and>
   list_all (\<lambda>h. length (hc_vertices h) = 6) (flatGrid 2) \<and>
   HexRenderer_skirt False (flatHex (1, 1)) (flatGrid 2) ''S'' (capMesh False (0, 0, 0) [], {}) =
     Some (capMesh False (0, 0, 0) [], {}) \<and>
   (\<exists>m. HexRenderer_createHexGeometry False (flatHex (1, 1)) (flatGrid 2) = Some m \<and>
        skirtTriangleCount m = 0 \<and> cornerTriangleCount m = 0)"
proof -
  have own: "find (\<lambda>h. hc_gridCoords h = hc_gridCoords (flatHex (1, 1))) (flatGrid 2) =
               Some (flatHex (1, 1))"
    by (rule flat_own(4))
  have grid: "\<forall>h \<in> set (flatGrid 2). inBounds 2 (hc_gridCoords h)"
    by (simp add: flatGrid_2 flatHex_coords inBounds_def)
  have nc: "directionTable (hc_gridCoords (flatHex (1, 1))) ''S'' = Some (1, 2)"
    by (simp add: flatHex_coords directionTable_def js_plus_exact)
  have out: "\<not> inBounds 2 (1, 2)"
    by (simp add: inBounds_def)
  have none: "filter (hasNeighbor (flatHex (1, 1)) (flatGrid 2)) skirtDirections = []"
    by (simp add: flat_eval)
  show ?thesis
    using HexRenderer_boundary_suppression [OF own grid nc out, of False
        "(capMesh False (0, 0, 0) [], {})"]
      own grid nc out flatHex_six [of "(1, 1)"] flatGrid_2_six none
    by (auto simp: list_all_iff)
qed

section \<open>Claims on the noise\<close>

text \<open>
  C9. Memoization transparency: after any history of calls on an instance built with a
  seed, \<open>get(x, y)\<close> returns the value of the computation without the two caches. A stored
  \<open>0\<close> fails the truthiness test and is computed again, to the same value.
\<close>

theorem memoization_transparent:
  "fst (PerlinNoise_get x y (after_calls (PerlinNoise_new seed) calls)) = get_uncached seed x y"
  using PerlinNoise_get_value [OF after_calls_state(2) [OF cache_ok_new], of x y seed calls]
  by (simp add: after_calls_state(1) PerlinNoise_new_def)

text \<open>
  C7 as stated fails: the range does not hold for every finite input. The doubles
  \<open>2 ^ 1023\<close> and \<open>10 ^ 308\<close> are finite, and at \<open>(2 ^ 1023, 0)\<close> and at \<open>(10 ^ 308, 0)\<close>
  the product \<open>x0 * 12.9898\<close> of \<open>_random\<close> overflows to \<open>Infinity\<close>, its sine is
  \<open>NaN\<close>, and \<open>get\<close> returns \<open>NaN\<close>, which is no value of \<open>[0, 1]\<close>.
\<close>

theorem noise_value_nan_on_overflow:
  "\<bar>2 ^ 1023 :: real\<bar> < overflowBound \<and>
   fst (PerlinNoise_get_num (Fin (2 ^ 1023)) (Fin 0) (PerlinNoise_new_num (Fin (1 / 2)))) = NaN \<and>
   \<bar>10 ^ 308 :: real\<bar> < overflowBound \<and>
   fst (PerlinNoise_get_num (Fin (10 ^ 308)) (Fin 0) (PerlinNoise_new_num (Fin (1 / 2)))) = NaN"
proof -
  have a: "overflowBound \<le> of_int \<lfloor>2 ^ 1023 :: real\<rfloor> * 12.9898"
    by (simp add: overflowBound_def)
  have b: "overflowBound \<le> of_int \<lfloor>10 ^ 308 :: real\<rfloor> * 12.9898"
    by (simp add: overflowBound_def)
  show ?thesis
    unfolding PerlinNoise_get_num_fresh
    using get_num_uncached_overflow [OF a] get_num_uncached_overflow [OF b]
    by (simp add: overflowBound_def)
qed

text \<open>
  C7 for the inputs at which the hash argument cannot overflow. Noise determinism and range:
  for a fixed seed, two calls of \<open>get\<close> with the same \<open>(x, y)\<close> return the same value
  whatever was called before the first and between the two (for every seed and every
  argument, finite or not); and the value is a finite number of \<open>[0, 1]\<close> whenever
  \<open>(\<bar>x\<bar> + 1) * 12.9898 + (\<bar>y\<bar> + 1) * 78.233 + \<bar>seed\<bar>\<close> is at most \<open>10 ^ 308\<close>. The
  sum bounds the hash argument at the four lattice points around \<open>(x, y)\<close>, and
  \<open>10 ^ 308\<close> lies well below \<open>overflowBound\<close>, which is about \<open>1.8 * 10 ^ 308\<close>.
\<close>

theorem noise_deterministic_in_range:
  "fst (PerlinNoise_get_num x y (after_calls_num (PerlinNoise_new_num seed) before)) =
     fst (PerlinNoise_get_num x y
            (after_calls_num
               (snd (PerlinNoise_get_num x y (after_calls_num (PerlinNoise_new_num seed) before)))
               between)) \<and>
   ((\<bar>a\<bar> + 1) * 12.9898 + (\<bar>b\<bar> + 1) * 78.233 + \<bar>s\<bar> \<le> 10 ^ 308 \<longrightarrow>
      (\<exists>v. fst (PerlinNoise_get_num (Fin a) (Fin b)
                 (after_calls_num (PerlinNoise_new_num (Fin s)) before)) = Fin v \<and>
           0 \<le> v \<and> v \<le> 1))"
proof -
  have val: "fst (PerlinNoise_get_num x' y' (after_calls_num (PerlinNoise_new_num seed') cs))
               = get_num_uncached seed' x' y'" for x' y' seed' cs
    using PerlinNoise_get_num_value
            [OF after_calls_num_state(2) [OF cache_ok_num_new], of x' y' seed' cs]
    by (simp add: after_calls_num_state(1) PerlinNoise_new_num_def)
  let ?p = "after_calls_num (PerlinNoise_new_num seed) before"
  let ?q = "after_calls_num (snd (PerlinNoise_get_num x y ?p)) between"
  have okp: "cache_ok_num ?p" by (simp add: after_calls_num_state cache_ok_num_new)
  have okq: "cache_ok_num ?q"
    by (simp add: after_calls_num_state PerlinNoise_get_num_state okp)
  have sq: "pnn_seed ?q = seed"
    by (simp add: after_calls_num_state(1) PerlinNoise_get_num_state(1) PerlinNoise_new_num_def)
  have vq: "fst (PerlinNoise_get_num x y ?q) = get_num_uncached seed x y"
    using PerlinNoise_get_num_value [OF okq] sq by simp
  have det: "fst (PerlinNoise_get_num x y ?p) = fst (PerlinNoise_get_num x y ?q)"
    unfolding val vq ..
  have rng: "\<exists>v. fst (PerlinNoise_get_num (Fin a) (Fin b)
                 (after_calls_num (PerlinNoise_new_num (Fin s)) before)) = Fin v \<and>
           0 \<le> v \<and> v \<le> 1"
    if h: "(\<bar>a\<bar> + 1) * 12.9898 + (\<bar>b\<bar> + 1) * 78.233 + \<bar>s\<bar> \<le> 10 ^ 308"
  proof -
    have "(10 :: real) ^ 308 < overflowBound" by (simp add: overflowBound_def)
    with h have h': "(\<bar>a\<bar> + 1) * 12.9898 + (\<bar>b\<bar> + 1) * 78.233 + \<bar>s\<bar> < overflowBound"
      by (rule le_less_trans)
    show ?thesis
      unfolding val get_num_uncached_Fin [OF h']
      using get_uncached_range [of s a b] by simp
  qed
  from det rng show ?thesis by blast
qed

theorem noise_deterministic_in_range_witness:
  "(\<bar>3 / 2\<bar> + 1) * 12.9898 + (\<bar>- 9 / 4\<bar> + 1) * 78.233 + \<bar>1 / 2\<bar> \<le> (10 :: real) ^ 308 \<and>
   (\<exists>v. fst (PerlinNoise_get_num (Fin (3 / 2)) (Fin (- 9 / 4))
               (after_calls_num (PerlinNoise_new_num (Fin (1 / 2))) [(Fin 0, Fin 0)])) = Fin v \<and>
        0 \<le> v \<and> v \<le> 1) \<and>
   (\<bar>10 ^ 306\<bar> + 1) * 12.9898 + (\<bar>- (10 ^ 306)\<bar> + 1) * 78.233 + \<bar>10 ^ 306\<bar>
     \<le> (10 :: real) ^ 308 \<and>
   (\<exists>v. fst (PerlinNoise_get_num (Fin (10 ^ 306)) (Fin (- (10 ^ 306)))
               (after_calls_num (PerlinNoise_new_num (Fin (10 ^ 306))) [])) = Fin v \<and>
        0 \<le> v \<and> v \<le> 1)"
  using noise_deterministic_in_range
          [of "Fin 0" "Fin 0" "Fin (1 / 2)" "[(Fin 0, Fin 0)]" "[]" "3 / 2" "- 9 / 4" "1 / 2"]
        noise_deterministic_in_range
          [of "Fin 0" "Fin 0" "Fin (10 ^ 306)" "[]" "[]" "10 ^ 306" "- (10 ^ 306)" "10 ^ 306"]
  by simp

section \<open>Claims on the vertex pipeline\<close>

text \<open>
  C4 as stated fails: the six rim vertices of the cell centred at the origin all have the
  height \<open>-1.48\<close>, which is also the perturbed elevation of the centre.
\<close>

theorem rim_heights_not_distinct:
  "map height (fst (generateHexVertices 0 0 (HexUtils_new 16 1 (1 / 10) (1 / 2) (1 / 4)))) =
     [-1.48, -1.48, -1.48, -1.48, -1.48, -1.48] \<and>
   centerHeight (HexUtils_new 16 1 (1 / 10) (1 / 2) (1 / 4)) 0 0 = -1.48"
proof -
  let ?hu = "HexUtils_new 16 1 (1 / 10) (1 / 2) (1 / 4)"
  have ok: "hu_ok ?hu" by (rule HexUtils_new_ok(1))
  have dp: "defaultParams (hu_perturbUtils ?hu)" by (rule HexUtils_new_ok(2))
  have c: "centerHeight ?hu 0 0 = -1.48" by (rule centerHeight_at_origin [OF ok dp])
  have "map height (fst (generateHexVertices 0 0 ?hu)) = replicate 6 (centerHeight ?hu 0 0)"
    by (rule generateHexVertices_heights [OF ok])
  then show ?thesis using c by (simp add: numeral_eq_Suc)
qed

text \<open>
  C4 as amended: the six rim vertices of a cell all have the same height, the perturbed
  elevation of the cell centre, \<open>perturbY(centerX, getElevation(centerX, centerZ), centerZ)\<close>:
  \<open>getHexVertex\<close> passes the centre, not the vertex, to \<open>getElevation\<close> and \<open>perturbY\<close>.
  Only the horizontal jitter depends on the vertex.
\<close>

theorem rim_heights_equal_center:
  assumes "hu_ok hu"
  shows "length (fst (generateHexVertices centerX centerZ hu)) = 6 \<and>
         map height (fst (generateHexVertices centerX centerZ hu)) =
           replicate 6 (centerHeight hu centerX centerZ) \<and>
         height (fst (getHexVertex centerX centerZ i hu)) = centerHeight hu centerX centerZ"
  using assms
  by (simp add: generateHexVertices_length generateHexVertices_heights getHexVertex_height)

theorem rim_heights_equal_center_witness:
  "hu_ok (HexUtils_new 16 1 (1 / 10) (1 / 2) (1 / 4)) \<and>
   map height (fst (generateHexVertices 3 5 (HexUtils_new 16 1 (1 / 10) (1 / 2) (1 / 4)))) =
     replicate 6 (centerHeight (HexUtils_new 16 1 (1 / 10) (1 / 2) (1 / 4)) 3 5) \<and>
   height (fst (getHexVertex 3 5 2 (HexUtils_new 16 1 (1 / 10) (1 / 2) (1 / 4)))) =
     centerHeight (HexUtils_new 16 1 (1 / 10) (1 / 2) (1 / 4)) 3 5"
proof -
  let ?hu = "HexUtils_new 16 1 (1 / 10) (1 / 2) (1 / 4)"
  have ok: "hu_ok ?hu" by (rule HexUtils_new_ok(1))
  show ?thesis
    using rim_heights_equal_center [OF ok, where centerX = 3 and centerZ = 5 and i = 2] ok
    by simp
qed

text \<open>
  C10. The cell returned by \<open>HexUtils.getNeighbor\<close> for a direction of the table has
  \<open>biomeIndex = floor(getElevation(cx, cz) * 4)\<close> from the un-perturbed elevation at the
  neighbour's centre, while \<open>elevation\<close> and \<open>center.y\<close> hold the perturbed value. The
  two disagree: for the neighbour at \<open>(0, 0)\<close>, with any seeds and sizes, \<open>biomeIndex\<close> is
  \<open>-4\<close> where the floor of four times the stored elevation is \<open>-6\<close>, and the grid pass
  gives the cell \<open>(0, 0)\<close> the biome index \<open>-6\<close>.
\<close>

theorem neighbor_biome_from_unperturbed_elevation:
  "(hu_ok hu \<and> d \<in> set directions \<longrightarrow>
      (\<exists>nb hu' c. HexUtils_getNeighborCoords (hc_gridCoords hex) d = Some c \<and>
         HexUtils_getNeighbor hex d hu = Some (nb, hu') \<and>
         hc_biomeIndex nb =
           \<lfloor>fst (getElevation (fst (centerOf hu c)) (snd (centerOf hu c)) (hu_perturbUtils hu)) * 4\<rfloor> \<and>
         hc_elevation nb = centerHeight hu (fst (centerOf hu c)) (snd (centerOf hu c)) \<and>
         hc_center nb = (fst (centerOf hu c), hc_elevation nb, snd (centerOf hu c)))) \<and>
   (\<exists>nb hu' r gen'.
      HexUtils_getNeighbor (flatHex (1, 0)) ''NW'' (HexUtils_new n hs gap r1 r2) = Some (nb, hu') \<and>
      hc_gridCoords nb = (0, 0) \<and> hc_biomeIndex nb = -4 \<and> \<lfloor>hc_elevation nb * 4\<rfloor> = -6 \<and>
      HexGeneratorU_cell (0, 0) (HexGeneratorU_new n hs gap r1 r2 r3 r4) = Some (r, gen') \<and>
      hc_gridCoords (fst r) = (0, 0) \<and> hc_biomeIndex (fst r) = -6)"
proof (intro conjI impI)
  assume a: "hu_ok hu \<and> d \<in> set directions"
  obtain c where c: "HexUtils_getNeighborCoords (hc_gridCoords hex) d = Some c"
    using directions_cases [OF conjunct2 [OF a]]
    by (auto simp: HexUtils_getNeighborCoords_def directionTable_def Let_def)
  from HexUtils_getNeighbor_result [OF conjunct1 [OF a] c]
  show "\<exists>nb hu' c. HexUtils_getNeighborCoords (hc_gridCoords hex) d = Some c \<and>
         HexUtils_getNeighbor hex d hu = Some (nb, hu') \<and>
         hc_biomeIndex nb =
           \<lfloor>fst (getElevation (fst (centerOf hu c)) (snd (centerOf hu c)) (hu_perturbUtils hu)) * 4\<rfloor> \<and>
         hc_elevation nb = centerHeight hu (fst (centerOf hu c)) (snd (centerOf hu c)) \<and>
         hc_center nb = (fst (centerOf hu c), hc_elevation nb, snd (centerOf hu c))"
    using c by auto
next
  let ?hu = "HexUtils_new n hs gap r1 r2"
  have ok: "hu_ok ?hu" by (rule HexUtils_new_ok(1))
  have dp: "defaultParams (hu_perturbUtils ?hu)" by (rule HexUtils_new_ok(2))
  have c: "HexUtils_getNeighborCoords (hc_gridCoords (flatHex (1, 0))) ''NW'' = Some (0, 0)"
    by (simp add: flatHex_coords HexUtils_getNeighborCoords_def directionTable_def js_mod_def js_plus_exact js_minus_exact)
  have e: "fst (getElevation 0 0 (hu_perturbUtils ?hu)) = -1"
    using ok dp by (simp add: hu_ok_def elevation_at_origin)
  have h: "centerHeight ?hu 0 0 = -1.48"
    by (rule centerHeight_at_origin [OF ok dp])
  from HexUtils_getNeighbor_result [OF ok c]
  obtain nb hu' where
    n: "HexUtils_getNeighbor (flatHex (1, 0)) ''NW'' ?hu = Some (nb, hu')" and
    nc: "hc_gridCoords nb = (0, 0)" and nbi: "hc_biomeIndex nb = -4" and
    ne: "\<lfloor>hc_elevation nb * 4\<rfloor> = -6"
    using e h by (auto simp: centerOf_origin)
  from HexGeneratorU_cell_result [OF gen_ok_new, of "(0, 0)" n hs gap r1 r2 r3 r4]
  obtain r gen' where
    r: "HexGeneratorU_cell (0, 0) (HexGeneratorU_new n hs gap r1 r2 r3 r4) = Some (r, gen')" and
    s: "cellSpec (gen_fresh (HexGeneratorU_new n hs gap r1 r2 r3 r4)) (0, 0) r"
    by blast
  show "\<exists>nb hu' r gen'.
      HexUtils_getNeighbor (flatHex (1, 0)) ''NW'' (HexUtils_new n hs gap r1 r2) = Some (nb, hu') \<and>
      hc_gridCoords nb = (0, 0) \<and> hc_biomeIndex nb = -4 \<and> \<lfloor>hc_elevation nb * 4\<rfloor> = -6 \<and>
      HexGeneratorU_cell (0, 0) (HexGeneratorU_new n hs gap r1 r2 r3 r4) = Some (r, gen') \<and>
      hc_gridCoords (fst r) = (0, 0) \<and> hc_biomeIndex (fst r) = -6"
    using n nc nbi ne r cell_at_origin_biome [OF s] by blast
qed

theorem neighbor_biome_from_unperturbed_elevation_witness:
  "hu_ok (HexUtils_new 16 1 (1 / 10) (1 / 2) (1 / 4)) \<and> ''NW'' \<in> set directions \<and>
   (\<exists>nb hu'. HexUtils_getNeighborCoords (hc_gridCoords (flatHex (1, 0))) ''NW'' = Some (0, 0) \<and>
      HexUtils_getNeighbor (flatHex (1, 0)) ''NW'' (HexUtils_new 16 1 (1 / 10) (1 / 2) (1 / 4)) =
        Some (nb, hu') \<and>
      hc_biomeIndex nb =
        \<lfloor>fst (getElevation 0 0 (hu_perturbUtils (HexUtils_new 16 1 (1 / 10) (1 / 2) (1 / 4)))) * 4\<rfloor> \<and>
      hc_elevation nb = centerHeight (HexUtils_new 16 1 (1 / 10) (1 / 2) (1 / 4)) 0 0 \<and>
      hc_biomeIndex nb = -4 \<and> hc_elevation nb = -1.48)"
proof -
  let ?hu = "HexUtils_new 16 1 (1 / 10) (1 / 2) (1 / 4)"
  have ok: "hu_ok ?hu" by (rule HexUtils_new_ok(1))
  have dp: "defaultParams (hu_perturbUtils ?hu)" by (rule HexUtils_new_ok(2))
  have d: "''NW'' \<in> set directions" by (simp add: directions_def)
  have c: "HexUtils_getNeighborCoords (hc_gridCoords (flatHex (1, 0))) ''NW'' = Some (0, 0)"
    by (simp add: flatHex_coords HexUtils_getNeighborCoords_def directionTable_def js_mod_def js_plus_exact js_minus_exact)
  have e: "fst (getElevation 0 0 (hu_perturbUtils ?hu)) = -1"
    using ok dp by (simp add: hu_ok_def elevation_at_origin)
  have h: "centerHeight ?hu 0 0 = -1.48"
    by (rule centerHeight_at_origin [OF ok dp])
  note t = neighbor_biome_from_unperturbed_elevation
         [where hu = ?hu and d = "''NW''" and hex = "flatHex (1, 0)" and n = 16 and hs = 1
            and gap = "1 / 10" and ?r1.0 = "1 / 2" and ?r2.0 = "1 / 4" and ?r3.0 = "1 / 8"
            and ?r4.0 = "1 / 16", THEN conjunct1, THEN mp, OF conjI [OF ok d]]
  from t show ?thesis
    using ok d c e h by (auto simp: centerOf_origin)
qed

section \<open>Claims on the stitching with closed-form neighbours\<close>

text \<open>
  C1. Seam closure: \<open>renderGrid\<close> on a new generator returns one geometry for every cell
  of the grid, in loop order. If the cell of geometry \<open>meshA\<close> has the cell of geometry
  \<open>meshB\<close> as its neighbour in the \<open>k\<close>-th skirt direction, then the six skirt vertices of
  that direction in \<open>meshA\<close> (positions \<open>7 + 9k\<close> to \<open>7 + 9k + 5\<close>: \<open>v1, v2, nv1, v1, nv1, nv2\<close>)
  are equal to the rim vertices of the two caps (position \<open>1 + i\<close> of a geometry is rim
  vertex \<open>i\<close>): \<open>v1, v2\<close> to the rim of \<open>meshA\<close> at the edge's indices, \<open>nv1, nv2\<close> to the
  rim of \<open>meshB\<close> at the opposite edge's indices.
\<close>

theorem seam_closure:
  "(\<exists>cs g. HexGeneratorU_renderGrid (HexGeneratorU_new n hexSize hexGap r1 r2 r3 r4) = Some (cs, g) \<and>
           map (hc_gridCoords \<circ> fst) cs = gridCells n) \<and>
   (HexGeneratorU_renderGrid (HexGeneratorU_new n hexSize hexGap r1 r2 r3 r4) = Some (cells, gen') \<and>
    (hexA, meshA) \<in> set cells \<and> (hexB, meshB) \<in> set cells \<and>
    k < 3 \<and> skirtDirections ! k = d \<and>
    HexUtils_getNeighborCoords (hc_gridCoords hexA) d = Some (hc_gridCoords hexB) \<and>
    edgeVertexMap d = Some (i1, i2) \<and> oppositeDirection d = Some d' \<and>
    edgeVertexMap d' = Some (j1, j2) \<longrightarrow>
      positions meshA ! (7 + 9 * k) = positions meshA ! (1 + i1) \<and>
      positions meshA ! (7 + 9 * k + 1) = positions meshA ! (1 + i2) \<and>
      positions meshA ! (7 + 9 * k + 2) = positions meshB ! (1 + j1) \<and>
      positions meshA ! (7 + 9 * k + 3) = positions meshA ! (1 + i1) \<and>
      positions meshA ! (7 + 9 * k + 4) = positions meshB ! (1 + j1) \<and>
      positions meshA ! (7 + 9 * k + 5) = positions meshB ! (1 + j2) \<and>
      indices meshA ! (6 + 3 * k) = (7 + 9 * k, 7 + 9 * k + 1, 7 + 9 * k + 2) \<and>
      indices meshA ! (6 + 3 * k + 1) = (7 + 9 * k + 3, 7 + 9 * k + 4, 7 + 9 * k + 5))"
proof -
  let ?new = "HexGeneratorU_new n hexSize hexGap r1 r2 r3 r4"
  let ?G = "gen_fresh ?new"
  from HexGeneratorU_renderGrid_result [of n hexSize hexGap r1 r2 r3 r4]
  obtain cs g where
    run: "HexGeneratorU_renderGrid ?new = Some (cs, g)" and
    sp: "list_all2 (cellSpec ?G) (gridCells n) cs"
    by blast
  have first: "\<exists>cs g. HexGeneratorU_renderGrid ?new = Some (cs, g) \<and>
                 map (hc_gridCoords \<circ> fst) cs = gridCells n"
    using run cellSpec_all_coords [OF sp] by blast
  have second: "positions meshA ! (7 + 9 * k) = positions meshA ! (1 + i1) \<and>
      positions meshA ! (7 + 9 * k + 1) = positions meshA ! (1 + i2) \<and>
      positions meshA ! (7 + 9 * k + 2) = positions meshB ! (1 + j1) \<and>
      positions meshA ! (7 + 9 * k + 3) = positions meshA ! (1 + i1) \<and>
      positions meshA ! (7 + 9 * k + 4) = positions meshB ! (1 + j1) \<and>
      positions meshA ! (7 + 9 * k + 5) = positions meshB ! (1 + j2) \<and>
      indices meshA ! (6 + 3 * k) = (7 + 9 * k, 7 + 9 * k + 1, 7 + 9 * k + 2) \<and>
      indices meshA ! (6 + 3 * k + 1) = (7 + 9 * k + 3, 7 + 9 * k + 4, 7 + 9 * k + 5)"
    if h: "HexGeneratorU_renderGrid ?new = Some (cells, gen') \<and>
      (hexA, meshA) \<in> set cells \<and> (hexB, meshB) \<in> set cells \<and>
      k < 3 \<and> skirtDirections ! k = d \<and>
      HexUtils_getNeighborCoords (hc_gridCoords hexA) d = Some (hc_gridCoords hexB) \<and>
      edgeVertexMap d = Some (i1, i2) \<and> oppositeDirection d = Some d' \<and>
      edgeVertexMap d' = Some (j1, j2)"
  proof -
    have e: "cells = cs" using h run by simp
    have A: "cellSpec ?G (hc_gridCoords hexA) (hexA, meshA)"
      using cellSpec_member [OF sp, of "(hexA, meshA)"] h e by simp
    have B: "cellSpec ?G (hc_gridCoords hexB) (hexB, meshB)"
      using cellSpec_member [OF sp, of "(hexB, meshB)"] h e by simp
    have hk: "k < 3" and hd: "skirtDirections ! k = d"
      and hn: "HexUtils_getNeighborCoords (hc_gridCoords hexA) d = Some (hc_gridCoords hexB)"
      and t1: "edgeVertexMap d = Some (i1, i2)" and t2: "oppositeDirection d = Some d'"
      and t3: "edgeVertexMap d' = Some (j1, j2)"
      using h by blast+
    show ?thesis
      by (rule seam_core [OF A B gen_fresh_hexUtils hk hd hn t1 t2 t3])
  qed
  show ?thesis using first second by blast
qed

theorem seam_closure_witness:
  "\<exists>cells gen'.
     HexGeneratorU_renderGrid (HexGeneratorU_new 2 1 (1 / 10) (1 / 2) (1 / 4) (1 / 8) (1 / 16)) =
       Some (cells, gen') \<and>
     length cells = 4 \<and> cells ! 0 \<in> set cells \<and> cells ! 1 \<in> set cells \<and>
     (0 :: nat) < 3 \<and> skirtDirections ! 0 = ''SE'' \<and>
     HexUtils_getNeighborCoords (hc_gridCoords (fst (cells ! 0))) ''SE'' =
       Some (hc_gridCoords (fst (cells ! 1))) \<and>
     edgeVertexMap ''SE'' = Some (0, 1) \<and> oppositeDirection ''SE'' = Some ''NW'' \<and>
     edgeVertexMap ''NW'' = Some (3, 4) \<and>
     positions (snd (cells ! 0)) ! 7 = positions (snd (cells ! 0)) ! 1 \<and>
     positions (snd (cells ! 0)) ! 8 = positions (snd (cells ! 0)) ! 2 \<and>
     positions (snd (cells ! 0)) ! 9 = positions (snd (cells ! 1)) ! 4 \<and>
     positions (snd (cells ! 0)) ! 12 = positions (snd (cells ! 1)) ! 5"
proof -
  let ?new = "HexGeneratorU_new 2 1 (1 / 10) (1 / 2) (1 / 4) (1 / 8) (1 / 16)"
  note sc = seam_closure [where n = 2 and hexSize = 1 and hexGap = "1 / 10" and ?r1.0 = "1 / 2"
      and ?r2.0 = "1 / 4" and ?r3.0 = "1 / 8" and ?r4.0 = "1 / 16"]
  from sc [THEN conjunct1] obtain cs g where
    run: "HexGeneratorU_renderGrid ?new = Some (cs, g)" and
    co: "map (hc_gridCoords \<circ> fst) cs = gridCells 2"
    by blast
  have len: "length cs = 4"
    using arg_cong [OF co, of length] by (simp add: gridCells_2)
  have c0: "hc_gridCoords (fst (cs ! 0)) = (0, 0)"
    using arg_cong [OF co, of "\<lambda>l. l ! 0"] len by (simp add: gridCells_2)
  have c1: "hc_gridCoords (fst (cs ! 1)) = (1, 0)"
    using arg_cong [OF co, of "\<lambda>l. l ! 1"] len by (simp add: gridCells_2)
  have m0: "(fst (cs ! 0), snd (cs ! 0)) \<in> set cs" and m1: "(fst (cs ! 1), snd (cs ! 1)) \<in> set cs"
    using len by simp_all
  have k: "(0 :: nat) < 3" "skirtDirections ! 0 = ''SE''"
    by (simp_all add: skirtDirections_def)
  have nb: "HexUtils_getNeighborCoords (hc_gridCoords (fst (cs ! 0))) ''SE'' =
              Some (hc_gridCoords (fst (cs ! 1)))"
    unfolding c0 c1 by (simp add: HexUtils_getNeighborCoords_def directionTable_def js_mod_def js_plus_exact js_minus_exact)
  have tb: "edgeVertexMap ''SE'' = Some (0, 1)" "oppositeDirection ''SE'' = Some ''NW''"
    "edgeVertexMap ''NW'' = Some (3, 4)"
    by (simp_all add: edgeVertexMap_def oppositeDirection_def)
  from sc [where cells = cs and gen' = g and hexA = "fst (cs ! 0)" and meshA = "snd (cs ! 0)"
      and hexB = "fst (cs ! 1)" and meshB = "snd (cs ! 1)" and k = 0 and d = "''SE''"
      and ?i1.0 = 0 and ?i2.0 = 1 and d' = "''NW''" and ?j1.0 = 3 and ?j2.0 = 4,
      THEN conjunct2, THEN mp]
  have "positions (snd (cs ! 0)) ! 7 = positions (snd (cs ! 0)) ! 1 \<and>
        positions (snd (cs ! 0)) ! 8 = positions (snd (cs ! 0)) ! 2 \<and>
        positions (snd (cs ! 0)) ! 9 = positions (snd (cs ! 1)) ! 4 \<and>
        positions (snd (cs ! 0)) ! 12 = positions (snd (cs ! 1)) ! 5"
    using run m0 m1 k nb tb by (simp add: numeral_2_eq_2)
  then show ?thesis
    using run len m0 m1 k nb tb by simp
qed

text \<open>
  C2 as stated fails for the generator with closed-form neighbours: the south-west
  neighbour of the cell \<open>(0, 0)\<close> of a 2 by 2 grid has the coordinates \<open>(-1, 0)\<close>, outside
  the grid, and the cell's geometry still has 6 skirt triangles, 3 corner triangles and 34
  positions: two skirt triangles and a corner triangle for each of the three directions.
\<close>

theorem boundary_skirt_emitted:
  "HexUtils_getNeighborCoords (0, 0) ''SW'' = Some (-1, 0) \<and> \<not> inBounds 2 (-1, 0) \<and>
   map_option meshCounts
     (HexGeneratorU_cellMesh (0, 0)
        (HexGeneratorU_new 2 1 (1 / 10) (1 / 2) (1 / 4) (1 / 8) (1 / 16))) = Some (6, 3, 34)"
proof -
  let ?new = "HexGeneratorU_new 2 1 (1 / 10) (1 / 2) (1 / 4) (1 / 8) (1 / 16)"
  have ok: "gen_ok ?new" by (rule gen_ok_new)
  from HexGeneratorU_cell_result [OF ok, of "(0, 0)"]
  obtain r gen' where
    r: "HexGeneratorU_cell (0, 0) ?new = Some (r, gen')" and
    s: "cellSpec (gen_fresh ?new) (0, 0) r"
    by blast
  have counts: "skirtTriangleCount (snd r) = 6" "cornerTriangleCount (snd r) = 3"
    using s by (simp_all add: cellSpec_def Let_def)
  have "length (positions (snd r)) = 34"
    using s by (simp add: cellSpec_def Let_def verticesOf_length skirtPositions_def)
  then have "map_option meshCounts (HexGeneratorU_cellMesh (0, 0) ?new) = Some (6, 3, 34)"
    using r counts by (simp add: HexGeneratorU_cellMesh_def meshCounts_def)
  moreover have "HexUtils_getNeighborCoords (0, 0) ''SW'' = Some (-1, 0)"
    by (simp add: HexUtils_getNeighborCoords_def directionTable_def js_mod_def js_plus_exact js_minus_exact)
  moreover have "\<not> inBounds 2 (-1, 0)" by (simp add: inBounds_def)
  ultimately show ?thesis by blast
qed

end
